(* ===== verification/Prelude.thy ===== *)
theory Prelude
  imports Main "HOL-Library.AList" "HOL-Library.Char_ord"
begin

section \<open>Prelude: results, folds over results, association lists\<close>

text \<open>
  Shared vocabulary of the development.  A Python call that may raise is a value of
  \<open>'a res\<close>: \<open>Inl e\<close> for a raised exception \<open>e\<close> and \<open>Inr x\<close> for a normal return.  Only the
  exception classes that the addons can raise or catch are listed.  \<open>bindR\<close> sequences two calls,
  \<open>catchR\<close> is \<open>try/except\<close> and \<open>foldR\<close> is a \<open>for\<close> loop whose body may raise.
\<close>

named_theorems res_simps \<open>unfolding equations for results\<close>
named_theorems text_simps \<open>facts about Python text\<close>
named_theorems regex_simps \<open>facts about compiled patterns\<close>

datatype exn =
    OSError | ValueError | JSONDecodeError | UnicodeDecodeError
  | KeyError | IndexError | TypeError | AttributeError | OverflowError | AssertionError

type_synonym 'a res = "exn + 'a"

text \<open>\<open>JSONDecodeError\<close> and \<open>UnicodeDecodeError\<close> are subclasses of \<open>ValueError\<close>.\<close>

definition is_value_error :: "exn \<Rightarrow> bool" where
  "is_value_error e \<longleftrightarrow> e \<in> {ValueError, JSONDecodeError, UnicodeDecodeError}"

definition bindR :: "'a res \<Rightarrow> ('a \<Rightarrow> 'b res) \<Rightarrow> 'b res" where
  "bindR m f = (case m of Inl e \<Rightarrow> Inl e | Inr a \<Rightarrow> f a)"

definition catchR :: "'a res \<Rightarrow> (exn \<Rightarrow> bool) \<Rightarrow> (exn \<Rightarrow> 'a res) \<Rightarrow> 'a res" where
  "catchR m P h = (case m of Inl e \<Rightarrow> if P e then h e else Inl e | Inr a \<Rightarrow> Inr a)"

lemma bindR_simps [simp, res_simps]:
  "bindR (Inl e) f = Inl e"
  "bindR (Inr a) f = f a"
  by (simp_all add: bindR_def)

lemma catchR_simps [simp, res_simps]:
  "catchR (Inr a) P h = Inr a"
  "catchR (Inl e) P h = (if P e then h e else Inl e)"
  by (simp_all add: catchR_def)

lemma bindR_eq_Inr: "bindR m f = Inr b \<longleftrightarrow> (\<exists>a. m = Inr a \<and> f a = Inr b)"
  by (cases m) auto

lemma bindR_eq_Inl: "bindR m f = Inl e \<longleftrightarrow> m = Inl e \<or> (\<exists>a. m = Inr a \<and> f a = Inl e)"
  by (cases m) auto

lemma bindR_split:
  "P (bindR m f) \<longleftrightarrow> (\<forall>e. m = Inl e \<longrightarrow> P (Inl e)) \<and> (\<forall>a. m = Inr a \<longrightarrow> P (f a))"
  by (cases m) auto

lemma bindR_assoc: "bindR (bindR m f) g = bindR m (\<lambda>a. bindR (f a) g)"
  by (cases m) simp_all

lemma bindR_Inr_right [simp]: "bindR m Inr = m"
  by (cases m) simp_all

fun foldR :: "('e \<Rightarrow> 's \<Rightarrow> 's res) \<Rightarrow> 'e list \<Rightarrow> 's \<Rightarrow> 's res" where
  "foldR f [] s = Inr s"
| "foldR f (x # xs) s = bindR (f x s) (foldR f xs)"

lemma foldR_append: "foldR f (xs @ ys) s = bindR (foldR f xs s) (foldR f ys)"
  by (induction xs arbitrary: s) (simp_all add: bindR_def split: sum.splits)

lemma foldR_invariant:
  assumes "\<And>x s s'. x \<in> set xs \<Longrightarrow> P s \<Longrightarrow> f x s = Inr s' \<Longrightarrow> P s'"
    and "P s" and "foldR f xs s = Inr s'"
  shows "P s'"
  using assms by (induction xs arbitrary: s) (auto simp: bindR_eq_Inr)

lemma foldR_total:
  assumes "\<And>x s. x \<in> set xs \<Longrightarrow> P s \<Longrightarrow> \<exists>s'. f x s = Inr s' \<and> P s'" and "P s"
  shows "\<exists>s'. foldR f xs s = Inr s' \<and> P s'"
  using assms
proof (induction xs arbitrary: s)
  case (Cons x xs)
  from Cons.prems obtain s' where "f x s = Inr s'" "P s'" by force
  with Cons.IH [of s'] Cons.prems show ?case by simp
qed simp

text \<open>A \<open>for\<close> loop that leaves at the first item for which the body returns a value.\<close>

fun first_some :: "('a \<Rightarrow> 'b option) \<Rightarrow> 'a list \<Rightarrow> 'b option" where
  "first_some f [] = None"
| "first_some f (x # xs) = (case f x of Some y \<Rightarrow> Some y | None \<Rightarrow> first_some f xs)"

lemma first_some_None: "first_some f xs = None \<longleftrightarrow> (\<forall>x \<in> set xs. f x = None)"
  by (induction xs) (auto split: option.splits)

lemma first_some_Some: "first_some f xs = Some y \<Longrightarrow> \<exists>x \<in> set xs. f x = Some y"
  by (induction xs) (auto split: option.splits)

lemma first_some_append: "first_some f (xs @ ys) = (case first_some f xs of Some y \<Rightarrow> Some y | None \<Rightarrow> first_some f ys)"
  by (induction xs) (auto split: option.splits)

lemma first_some_concat: "first_some f (concat xss) = first_some (first_some f) xss"
proof (induction xss)
  case (Cons xs xss)
  show ?case unfolding concat.simps first_some_append first_some.simps(2) Cons.IH ..
qed simp

lemma first_some_map: "first_some f (map g xs) = first_some (\<lambda>x. f (g x)) xs"
proof (induction xs)
  case (Cons x xs)
  show ?case unfolding list.map first_some.simps(2) Cons.IH ..
qed simp

lemma first_some_filter: "first_some f (filter P xs) = first_some (\<lambda>x. if P x then f x else None) xs"
proof (induction xs)
  case (Cons x xs)
  show ?case
  proof (cases "P x")
    case True
    then show ?thesis by (simp only: filter.simps if_True first_some.simps(2) Cons.IH)
  next
    case False
    then show ?thesis by (simp add: Cons.IH)
  qed
qed simp

text \<open>
  A Python dict keeps its insertion order: it is an association list with distinct keys,
  \<open>d[k] = v\<close> is \<open>dict_set\<close> and \<open>d.update(e)\<close> is \<open>dict_update\<close>.
\<close>

type_synonym ('k, 'v) pydict = "('k \<times> 'v) list"

abbreviation dict_get :: "('k, 'v) pydict \<Rightarrow> 'k \<Rightarrow> 'v option" where
  "dict_get \<equiv> map_of"

definition dict_set :: "'k \<Rightarrow> 'v \<Rightarrow> ('k, 'v) pydict \<Rightarrow> ('k, 'v) pydict" where
  "dict_set k v d = AList.update k v d"

fun dict_update :: "('k, 'v) pydict \<Rightarrow> ('k, 'v) pydict \<Rightarrow> ('k, 'v) pydict" where
  "dict_update d [] = d"
| "dict_update d ((k, v) # e) = dict_update (dict_set k v d) e"

definition dict_setdefault :: "'k \<Rightarrow> 'v \<Rightarrow> ('k, 'v) pydict \<Rightarrow> ('k, 'v) pydict" where
  "dict_setdefault k v d = (case map_of d k of None \<Rightarrow> dict_set k v d | Some _ \<Rightarrow> d)"

lemma dict_get_set [simp]: "dict_get (dict_set k v d) k' = (if k' = k then Some v else dict_get d k')"
  by (simp add: dict_set_def update_conv)

lemma dict_get_setdefault [simp]:
  "dict_get (dict_setdefault k v d) k' =
     (if k' = k \<and> dict_get d k = None then Some v else dict_get d k')"
  by (auto simp: dict_setdefault_def split: option.splits)

lemma dict_get_update:
  assumes "distinct (map fst e)"
  shows "dict_get (dict_update d e) k = (case map_of e k of Some v \<Rightarrow> Some v | None \<Rightarrow> dict_get d k)"
  using assms
proof (induction d e rule: dict_update.induct)
  case (2 d k' v e)
  then have "map_of e k' = None" by (simp add: map_of_eq_None_iff)
  with 2 show ?case by (auto split: option.splits)
qed simp

lemma dict_set_keys: "fst ` set (dict_set k v d) = insert k (fst ` set d)"
  by (simp add: dict_set_def dom_update)

end
