(* ===== verification/Py_Text.thy ===== *)
theory Py_Text
  imports Prelude
begin

section \<open>Python text: the \<open>str\<close> methods the addons call\<close>

text \<open>
  A Python string is a \<open>string\<close> whose characters are the code points U+0000 to U+00FF (Latin-1).
  On that alphabet the operations below are those of CPython: \<open>strip\<close>, \<open>lower\<close>, \<open>upper\<close>,
  \<open>replace\<close>, \<open>in\<close>, \<open>startswith\<close>, \<open>split\<close>, \<open>splitlines\<close>, \<open>isdigit\<close>, \<open>join\<close>, \<open>int(text)\<close> and
  \<open>str(number)\<close>.  Code points above U+00FF are outside the model, except where a theory says
  otherwise (the reply of a datagram in \<open>Rcon_Wire\<close>).
\<close>

subsection \<open>Character classes\<close>

definition code :: "char \<Rightarrow> int" where
  "code c = of_char c"

definition in_range :: "int \<Rightarrow> int \<Rightarrow> char \<Rightarrow> bool" where
  "in_range a b c \<longleftrightarrow> a \<le> code c \<and> code c \<le> b"

text \<open>\<open>str.isspace\<close>: tab to carriage return, the separators 1C to 1F, space, NEL and NBSP.\<close>

definition is_space :: "char \<Rightarrow> bool" where
  "is_space c \<longleftrightarrow> in_range 9 13 c \<or> in_range 28 32 c \<or> code c = 133 \<or> code c = 160"

text \<open>Decimal digits (\<open>\d\<close>, \<open>int\<close>), and \<open>str.isdigit\<close>, which adds the superscripts.\<close>

definition is_decimal :: "char \<Rightarrow> bool" where
  "is_decimal c \<longleftrightarrow> in_range 48 57 c"

definition is_digit_char :: "char \<Rightarrow> bool" where
  "is_digit_char c \<longleftrightarrow> is_decimal c \<or> code c \<in> {178, 179, 185}"

text \<open>\<open>str.isalnum\<close> or underscore: the regular expression class \<open>\w\<close>.\<close>

definition is_word :: "char \<Rightarrow> bool" where
  "is_word c \<longleftrightarrow> is_decimal c \<or> in_range 65 90 c \<or> in_range 97 122 c \<or> code c = 95 \<or>
     code c \<in> {170, 178, 179, 181, 185, 186, 188, 189, 190} \<or>
     in_range 192 214 c \<or> in_range 216 246 c \<or> in_range 248 255 c"

definition is_control :: "char \<Rightarrow> bool" where
  "is_control c \<longleftrightarrow> code c \<le> 31 \<or> code c = 127"

subsection \<open>Stripping\<close>

definition lstrip :: "string \<Rightarrow> string" where
  "lstrip s = dropWhile is_space s"

definition rstrip :: "string \<Rightarrow> string" where
  "rstrip s = rev (dropWhile is_space (rev s))"

definition strip :: "string \<Rightarrow> string" where
  "strip s = rstrip (lstrip s)"

text \<open>\<open>s.strip(chars)\<close> with an explicit set of characters.\<close>

definition strip_chars :: "string \<Rightarrow> string \<Rightarrow> string" where
  "strip_chars cs s = rev (dropWhile (\<lambda>c. c \<in> set cs) (rev (dropWhile (\<lambda>c. c \<in> set cs) s)))"

subsection \<open>Case\<close>

definition lower_char :: "char \<Rightarrow> char" where
  "lower_char c = (if in_range 65 90 c \<or> in_range 192 214 c \<or> in_range 216 222 c
                   then char_of (code c + 32) else c)"

definition lower :: "string \<Rightarrow> string" where
  "lower s = map lower_char s"

text \<open>
  \<open>upper\<close> maps the sharp s to two letters; the micro sign and y with diaeresis, whose capitals lie
  outside the alphabet, stay as they are.
\<close>

definition upper_char :: "char \<Rightarrow> string" where
  "upper_char c = (if code c = 223 then ''SS''
     else if in_range 97 122 c \<or> in_range 224 246 c \<or> in_range 248 254 c
     then [char_of (code c - 32)] else [c])"

definition upper :: "string \<Rightarrow> string" where
  "upper s = concat (map upper_char s)"

subsection \<open>Searching, replacing, splitting\<close>

fun startswith :: "string \<Rightarrow> string \<Rightarrow> bool" where
  "startswith s [] = True"
| "startswith [] (p # ps) = False"
| "startswith (c # s) (p # ps) = (c = p \<and> startswith s ps)"

text \<open>\<open>needle in s\<close>.\<close>

fun contains :: "string \<Rightarrow> string \<Rightarrow> bool" where
  "contains [] needle = (needle = [])"
| "contains (c # s) needle = (startswith (c # s) needle \<or> contains s needle)"

text \<open>\<open>s.replace(c, r)\<close> for a one-character \<open>c\<close>.\<close>

definition replace_char :: "char \<Rightarrow> string \<Rightarrow> string \<Rightarrow> string" where
  "replace_char c r s = concat (map (\<lambda>x. if x = c then r else [x]) s)"

text \<open>\<open>s.split(c, 1)\<close> for a text that contains the character: the two parts.\<close>

definition split_once :: "char \<Rightarrow> string \<Rightarrow> string \<times> string" where
  "split_once c s = (takeWhile (\<lambda>x. x \<noteq> c) s, tl (dropWhile (\<lambda>x. x \<noteq> c) s))"

text \<open>\<open>s.split(c)\<close>: never empty, one more part than separators.\<close>

fun split_char :: "char \<Rightarrow> string \<Rightarrow> string list" where
  "split_char c [] = [[]]"
| "split_char c (x # s) =
     (if x = c then [] # split_char c s
      else case split_char c s of [] \<Rightarrow> [[x]] | p # ps \<Rightarrow> (x # p) # ps)"

definition is_line_break :: "char \<Rightarrow> bool" where
  "is_line_break c \<longleftrightarrow> in_range 10 13 c \<or> in_range 28 30 c \<or> code c = 133"

text \<open>\<open>str.splitlines()\<close>: the pair carriage return, line feed is one break.\<close>

fun splitlines_go :: "string \<Rightarrow> string \<Rightarrow> string list" where
  "splitlines_go acc [] = (if acc = [] then [] else [rev acc])"
| "splitlines_go acc (CHR 0x0D # CHR 0x0A # s) = rev acc # splitlines_go [] s"
| "splitlines_go acc (c # s) =
     (if is_line_break c then rev acc # splitlines_go [] s else splitlines_go (c # acc) s)"

definition splitlines :: "string \<Rightarrow> string list" where
  "splitlines s = splitlines_go [] s"

fun join :: "string \<Rightarrow> string list \<Rightarrow> string" where
  "join sep [] = []"
| "join sep [s] = s"
| "join sep (s # t # ss) = s @ sep @ join sep (t # ss)"

subsection \<open>Numbers\<close>

definition digit_val :: "char \<Rightarrow> int" where
  "digit_val c = code c - 48"

text \<open>\<open>str(n)\<close>.\<close>

function str_of_nonneg :: "int \<Rightarrow> string" where
  "str_of_nonneg n = (if n < 10 then [char_of (48 + n)]
                      else str_of_nonneg (n div 10) @ [char_of (48 + n mod 10)])"
  by pat_completeness auto
termination
  by (relation "measure nat") auto

declare str_of_nonneg.simps [simp del]

definition str_of_int :: "int \<Rightarrow> string" where
  "str_of_int i = (if i < 0 then CHR ''-'' # str_of_nonneg (- i) else str_of_nonneg i)"

text \<open>
  \<open>int(text)\<close>: surrounding white space, a sign, digits with single underscores between them.
  CPython refuses more than 4300 digits (\<open>sys.int_info.default_max_str_digits\<close>).
\<close>

definition int_max_str_digits :: int where
  "int_max_str_digits = 4300"

fun digits_ok :: "string \<Rightarrow> bool" where
  "digits_ok [] = False"
| "digits_ok [c] = is_decimal c"
| "digits_ok (c # d # s) =
     (is_decimal c \<and> (if d = CHR ''_'' then digits_ok s else digits_ok (d # s)))"

definition int_of_digits :: "string \<Rightarrow> int" where
  "int_of_digits s = foldl (\<lambda>n c. 10 * n + digit_val c) 0 s"

definition py_int_text :: "string \<Rightarrow> int res" where
  "py_int_text s =
     (let t = strip s;
          neg = (case t of c # _ \<Rightarrow> c = CHR ''-'' | [] \<Rightarrow> False);
          body = (case t of c # u \<Rightarrow> if c = CHR ''-'' \<or> c = CHR ''+'' then u else t | [] \<Rightarrow> t);
          ds = filter is_decimal body
      in if digits_ok body \<and> int (length ds) \<le> int_max_str_digits
         then Inr (if neg then - int_of_digits ds else int_of_digits ds)
         else Inl ValueError)"

subsection \<open>Facts about stripping\<close>

lemma strip_Nil [simp]: "strip [] = []"
  by (simp add: strip_def lstrip_def rstrip_def)

lemma dropWhile_all: "dropWhile P s = [] \<longleftrightarrow> (\<forall>c \<in> set s. P c)"
  by (induction s) auto

lemma set_rstrip: "set (rstrip s) \<subseteq> set s"
  by (auto simp: rstrip_def dest: set_dropWhileD)

lemma set_strip: "set (strip s) \<subseteq> set s"
  using set_rstrip [of "lstrip s"] by (auto simp: strip_def lstrip_def dest: set_dropWhileD)

lemma list_all_strip [text_simps]: "list_all P s \<Longrightarrow> list_all P (strip s)"
  using set_strip by (auto simp: list_all_iff)

lemma length_strip: "length (strip s) \<le> length s"
proof -
  have "length (dropWhile is_space t) \<le> length t" for t by (rule length_dropWhile_le)
  from this [of s] this [of "rev (dropWhile is_space s)"] show ?thesis
    by (simp add: strip_def lstrip_def rstrip_def)
qed

lemma rstrip_snoc: "rstrip (s @ [c]) = (if is_space c then rstrip s else s @ [c])"
  by (simp add: rstrip_def)

lemma rstrip_last: "rstrip s \<noteq> [] \<Longrightarrow> \<not> is_space (last (rstrip s))"
  by (induction s rule: rev_induct) (auto simp: rstrip_snoc rstrip_def)

lemma rstrip_hd: "rstrip s \<noteq> [] \<Longrightarrow> hd (rstrip s) = hd s"
proof (induction s rule: rev_induct)
  case (snoc c s)
  then show ?case by (cases s) (auto simp: rstrip_snoc rstrip_def)
qed (simp add: rstrip_def)

lemma lstrip_hd: "lstrip s \<noteq> [] \<Longrightarrow> \<not> is_space (hd (lstrip s))"
  by (simp add: lstrip_def hd_dropWhile)

lemma rstrip_id: "s = [] \<or> \<not> is_space (last s) \<Longrightarrow> rstrip s = s"
  by (cases s rule: rev_cases) (auto simp: rstrip_snoc rstrip_def)

lemma rstrip_Nil_iff: "rstrip s = [] \<longleftrightarrow> (\<forall>c \<in> set s. is_space c)"
  by (simp add: rstrip_def dropWhile_all)

lemma strip_eq_Nil [text_simps]: "strip s = [] \<longleftrightarrow> (\<forall>c \<in> set s. is_space c)"
proof
  show "\<forall>c \<in> set s. is_space c" if "strip s = []"
  proof (rule ccontr)
    assume "\<not> (\<forall>c \<in> set s. is_space c)"
    then have ne: "lstrip s \<noteq> []" by (simp add: lstrip_def dropWhile_all)
    then have "hd (lstrip s) \<in> set (lstrip s)" by simp
    with that lstrip_hd [OF ne] show False by (auto simp: strip_def rstrip_Nil_iff)
  qed
next
  show "strip s = []" if "\<forall>c \<in> set s. is_space c"
    using that set_rstrip [of "lstrip s"]
    by (auto simp: strip_def rstrip_Nil_iff lstrip_def dest: set_dropWhileD)
qed

text \<open>A stripped text has no white space at either end, and only such a text is unchanged.\<close>

lemma strip_edges:
  assumes "strip s \<noteq> []"
  shows "\<not> is_space (hd (strip s))" and "\<not> is_space (last (strip s))"
proof -
  from assms have r: "rstrip (lstrip s) \<noteq> []" by (simp add: strip_def)
  then have "lstrip s \<noteq> []" by (auto simp: rstrip_def)
  with r show "\<not> is_space (hd (strip s))" by (simp add: strip_def rstrip_hd lstrip_hd)
  from r show "\<not> is_space (last (strip s))" by (simp add: strip_def rstrip_last)
qed

lemma lstrip_id: "s = [] \<or> \<not> is_space (hd s) \<Longrightarrow> lstrip s = s"
  by (cases s) (auto simp: lstrip_def)

lemma strip_id: "s = [] \<or> (\<not> is_space (hd s) \<and> \<not> is_space (last s)) \<Longrightarrow> strip s = s"
  by (auto simp: strip_def lstrip_id rstrip_id)

lemma strip_strip [simp]: "strip (strip s) = strip s"
  using strip_edges [of s] by (intro strip_id) blast

lemma strip_no_space [text_simps]: "\<forall>c \<in> set s. \<not> is_space c \<Longrightarrow> strip s = s"
  by (cases "s = []") (auto intro!: strip_id)

lemma newline_space: "is_space (CHR 0x0A)"
  by (simp add: is_space_def in_range_def code_def)

lemma strip_snoc_space: "is_space c \<Longrightarrow> strip (v @ [c]) = strip v"
proof (cases "\<forall>x \<in> set v. is_space x")
  case True
  assume "is_space c"
  with True have "\<forall>x \<in> set (v @ [c]). is_space x" by simp
  with True show ?thesis by (simp only: strip_eq_Nil [THEN iffD2])
next
  case False
  assume "is_space c"
  moreover from False have "lstrip (v @ [c]) = lstrip v @ [c]" by (auto simp: lstrip_def dropWhile_append dropWhile_all)
  ultimately show ?thesis by (simp add: strip_def rstrip_snoc)
qed

subsection \<open>Facts about numbers\<close>

lemma code_char_of: "0 \<le> n \<Longrightarrow> n < 256 \<Longrightarrow> code (char_of n) = n"
  by (simp add: code_def)

lemma digit_char:
  assumes "0 \<le> d" "d < 10"
  shows "is_decimal (char_of (48 + d))" "digit_val (char_of (48 + d)) = d"
  using assms by (simp_all add: is_decimal_def in_range_def digit_val_def code_char_of)

lemma is_decimal_not_space [text_simps]: "is_decimal c \<Longrightarrow> \<not> is_space c"
  by (auto simp: is_decimal_def is_space_def in_range_def)

lemma is_decimal_no_sign [text_simps]:
  "is_decimal c \<Longrightarrow> c \<noteq> CHR ''-''" "is_decimal c \<Longrightarrow> c \<noteq> CHR ''+''" "is_decimal c \<Longrightarrow> c \<noteq> CHR ''_''"
  by (auto simp: is_decimal_def in_range_def code_def)

lemma digits_ok_decimals: "ds \<noteq> [] \<Longrightarrow> list_all is_decimal ds \<Longrightarrow> digits_ok ds"
  by (induction ds rule: digits_ok.induct) (auto simp: text_simps)

lemma str_of_nonneg_decimals:
  "0 \<le> n \<Longrightarrow> str_of_nonneg n \<noteq> [] \<and> list_all is_decimal (str_of_nonneg n)"
proof (induction n rule: str_of_nonneg.induct)
  case (1 n)
  show ?case
  proof (cases "n < 10")
    case True
    with "1.prems" show ?thesis by (subst (1 2) str_of_nonneg.simps) (simp add: digit_char)
  next
    case False
    with 1 have "list_all is_decimal (str_of_nonneg (n div 10))" by simp
    with False show ?thesis by (subst (1 2) str_of_nonneg.simps) (simp add: digit_char)
  qed
qed

lemma int_of_digits_str_of_nonneg: "0 \<le> n \<Longrightarrow> int_of_digits (str_of_nonneg n) = n"
proof (induction n rule: str_of_nonneg.induct)
  case (1 n)
  show ?case
  proof (cases "n < 10")
    case True
    with "1.prems" show ?thesis
      by (subst str_of_nonneg.simps) (simp add: int_of_digits_def digit_char)
  next
    case False
    with 1 have "int_of_digits (str_of_nonneg (n div 10)) = n div 10" by simp
    with False show ?thesis
      by (subst str_of_nonneg.simps) (simp add: int_of_digits_def digit_char)
  qed
qed

lemma int_of_digits_nonneg: "list_all is_decimal ds \<Longrightarrow> 0 \<le> int_of_digits ds"
proof -
  have "0 \<le> foldl (\<lambda>n c. 10 * n + digit_val c) n ds" if "0 \<le> n" "list_all is_decimal ds" for n
    using that
    by (induction ds arbitrary: n) (auto simp: is_decimal_def in_range_def digit_val_def)
  then show "list_all is_decimal ds \<Longrightarrow> ?thesis" by (simp add: int_of_digits_def)
qed

lemma filter_decimals: "list_all is_decimal ds \<Longrightarrow> filter is_decimal ds = ds"
  by (simp add: list_all_iff)

lemma strip_decimals: "list_all is_decimal ds \<Longrightarrow> strip ds = ds"
  by (auto simp: list_all_iff intro!: strip_no_space simp: text_simps)

text \<open>\<open>int\<close> reads back a run of digits, up to the digit limit of CPython.\<close>

lemma py_int_text_decimals:
  assumes "ds \<noteq> []" "list_all is_decimal ds"
  shows "py_int_text ds =
    (if int (length ds) \<le> int_max_str_digits then Inr (int_of_digits ds) else Inl ValueError)"
proof -
  obtain d rest where ds: "ds = d # rest" using assms(1) by (cases ds) auto
  with assms(2) have "d \<noteq> CHR ''-''" "d \<noteq> CHR ''+''" by (auto simp: text_simps)
  with ds assms show ?thesis
    by (simp add: py_int_text_def strip_decimals filter_decimals digits_ok_decimals Let_def)
qed

lemma py_int_text_str_of_int:
  assumes "int (length (str_of_nonneg \<bar>i\<bar>)) \<le> int_max_str_digits"
  shows "py_int_text (str_of_int i) = Inr i"
proof (cases "i < 0")
  case False
  with assms str_of_nonneg_decimals [of i] show ?thesis
    by (simp add: str_of_int_def py_int_text_decimals int_of_digits_str_of_nonneg)
next
  case True
  let ?ds = "str_of_nonneg (- i)"
  from True have ds: "?ds \<noteq> []" "list_all is_decimal ?ds" using str_of_nonneg_decimals [of "- i"] by auto
  then have "\<forall>c \<in> set (CHR ''-'' # ?ds). \<not> is_space c"
    by (auto simp: list_all_iff text_simps) (simp add: is_space_def in_range_def code_def)
  then have "strip (CHR ''-'' # ?ds) = CHR ''-'' # ?ds" by (rule strip_no_space)
  with True ds assms show ?thesis
    by (simp add: str_of_int_def py_int_text_def filter_decimals digits_ok_decimals
        int_of_digits_str_of_nonneg Let_def)
qed

subsection \<open>Facts about case, searching and splitting\<close>

lemma startswith_append [simp]: "startswith (p @ s) p"
  by (induction p) auto

lemma startswith_iff: "startswith s p \<longleftrightarrow> (\<exists>r. s = p @ r)"
  by (induction s p rule: startswith.induct) auto

lemma contains_iff: "contains s n \<longleftrightarrow> (\<exists>a b. s = a @ n @ b)"
proof (induction s n rule: contains.induct)
  case (2 c s n)
  show ?case
  proof
    assume "contains (c # s) n"
    then consider "startswith (c # s) n" | "contains s n" by auto
    then show "\<exists>a b. c # s = a @ n @ b"
    proof cases
      case 1 then show ?thesis by (metis append_Nil startswith_iff)
    next
      case 2 with "2.IH" show ?thesis by (metis append_Cons)
    qed
  next
    assume "\<exists>a b. c # s = a @ n @ b"
    then obtain a b where ab: "c # s = a @ n @ b" by blast
    show "contains (c # s) n"
    proof (cases a)
      case Nil
      with ab have "startswith (c # s) n" by (auto simp: startswith_iff)
      then show ?thesis by simp
    next
      case (Cons x xs) with ab "2.IH" show ?thesis by auto
    qed
  qed
qed auto

lemma split_once_join: "c \<in> set s \<Longrightarrow> split_once c s = (k, v) \<Longrightarrow> s = k @ c # v \<and> c \<notin> set k"
proof -
  assume c: "c \<in> set s" and s: "split_once c s = (k, v)"
  then have ne: "dropWhile (\<lambda>x. x \<noteq> c) s \<noteq> []" by (simp add: dropWhile_all)
  then have "hd (dropWhile (\<lambda>x. x \<noteq> c) s) = c" using hd_dropWhile [OF ne] by simp
  with ne have "dropWhile (\<lambda>x. x \<noteq> c) s = c # v" using s by (cases "dropWhile (\<lambda>x. x \<noteq> c) s") (auto simp: split_once_def)
  with s show ?thesis by (metis (mono_tags, lifting) fst_conv set_takeWhileD split_once_def takeWhile_dropWhile_id)
qed

lemma join_split_char: "join [c] (split_char c s) = s"
proof (induction c s rule: split_char.induct)
  case (2 c x s)
  have ne: "split_char c s \<noteq> []" by (induction s) (auto split: list.splits)
  with 2 show ?case
    by (cases "split_char c s"; cases "tl (split_char c s)") (auto split: list.splits)
qed simp

end
