(* ===== verification/Py_Regex.thy ===== *)
theory Py_Regex
  imports Py_Text
begin

section \<open>Backtracking regular expressions\<close>

text \<open>
  The part of Python's \<open>re\<close> that the addons' patterns use.  A pattern is a value of \<open>re\<close>; matching
  explores the alternatives in CPython's priority order (greedy or lazy repetition, left
  alternative first) and \<open>matches\<close> lists every way to match in that order, so the match that
  \<open>re\<close> reports is the head of the list.  A matcher state is the character before the current
  position (for \<open>^\<close> and \<open>\b\<close>), the remaining text and the captured groups.
  A repetition only goes on while its body consumes text, as in CPython.
\<close>

datatype re =
    Chr "char \<Rightarrow> bool"
  | Eps
  | Seq re re
  | Alt re re
  | Star bool re  \<comment> \<open>greedy or lazy\<close>
  | Grp string re
  | Bol
  | Eol
  | Wb

type_synonym caps = "(string \<times> string) list"
type_synonym mstate = "char option \<times> string \<times> caps"

abbreviation rest :: "mstate \<Rightarrow> string" where
  "rest st \<equiv> fst (snd st)"

definition capture :: "string \<Rightarrow> mstate \<Rightarrow> mstate \<Rightarrow> mstate" where
  "capture n st st' =
     (fst st', rest st', (n, take (length (rest st) - length (rest st')) (rest st)) # snd (snd st'))"

definition word_at :: "char option \<Rightarrow> bool" where
  "word_at c = (case c of None \<Rightarrow> False | Some x \<Rightarrow> is_word x)"

definition first_char :: "string \<Rightarrow> char option" where
  "first_char s = (case s of [] \<Rightarrow> None | c # _ \<Rightarrow> Some c)"

function matches :: "re \<Rightarrow> mstate \<Rightarrow> mstate list" where
  "matches (Chr p) st =
     (case rest st of [] \<Rightarrow> [] | c # t \<Rightarrow> if p c then [(Some c, t, snd (snd st))] else [])"
| "matches Eps st = [st]"
| "matches (Seq r q) st = concat (map (\<lambda>st'. matches q st') (matches r st))"
| "matches (Alt r q) st = matches r st @ matches q st"
| "matches (Star g r) st =
     (let more = concat (map (\<lambda>st'. matches (Star g r) st')
                   (filter (\<lambda>st'. length (rest st') < length (rest st)) (matches r st)))
      in if g then more @ [st] else st # more)"
| "matches (Grp n r) st = map (capture n st) (matches r st)"
| "matches Bol st = (if fst st = None then [st] else [])"
| "matches Eol st = (if rest st = [] \<or> rest st = [CHR 0x0A] then [st] else [])"
| "matches Wb st = (if word_at (fst st) \<noteq> word_at (first_char (rest st)) then [st] else [])"
  by pat_completeness auto
termination
  by (relation "measures [\<lambda>(r, st). size r, \<lambda>(r, st). length (rest st)]") auto

declare matches.simps(5) [simp del]

text \<open>\<open>pattern.match\<close>, \<open>pattern.search\<close> and \<open>match.group\<close>.\<close>

definition match_at :: "re \<Rightarrow> char option \<Rightarrow> string \<Rightarrow> mstate option" where
  "match_at r pv s = (case matches r (pv, s, []) of [] \<Rightarrow> None | m # _ \<Rightarrow> Some m)"

definition re_match :: "re \<Rightarrow> string \<Rightarrow> caps option" where
  "re_match r s = map_option (\<lambda>m. snd (snd m)) (match_at r None s)"

fun search_from :: "re \<Rightarrow> char option \<Rightarrow> string \<Rightarrow> caps option" where
  "search_from r pv s =
     (case match_at r pv s of Some m \<Rightarrow> Some (snd (snd m))
      | None \<Rightarrow> (case s of [] \<Rightarrow> None | c # t \<Rightarrow> search_from r (Some c) t))"

declare search_from.simps [simp del]

definition re_search :: "re \<Rightarrow> string \<Rightarrow> caps option" where
  "re_search r s = search_from r None s"

definition group :: "caps \<Rightarrow> string \<Rightarrow> string option" where
  "group cs n = map_of cs n"

text \<open>
  \<open>pattern.sub(new, text)\<close> for the patterns of the addons, none of which matches the empty text: a
  non-empty match is replaced and the scan goes on behind it.
\<close>

function sub_from :: "re \<Rightarrow> string \<Rightarrow> char option \<Rightarrow> string \<Rightarrow> string" where
  "sub_from r new pv s =
     (case s of [] \<Rightarrow> []
      | c # t \<Rightarrow>
         (case match_at r pv s of
            Some m \<Rightarrow> if length (rest m) < length s then new @ sub_from r new (fst m) (rest m)
                      else c # sub_from r new (Some c) t
          | None \<Rightarrow> c # sub_from r new (Some c) t))"
  by pat_completeness auto
termination
  by (relation "measure (\<lambda>(r, new, pv, s). length s)") auto

declare sub_from.simps [simp del]

definition re_sub :: "re \<Rightarrow> string \<Rightarrow> string \<Rightarrow> string" where
  "re_sub r new s = sub_from r new None s"

subsection \<open>Derived forms\<close>

definition lit :: "string \<Rightarrow> re" where
  "lit s = foldr (\<lambda>c r. Seq (Chr (\<lambda>x. x = c)) r) s Eps"

text \<open>A literal under \<open>re.IGNORECASE\<close>.\<close>

definition ilit :: "string \<Rightarrow> re" where
  "ilit s = foldr (\<lambda>c r. Seq (Chr (\<lambda>x. lower_char x = lower_char c)) r) s Eps"

definition seqs :: "re list \<Rightarrow> re" where
  "seqs rs = foldr Seq rs Eps"

fun alts :: "re list \<Rightarrow> re" where
  "alts [] = Chr (\<lambda>_. False)"
| "alts [r] = r"
| "alts (r # q # rs) = Alt r (alts (q # rs))"

definition star :: "re \<Rightarrow> re" where "star r = Star True r"
definition plus :: "re \<Rightarrow> re" where "plus r = Seq r (Star True r)"
definition lazy_plus :: "re \<Rightarrow> re" where "lazy_plus r = Seq r (Star False r)"
definition opt :: "re \<Rightarrow> re" where "opt r = Alt r Eps"

fun times :: "nat \<Rightarrow> re \<Rightarrow> re" where
  "times 0 r = Eps"
| "times (Suc n) r = Seq r (times n r)"

definition ws :: re where "ws = Chr is_space"
definition digit :: re where "digit = Chr is_decimal"
definition dot :: re where "dot = Chr (\<lambda>c. c \<noteq> CHR 0x0A)"

text \<open>\<open>\d{1,2}\<close> and \<open>\d{1,3}\<close>, greedy.\<close>

definition digits_1_2 :: re where "digits_1_2 = Seq digit (opt digit)"
definition digits_1_3 :: re where "digits_1_3 = Seq digit (opt (Seq digit (opt digit)))"

subsection \<open>What a match can look like\<close>

text \<open>
  The texts a pattern can consume, zero-width assertions aside: every match consumes such a text,
  and a captured group holds one of its own pattern.
\<close>

inductive accepts :: "re \<Rightarrow> string \<Rightarrow> bool" where
  acc_chr: "p c \<Longrightarrow> accepts (Chr p) [c]"
| acc_eps: "accepts Eps []"
| acc_bol: "accepts Bol []"
| acc_eol: "accepts Eol []"
| acc_wb: "accepts Wb []"
| acc_seq: "accepts r u \<Longrightarrow> accepts q v \<Longrightarrow> accepts (Seq r q) (u @ v)"
| acc_alt1: "accepts r u \<Longrightarrow> accepts (Alt r q) u"
| acc_alt2: "accepts q u \<Longrightarrow> accepts (Alt r q) u"
| acc_star0: "accepts (Star g r) []"
| acc_star: "accepts r u \<Longrightarrow> accepts (Star g r) v \<Longrightarrow> accepts (Star g r) (u @ v)"
| acc_grp: "accepts r u \<Longrightarrow> accepts (Grp n r) u"

inductive_cases accepts_chr [elim!]: "accepts (Chr p) u"
inductive_cases accepts_eps [elim!]: "accepts Eps u"
inductive_cases accepts_seq [elim!]: "accepts (Seq r q) u"
inductive_cases accepts_alt [elim!]: "accepts (Alt r q) u"
inductive_cases accepts_grp [elim!]: "accepts (Grp n r) u"

inductive_simps accepts_simps [regex_simps]:
  "accepts (Chr p) u" "accepts Eps u" "accepts Bol u" "accepts Eol u" "accepts Wb u"
  "accepts (Seq r q) u" "accepts (Alt r q) u" "accepts (Grp n r) u"

fun subgroups :: "re \<Rightarrow> (string \<times> re) set" where
  "subgroups (Seq r q) = subgroups r \<union> subgroups q"
| "subgroups (Alt r q) = subgroups r \<union> subgroups q"
| "subgroups (Star g r) = subgroups r"
| "subgroups (Grp n r) = insert (n, r) (subgroups r)"
| "subgroups _ = {}"

lemma capture_simps:
  "rest (capture n st st') = rest st'"
  "rest st = u @ rest st' \<Longrightarrow> snd (snd (capture n st st')) = (n, u) # snd (snd st')"
  by (simp_all add: capture_def)

definition consumes :: "re \<Rightarrow> mstate \<Rightarrow> mstate \<Rightarrow> bool" where
  "consumes r st st' \<longleftrightarrow>
     (\<exists>u cs. rest st = u @ rest st' \<and> accepts r u \<and> snd (snd st') = cs @ snd (snd st) \<and>
             (\<forall>p \<in> set cs. \<exists>q. (fst p, q) \<in> subgroups r \<and> accepts q (snd p)))"

lemma consumesI:
  "rest st = u @ rest st' \<Longrightarrow> accepts r u \<Longrightarrow> snd (snd st') = cs @ snd (snd st) \<Longrightarrow>
   (\<And>p. p \<in> set cs \<Longrightarrow> \<exists>q. (fst p, q) \<in> subgroups r \<and> accepts q (snd p)) \<Longrightarrow> consumes r st st'"
  unfolding consumes_def by blast

lemma consumes_empty: "accepts r [] \<Longrightarrow> consumes r st st"
  by (rule consumesI [where u = "[]" and cs = "[]"]) auto

lemma consumes_trans:
  assumes "consumes r st st1" "consumes q st1 st'"
    and "\<And>u v. accepts r u \<Longrightarrow> accepts q v \<Longrightarrow> accepts w (u @ v)"
    and "subgroups r \<subseteq> subgroups w" "subgroups q \<subseteq> subgroups w"
  shows "consumes w st st'"
proof -
  from assms(1) obtain u cs where 1: "rest st = u @ rest st1" "accepts r u"
    "snd (snd st1) = cs @ snd (snd st)" "\<forall>p \<in> set cs. \<exists>q. (fst p, q) \<in> subgroups r \<and> accepts q (snd p)"
    unfolding consumes_def by blast
  from assms(2) obtain v ds where 2: "rest st1 = v @ rest st'" "accepts q v"
    "snd (snd st') = ds @ snd (snd st1)" "\<forall>p \<in> set ds. \<exists>r. (fst p, r) \<in> subgroups q \<and> accepts r (snd p)"
    unfolding consumes_def by blast
  show ?thesis
  proof (rule consumesI [where u = "u @ v" and cs = "ds @ cs"])
    fix p assume "p \<in> set (ds @ cs)"
    then show "\<exists>q. (fst p, q) \<in> subgroups w \<and> accepts q (snd p)"
      using 1(4) 2(4) assms(4,5) by auto blast+
  qed (use 1 2 assms(3) in auto)
qed

lemma consumes_weaken:
  assumes "consumes r st st'" "\<And>u. accepts r u \<Longrightarrow> accepts w u" "subgroups r \<subseteq> subgroups w"
  shows "consumes w st st'"
  using assms unfolding consumes_def by blast

text \<open>A match consumes a text of its pattern and records captures of its groups only.\<close>

lemma matches_sound: "st' \<in> set (matches r st) \<Longrightarrow> consumes r st st'"
proof (induction r st arbitrary: st' rule: matches.induct)
  case (1 p st)
  then obtain c t where "rest st = c # t" "p c" "st' = (Some c, t, snd (snd st))"
    by (cases "rest st") (auto split: if_splits)
  then show ?case by (intro consumesI [where u = "[c]" and cs = "[]"]) (auto intro: accepts.intros)
next
  case (3 r q st)
  then obtain st1 where st1: "st1 \<in> set (matches r st)" "st' \<in> set (matches q st1)" by auto
  from "3.IH"(1) [OF st1(1)] "3.IH"(2) [OF st1] show ?case
    by (rule consumes_trans) (auto intro: accepts.intros)
next
  case (4 r q st)
  then have "consumes r st st' \<or> consumes q st st'" by (metis Un_iff matches.simps(4) set_append)
  then show ?case by (auto elim!: consumes_weaken intro: accepts.intros)
next
  case (5 g r st)
  show ?case
  proof (cases "st' = st")
    case True
    then show ?thesis by (simp add: consumes_empty accepts.intros)
  next
    case False
    with "5.prems" obtain st1 where st1: "st1 \<in> set (matches r st)"
      "length (rest st1) < length (rest st)" "st' \<in> set (matches (Star g r) st1)"
      by (auto simp: matches.simps(5) [of g r st] Let_def split: if_splits)
    then have "st1 \<in> set (filter (\<lambda>st'. length (rest st') < length (rest st)) (matches r st))"
      by simp
    from "5.IH"(1) [OF st1(1)] "5.IH"(2) [OF this st1(3)] show ?thesis
      by (rule consumes_trans) (auto intro: accepts.intros)
  qed
next
  case (6 n r st)
  then obtain st1 where st1: "st1 \<in> set (matches r st)" "st' = capture n st st1" by auto
  from "6.IH" [OF st1(1)] obtain u cs where u: "rest st = u @ rest st1" "accepts r u"
    "snd (snd st1) = cs @ snd (snd st)" "\<forall>p \<in> set cs. \<exists>q. (fst p, q) \<in> subgroups r \<and> accepts q (snd p)"
    unfolding consumes_def by blast
  show ?case
  proof (rule consumesI [where u = u and cs = "(n, u) # cs"])
    fix p assume "p \<in> set ((n, u) # cs)"
    then show "\<exists>q. (fst p, q) \<in> subgroups (Grp n r) \<and> accepts q (snd p)" using u(2,4) by auto
  qed (use u st1(2) in \<open>auto simp: capture_simps intro: accepts.intros\<close>)
qed (auto split: if_splits intro: consumes_empty accepts.intros)

lemma match_at_sound:
  assumes "match_at r pv s = Some m"
  shows "consumes r (pv, s, []) m"
  using assms by (auto simp: match_at_def split: list.splits intro!: matches_sound)

text \<open>The captures of a successful match, and the text it found inside the subject.\<close>

definition good_caps :: "re \<Rightarrow> string \<Rightarrow> caps \<Rightarrow> bool" where
  "good_caps r s cs \<longleftrightarrow> (\<exists>a u b. s = a @ u @ b \<and> accepts r u) \<and>
     (\<forall>p \<in> set cs. \<exists>q. (fst p, q) \<in> subgroups r \<and> accepts q (snd p))"

lemma match_at_good:
  assumes "match_at r pv s = Some m"
  shows "good_caps r s (snd (snd m))"
proof -
  from match_at_sound [OF assms] obtain u where "s = [] @ u @ rest m" "accepts r u"
    "\<forall>p \<in> set (snd (snd m)). \<exists>q. (fst p, q) \<in> subgroups r \<and> accepts q (snd p)"
    by (auto simp: consumes_def)
  then show ?thesis unfolding good_caps_def by blast
qed

lemma search_from_sound: "search_from r pv s = Some cs \<Longrightarrow> good_caps r s cs"
proof (induction r pv s rule: search_from.induct)
  case (1 r pv s)
  show ?case
  proof (cases "match_at r pv s")
    case (Some m)
    with "1.prems" match_at_good [OF Some] show ?thesis by (simp add: search_from.simps [of r pv s])
  next
    case None
    then obtain c t where s: "s = c # t" and t: "search_from r (Some c) t = Some cs"
      using "1.prems" by (auto simp: search_from.simps [of r pv s] split: list.splits)
    from "1.IH" [OF None s t] s show ?thesis unfolding good_caps_def by (metis append_Cons)
  qed
qed

lemma good_caps_group:
  "good_caps r s cs \<Longrightarrow> group cs n = Some t \<Longrightarrow> \<exists>q. (n, q) \<in> subgroups r \<and> accepts q t"
  unfolding good_caps_def group_def by (fastforce dest!: map_of_SomeD)

lemma good_caps_sub: "good_caps r s cs \<Longrightarrow> \<exists>a u b. s = a @ u @ b \<and> accepts r u"
  unfolding good_caps_def by blast

lemma search_sound: "re_search r s = Some cs \<Longrightarrow> good_caps r s cs"
  by (simp add: re_search_def search_from_sound)

lemma match_sound: "re_match r s = Some cs \<Longrightarrow> good_caps r s cs"
  by (auto simp: re_match_def dest: match_at_good)

subsection \<open>Deleting single characters\<close>

text \<open>For a one-character class the substitution is a plain filter.\<close>

lemma match_at_chr:
  "match_at (Chr p) pv s = (case s of [] \<Rightarrow> None | c # t \<Rightarrow> if p c then Some (Some c, t, []) else None)"
  by (simp add: match_at_def split: list.splits)

lemma sub_from_chr: "sub_from (Chr p) new pv s = concat (map (\<lambda>c. if p c then new else [c]) s)"
proof (induction s arbitrary: pv)
  case Nil
  show ?case by (simp add: sub_from.simps)
next
  case (Cons c s)
  then show ?case by (simp add: sub_from.simps [of _ _ _ "c # s"] match_at_chr)
qed

lemma concat_delete: "concat (map (\<lambda>c. if p c then [] else [c]) s) = filter (\<lambda>c. \<not> p c) s"
  by (induction s) auto

lemma re_sub_chr_delete: "re_sub (Chr p) [] s = filter (\<lambda>c. \<not> p c) s"
  by (simp only: re_sub_def sub_from_chr concat_delete)

text \<open>A substitution inserts nothing but its replacement.\<close>

lemma set_sub_from: "set (sub_from r new pv s) \<subseteq> set new \<union> set s"
proof (induction "length s" arbitrary: pv s rule: less_induct)
  case less
  show ?case
  proof (cases s)
    case Nil
    then show ?thesis by (simp add: sub_from.simps)
  next
    case (Cons c t)
    then have t: "set (sub_from r new (Some c) t) \<subseteq> set new \<union> set s" using less by fastforce
    have m: "set (sub_from r new (fst m) (rest m)) \<subseteq> set new \<union> set s"
      if "match_at r pv s = Some m" "length (rest m) < length s" for m
    proof -
      from match_at_sound [OF that(1)] have "set (rest m) \<subseteq> set s" by (auto simp: consumes_def)
      with less(1) [OF that(2)] show ?thesis by blast
    qed
    show ?thesis
    proof (cases "match_at r pv s")
      case None
      with t Cons show ?thesis by (auto simp: sub_from.simps [of _ _ _ "c # t"])
    next
      case (Some m)
      with t m [OF Some] Cons show ?thesis by (auto simp: sub_from.simps [of _ _ _ "c # t"])
    qed
  qed
qed

lemma set_re_sub: "set (re_sub r new s) \<subseteq> set new \<union> set s"
  unfolding re_sub_def by (rule set_sub_from)

subsection \<open>Evaluation\<close>

text \<open>
  \<open>matches\<close> lists every match in the order of Python's backtracking; only the first is wanted.
  \<open>first_match\<close> hands each candidate to the rest of the pattern and stops at the first success, which
  is what the evaluation of concrete inputs uses.
\<close>

function first_match :: "re \<Rightarrow> (mstate \<Rightarrow> 'a option) \<Rightarrow> mstate \<Rightarrow> 'a option" where
  "first_match (Chr p) k st = (case rest st of [] \<Rightarrow> None | c # t \<Rightarrow> if p c then k (Some c, t, snd (snd st)) else None)"
| "first_match Eps k st = k st"
| "first_match (Seq r q) k st = first_match r (\<lambda>st'. first_match q k st') st"
| "first_match (Alt r q) k st = (case first_match r k st of Some x \<Rightarrow> Some x | None \<Rightarrow> first_match q k st)"
| "first_match (Star g r) k st =
     (if g then (case first_match r (\<lambda>st'. if length (rest st') < length (rest st) then first_match (Star g r) k st' else None) st of
                   Some x \<Rightarrow> Some x | None \<Rightarrow> k st)
      else (case k st of Some x \<Rightarrow> Some x
            | None \<Rightarrow> first_match r (\<lambda>st'. if length (rest st') < length (rest st) then first_match (Star g r) k st' else None) st))"
| "first_match (Grp n r) k st = first_match r (\<lambda>st'. k (capture n st st')) st"
| "first_match Bol k st = (if fst st = None then k st else None)"
| "first_match Eol k st = (if rest st = [] \<or> rest st = [CHR 0x0A] then k st else None)"
| "first_match Wb k st = (if word_at (fst st) \<noteq> word_at (first_char (rest st)) then k st else None)"
  by pat_completeness auto
termination
  by (relation "measures [\<lambda>(r, k, st). size r, \<lambda>(r, k, st). length (rest st)]") auto

lemma first_match: "first_match r k st = first_some k (matches r st)"
proof (induction r k st rule: first_match.induct)
  case (3 r q k st)
  from 3(1) have q: "first_match q k = (\<lambda>st'. first_some k (matches q st'))" by (intro ext)
  from 3(2) show ?case by (simp only: first_match.simps matches.simps first_some_concat first_some_map q)
next
  case (5 g r k st)
  let ?P = "\<lambda>st'. length (rest st') < length (rest st)"
  show ?case
  proof (cases "g \<or> k st = None")
    case run: True
    have "first_match (Star g r) k st' = first_some k (matches (Star g r) st')" if "?P st'" for st'
      using run 5(1) 5(3) that by blast
    then have star: "(\<lambda>st'. if ?P st' then first_match (Star g r) k st' else None)
        = (\<lambda>st'. if ?P st' then first_some k (matches (Star g r) st') else None)"
      by (intro ext if_cong refl)
    have body: "first_match r (\<lambda>st'. if ?P st' then first_match (Star g r) k st' else None) st
        = first_some k (concat (map (matches (Star g r)) (filter ?P (matches r st))))"
      unfolding first_some_concat first_some_map first_some_filter star [symmetric]
      using run 5(2) 5(4) by blast
    show ?thesis
      unfolding first_match.simps(5) [of g r k st] matches.simps(5) [of g r st] body Let_def
      by (cases g) (simp_all add: first_some_append split: option.split)
  next
    case False
    then have "\<not> g" "k st \<noteq> None" by auto
    then show ?thesis
      unfolding first_match.simps(5) [of g r k st] matches.simps(5) [of g r st] Let_def
      by (auto split: option.split)
  qed
next
  case (6 n r k st)
  then show ?case by (simp add: first_some_map)
qed (auto simp: first_some_append split: list.splits option.splits)

lemma match_at_code [code]: "match_at r pv s = first_match r Some (pv, s, [])"
  by (simp add: match_at_def first_match split: list.splits)

end
