(* ===== verification/Py_Json.thy ===== *)
theory Py_Json
  imports Py_Text Complex_Main
begin

section \<open>Dynamically typed values\<close>

text \<open>
  The values \<open>json.loads\<close> produces, which is also what the addon configurations hold.  A finite
  float carries its exact value and the text Python prints for it (\<open>repr\<close> is read nowhere else);
  infinities and NaN are values of their own because \<open>json.loads\<close> accepts them (\<open>1e999\<close>,
  \<open>Infinity\<close>, \<open>NaN\<close>) and \<open>int\<close> treats them differently.
\<close>

datatype num_float = FNum rat string | FInf bool | FNaN

datatype json =
    JNull
  | JBool bool
  | JInt int
  | JFloat num_float
  | JStr string
  | JList "json list"
  | JObj "(string \<times> json) list"

type_synonym dict = "(string, json) pydict"

subsection \<open>Truth value, \<open>or\<close>, \<open>int\<close> and \<open>str\<close>\<close>

fun truthy :: "json \<Rightarrow> bool" where
  "truthy JNull = False"
| "truthy (JBool b) = b"
| "truthy (JInt i) = (i \<noteq> 0)"
| "truthy (JFloat f) = (case f of FNum q _ \<Rightarrow> q \<noteq> 0 | _ \<Rightarrow> True)"
| "truthy (JStr s) = (s \<noteq> [])"
| "truthy (JList xs) = (xs \<noteq> [])"
| "truthy (JObj d) = (d \<noteq> [])"

text \<open>\<open>a or b\<close>, and \<open>d.get(k, default)\<close>.\<close>

definition py_or :: "json \<Rightarrow> json \<Rightarrow> json" where
  "py_or a b = (if truthy a then a else b)"

definition get_default :: "dict \<Rightarrow> string \<Rightarrow> json \<Rightarrow> json" where
  "get_default d k v = (case dict_get d k of Some x \<Rightarrow> x | None \<Rightarrow> v)"

definition get_none :: "dict \<Rightarrow> string \<Rightarrow> json" where
  "get_none d k = get_default d k JNull"

text \<open>\<open>int(value)\<close>: truncation for floats; an infinity overflows, NaN is a \<open>ValueError\<close>.\<close>

definition trunc :: "rat \<Rightarrow> int" where
  "trunc q = (if q < 0 then - \<lfloor>- q\<rfloor> else \<lfloor>q\<rfloor>)"

fun py_int :: "json \<Rightarrow> int res" where
  "py_int (JBool b) = Inr (if b then 1 else 0)"
| "py_int (JInt i) = Inr i"
| "py_int (JFloat (FNum q _)) = Inr (trunc q)"
| "py_int (JFloat (FInf _)) = Inl OverflowError"
| "py_int (JFloat FNaN) = Inl ValueError"
| "py_int (JStr s) = py_int_text s"
| "py_int _ = Inl TypeError"

text \<open>\<open>repr\<close> of a text: the quote character and the escapes CPython chooses.\<close>

definition hex_digit :: "int \<Rightarrow> char" where
  "hex_digit n = (if n < 10 then char_of (48 + n) else char_of (87 + n))"

definition repr_char :: "char \<Rightarrow> char \<Rightarrow> string" where
  "repr_char q c =
     (if c = q \<or> c = CHR 0x5C then [CHR 0x5C, c]
      else if c = CHR 0x09 then [CHR 0x5C, CHR ''t'']
      else if c = CHR 0x0A then [CHR 0x5C, CHR ''n'']
      else if c = CHR 0x0D then [CHR 0x5C, CHR ''r'']
      else if code c < 32 \<or> in_range 127 160 c \<or> code c = 173
      then [CHR 0x5C, CHR ''x'', hex_digit (code c div 16), hex_digit (code c mod 16)]
      else [c])"

definition repr_str :: "string \<Rightarrow> string" where
  "repr_str s =
     (let q = (if CHR 0x27 \<in> set s \<and> CHR 0x22 \<notin> set s then CHR 0x22 else CHR 0x27)
      in q # concat (map (repr_char q) s) @ [q])"

fun repr_float :: "num_float \<Rightarrow> string" where
  "repr_float (FNum _ r) = r"
| "repr_float (FInf neg) = (if neg then ''-inf'' else ''inf'')"
| "repr_float FNaN = ''nan''"

fun py_repr :: "json \<Rightarrow> string" where
  "py_repr JNull = ''None''"
| "py_repr (JBool b) = (if b then ''True'' else ''False'')"
| "py_repr (JInt i) = str_of_int i"
| "py_repr (JFloat f) = repr_float f"
| "py_repr (JStr s) = repr_str s"
| "py_repr (JList xs) = ''['' @ join '', '' (map py_repr xs) @ '']''"
| "py_repr (JObj d) =
     CHR 0x7B # join '', '' (map (\<lambda>kv. repr_str (fst kv) @ '': '' @ py_repr (snd kv)) d) @ [CHR 0x7D]"

definition py_str :: "json \<Rightarrow> string" where
  "py_str v = (case v of JStr s \<Rightarrow> s | _ \<Rightarrow> py_repr v)"

fun is_list :: "json \<Rightarrow> bool" where
  "is_list (JList _) = True" | "is_list _ = False"

fun is_dict :: "json \<Rightarrow> bool" where
  "is_dict (JObj _) = True" | "is_dict _ = False"

subsection \<open>Facts\<close>

lemma truthy_py_or: "truthy (py_or a b) \<longleftrightarrow> truthy a \<or> truthy b"
  by (simp add: py_or_def)

lemma py_str_JStr [simp]: "py_str (JStr s) = s"
  by (simp add: py_str_def)

lemma get_default_set [simp]:
  "get_default (dict_set k v d) k' w = (if k' = k then v else get_default d k' w)"
  "get_none (dict_set k v d) k' = (if k' = k then v else get_none d k')"
  by (simp_all add: get_default_def get_none_def)

text \<open>\<open>int\<close> raises only these classes, and only an infinity escapes \<open>(TypeError, ValueError)\<close>.\<close>

lemma py_int_errors: "py_int v = Inl e \<Longrightarrow> e \<in> {TypeError, ValueError, OverflowError}"
  by (induction v rule: py_int.induct) (auto simp: py_int_text_def Let_def split: if_splits)

lemma py_int_overflow: "py_int v = Inl OverflowError \<longleftrightarrow> (\<exists>neg. v = JFloat (FInf neg))"
  by (induction v rule: py_int.induct) (auto simp: py_int_text_def Let_def split: if_splits)

end
