(* ===== verification/Py_Shlex.thy ===== *)
theory Py_Shlex
  imports Py_Text
begin

section \<open>\<open>shlex.split(text, posix=True)\<close>\<close>

text \<open>
  The reader of the runtime environment file.  \<open>shlex_go\<close> is the state machine of
  \<open>shlex.shlex.read_token\<close> in POSIX mode with \<open>whitespace_split\<close> and without comments: the token under
  construction, whether a quote was seen in it, and the reader's state.  Unbalanced quotes and a
  trailing backslash raise \<open>ValueError\<close>.
\<close>

datatype shlex_state =
    Space                    \<comment> \<open>between tokens\<close>
  | InWord
  | InQuote char
  | Escape "char option"     \<comment> \<open>behind a backslash; inside this quote, if any\<close>

definition shlex_white :: "char \<Rightarrow> bool" where
  "shlex_white c \<longleftrightarrow> c \<in> {CHR '' '', CHR 0x09, CHR 0x0D, CHR 0x0A}"

definition is_quote :: "char \<Rightarrow> bool" where
  "is_quote c \<longleftrightarrow> c = CHR 0x27 \<or> c = CHR 0x22"

fun shlex_go :: "shlex_state \<Rightarrow> string \<Rightarrow> bool \<Rightarrow> string \<Rightarrow> string list res" where
  "shlex_go st tok quoted [] =
     (case st of
        InQuote q \<Rightarrow> Inl ValueError
      | Escape q \<Rightarrow> Inl ValueError
      | _ \<Rightarrow> Inr (if tok \<noteq> [] \<or> quoted then [tok] else []))"
| "shlex_go Space tok quoted (c # s) =
     (if shlex_white c
      then if tok \<noteq> [] \<or> quoted
           then bindR (shlex_go Space [] False s) (\<lambda>ts. Inr (tok # ts))
           else shlex_go Space tok quoted s
      else if c = CHR 0x5C then shlex_go (Escape None) tok quoted s
      else if is_quote c then shlex_go (InQuote c) tok quoted s
      else shlex_go InWord [c] quoted s)"
| "shlex_go InWord tok quoted (c # s) =
     (if shlex_white c
      then if tok \<noteq> [] \<or> quoted
           then bindR (shlex_go Space [] False s) (\<lambda>ts. Inr (tok # ts))
           else shlex_go Space tok quoted s
      else if is_quote c then shlex_go (InQuote c) tok quoted s
      else if c = CHR 0x5C then shlex_go (Escape None) tok quoted s
      else shlex_go InWord (tok @ [c]) quoted s)"
| "shlex_go (InQuote q) tok quoted (c # s) =
     (if c = q then shlex_go InWord tok True s
      else if c = CHR 0x5C \<and> q = CHR 0x22 then shlex_go (Escape (Some q)) tok True s
      else shlex_go (InQuote q) (tok @ [c]) True s)"
| "shlex_go (Escape None) tok quoted (c # s) = shlex_go InWord (tok @ [c]) quoted s"
| "shlex_go (Escape (Some q)) tok quoted (c # s) =
     shlex_go (InQuote q) (tok @ (if c \<noteq> CHR 0x5C \<and> c \<noteq> q then [CHR 0x5C, c] else [c])) quoted s"

definition shlex_split :: "string \<Rightarrow> string list res" where
  "shlex_split s = shlex_go Space [] False s"

subsection \<open>Facts\<close>

lemma shlex_go_errors: "shlex_go st tok quoted s = Inl e \<Longrightarrow> e = ValueError"
  by (induction st tok quoted s rule: shlex_go.induct)
     (auto simp: bindR_eq_Inl split: if_splits shlex_state.splits)

text \<open>A word without white space, quotes and backslashes is one token.\<close>

definition plain_char :: "char \<Rightarrow> bool" where
  "plain_char c \<longleftrightarrow> \<not> shlex_white c \<and> \<not> is_quote c \<and> c \<noteq> CHR 0x5C"

lemma shlex_go_plain:
  "list_all plain_char w \<Longrightarrow>
   shlex_go InWord tok quoted w = Inr (if tok @ w \<noteq> [] \<or> quoted then [tok @ w] else [])"
  by (induction w arbitrary: tok) (auto simp: plain_char_def)

lemma shlex_split_plain: "w \<noteq> [] \<Longrightarrow> list_all plain_char w \<Longrightarrow> shlex_split w = Inr [w]"
  by (cases w) (auto simp: shlex_split_def shlex_go_plain plain_char_def)

text \<open>A text in single quotes is one token, the text itself.\<close>

lemma shlex_go_single:
  "CHR 0x27 \<notin> set w \<Longrightarrow>
   shlex_go (InQuote CHR 0x27) tok quoted (w @ [CHR 0x27]) = Inr [tok @ w]"
  by (induction w arbitrary: tok quoted) auto

lemma shlex_split_single:
  "CHR 0x27 \<notin> set w \<Longrightarrow> shlex_split (CHR 0x27 # w @ [CHR 0x27]) = Inr [w]"
  by (simp add: shlex_split_def shlex_go_single shlex_white_def is_quote_def)

end
