(* ===== verification/Rcon_Wire.thy ===== *)
theory Rcon_Wire
  imports Py_Json "HOL-Library.Word"
begin

section \<open>The RCON datagram: bytes on the wire\<close>

text \<open>
  Every addon sends its commands as one UDP datagram \<open>FF FF FF FF rcon <password> <command>\<close>.
  This theory models \<open>str.encode("utf-8")\<close>, the lenient \<open>bytes.decode("utf-8", errors="replace")\<close> of
  replies, and the network as the argument \<open>net\<close>: what the socket calls of one exchange give.
  The theories of the addons define the \<open>send_rcon_command\<close> of each script on top of it.
\<close>

type_synonym byte = "8 word"

definition utf8_char :: "char \<Rightarrow> byte list" where
  "utf8_char c =
     (if code c < 128 then [word_of_int (code c)]
      else [word_of_int (192 + code c div 64), word_of_int (128 + code c mod 64)])"

definition utf8_encode :: "string \<Rightarrow> byte list" where
  "utf8_encode s = concat (map utf8_char s)"

definition rcon_payload :: "string \<Rightarrow> string \<Rightarrow> byte list" where
  "rcon_payload password command =
     [255, 255, 255, 255] @ utf8_encode ''rcon '' @ utf8_encode password @ utf8_encode '' ''
       @ utf8_encode command"

text \<open>
  A sent datagram, and what the network does with an exchange: \<open>sendto\<close> may raise (an unreachable or
  unresolvable host), \<open>recvfrom\<close> may time out, raise, or give a reply.
\<close>

record datagram =
  d_host :: string
  d_port :: int
  d_payload :: "byte list"

datatype net = SendFails exn | TimesOut | RecvFails exn | Replies "byte list"

text \<open>
  The socket layer refuses a port outside 0 to 65535 and a timeout that does not fit CPython's
  nanosecond clock, both with \<open>OverflowError\<close>.
\<close>

definition max_timeout_seconds :: int where
  "max_timeout_seconds = 9223372036"

definition socket_check :: "int \<Rightarrow> int \<Rightarrow> exn option" where
  "socket_check port timeout =
     (if timeout > max_timeout_seconds \<or> port < 0 \<or> 65535 < port then Some OverflowError else None)"

subsection \<open>The datagram determines the command\<close>

lemma code_bounds: "0 \<le> code c" "code c < 256"
  using of_char_mod_256 [of c, where ?'a = int] pos_mod_bound [of 256 "of_char c :: int"]
    pos_mod_sign [of 256 "of_char c :: int"]
  by (simp_all add: code_def)

lemma code_inject [simp]: "code c = code d \<longleftrightarrow> c = d"
  by (simp add: code_def)

lemma uint_of_byte: "0 \<le> n \<Longrightarrow> n < 256 \<Longrightarrow> uint (word_of_int n :: byte) = n"
  by (simp add: unsigned_of_int take_bit_eq_mod)

text \<open>Decoding of well-formed one- and two-byte sequences, the inverse of \<open>utf8_encode\<close>.\<close>

fun utf8_latin :: "byte list \<Rightarrow> string option" where
  "utf8_latin [] = Some []"
| "utf8_latin (b # bs) =
     (if uint b < 128 then map_option ((#) (char_of (uint b))) (utf8_latin bs)
      else case bs of
             [] \<Rightarrow> None
           | c # cs \<Rightarrow> map_option ((#) (char_of ((uint b - 192) * 64 + (uint c - 128)))) (utf8_latin cs))"

lemma char_of_code [simp]: "char_of (code c) = c"
  by (simp add: code_def)

lemma utf8_latin_encode: "utf8_latin (utf8_encode s) = Some s"
proof (induction s)
  case Nil
  show ?case by (simp add: utf8_encode_def)
next
  case (Cons c s)
  have enc: "utf8_encode (c # s) = utf8_char c @ utf8_encode s" by (simp add: utf8_encode_def)
  show ?case
  proof (cases "code c < 128")
    case True
    with enc Cons code_bounds [of c] show ?thesis by (simp add: utf8_char_def uint_of_byte)
  next
    case False
    define n where "n = code c"
    from False code_bounds [of c] have n: "128 \<le> n" "n < 256" by (auto simp: n_def)
    then have u: "uint (word_of_int (192 + n div 64) :: byte) = 192 + n div 64"
      "uint (word_of_int (128 + n mod 64) :: byte) = 128 + n mod 64"
      by (intro uint_of_byte; simp; presburger)+
    have "char_of (n div 64 * 64 + n mod 64) = c" by (simp add: n_def)
    moreover have "\<not> 192 + n div 64 < 128" using n by presburger
    ultimately show ?thesis using False enc Cons u by (simp add: utf8_char_def n_def)
  qed
qed

lemma utf8_encode_inject: "utf8_encode s = utf8_encode t \<longleftrightarrow> s = t"
  by (metis option.inject utf8_latin_encode)

lemma utf8_encode_append: "utf8_encode (s @ t) = utf8_encode s @ utf8_encode t"
  by (simp add: utf8_encode_def)

lemma rcon_payload_eq:
  "rcon_payload password command =
     [255, 255, 255, 255] @ utf8_encode (''rcon '' @ password @ '' '' @ command)"
  by (simp add: rcon_payload_def utf8_encode_def)

text \<open>With one password, different commands are different datagrams.\<close>

lemma rcon_payload_inject: "rcon_payload p c = rcon_payload p d \<longleftrightarrow> c = d"
  by (simp add: rcon_payload_eq utf8_encode_inject)

end
