(* ===== verification/Addon_Runtime.thy ===== *)
theory Addon_Runtime
  imports Py_Regex Py_Json Py_Shlex Rcon_Wire
begin

section \<open>The runtime helpers of the event addons\<close>

text \<open>
  The configuration, RCON discovery and quoting helpers, as \<open>live-team-announcer.py\<close> has them
  (\<open>match-announcer.py\<close> carries the same text).  The operating system is a value of \<open>os_env\<close>: the
  environment variables, the files, and \<open>json.loads\<close>, whose grammar is not modelled.  Module
  constants that the scripts compute from the environment (the paths) are arguments.
  Diagnostics written by \<open>log\<close> are not part of the model.
\<close>

text \<open>
  A file is missing, exists but cannot be read, is UTF-8 text, or is not: \<open>Undecodable t\<close> is a file
  that is not valid UTF-8, with the text \<open>t\<close> that \<open>errors="replace"\<close> gives for it.
\<close>

datatype file_read = Missing | Unreadable | Text string | Undecodable string

record os_env =
  environ :: "string \<Rightarrow> string option"
  file_at :: "string \<Rightarrow> file_read"
  json_loads :: "string \<Rightarrow> json res"

definition getenv :: "os_env \<Rightarrow> string \<Rightarrow> string \<Rightarrow> string" where
  "getenv os k v = (case environ os k of Some x \<Rightarrow> x | None \<Rightarrow> v)"

definition is_file :: "os_env \<Rightarrow> string \<Rightarrow> bool" where
  "is_file os p \<longleftrightarrow> file_at os p \<noteq> Missing"

definition read_text :: "os_env \<Rightarrow> string \<Rightarrow> string res" where
  "read_text os p = (case file_at os p of
     Text t \<Rightarrow> Inr t | Undecodable _ \<Rightarrow> Inl UnicodeDecodeError | _ \<Rightarrow> Inl OSError)"

definition read_text_replace :: "os_env \<Rightarrow> string \<Rightarrow> string res" where
  "read_text_replace os p = (case file_at os p of
     Text t \<Rightarrow> Inr t | Undecodable t \<Rightarrow> Inr t | _ \<Rightarrow> Inl OSError)"

definition home_container :: string where
  "home_container = ''/home/container''"

subsection \<open>The log file of an addon\<close>

text \<open>
  How \<open>main\<close> opens its log: \<open>mkdir_answer\<close> is what \<open>LOGS_DIR.mkdir\<close> gives and \<open>open_answer\<close> what the system answers
  when the value of \<open>log_file\<close> names something to open.  A text with a NUL character and a negative
  descriptor are refused with \<open>ValueError\<close>, other values with \<open>TypeError\<close>; only \<open>OSError\<close> is caught.
\<close>

record log_io =
  mkdir_answer :: "unit res"
  open_answer :: "unit res"

definition open_append :: "unit res \<Rightarrow> json \<Rightarrow> unit res" where
  "open_append answer v =
     (case v of
        JStr p \<Rightarrow> if CHR 0x00 \<in> set p then Inl ValueError else answer
      | JBool _ \<Rightarrow> answer
      | JInt n \<Rightarrow> if n < - (2 ^ 31) \<or> 2 ^ 31 \<le> n then Inl TypeError
                  else if n < 0 then Inl ValueError else answer
      | _ \<Rightarrow> Inl TypeError)"

definition open_log :: "log_io \<Rightarrow> json \<Rightarrow> unit res" where
  "open_log io v =
     bindR (mkdir_answer io) (\<lambda>_. catchR (open_append (open_answer io) v) (\<lambda>e. e = OSError) (\<lambda>_. Inr ()))"

definition log_benign :: "log_io \<Rightarrow> json \<Rightarrow> bool" where
  "log_benign io v \<longleftrightarrow> mkdir_answer io = Inr () \<and> open_answer io \<in> {Inr (), Inl OSError} \<and>
     (\<exists>p. v = JStr p \<and> CHR 0x00 \<notin> set p)"

lemma open_log_benign: "log_benign io v \<Longrightarrow> open_log io v = Inr ()"
  by (auto simp: log_benign_def open_log_def open_append_def)

lemma open_log_raises:
  "mkdir_answer io = Inr () \<Longrightarrow> v \<in> {JNull} \<union> range JFloat \<union> range JList \<union> range JObj \<Longrightarrow>
   open_log io v = Inl TypeError"
  by (auto simp: open_log_def open_append_def)

subsection \<open>Coercions\<close>

text \<open>\<open>except (TypeError, ValueError)\<close>.\<close>

definition type_or_value_error :: "exn \<Rightarrow> bool" where
  "type_or_value_error e \<longleftrightarrow> e = TypeError \<or> is_value_error e"

definition safe_int :: "json \<Rightarrow> int \<Rightarrow> int \<Rightarrow> int res" where
  "safe_int value dflt minimum =
     catchR (bindR (py_int value) (\<lambda>parsed. Inr (max minimum parsed)))
       type_or_value_error (\<lambda>_. Inr dflt)"

definition safe_bool :: "json \<Rightarrow> bool \<Rightarrow> bool" where
  "safe_bool value dflt =
     (case value of
        JBool b \<Rightarrow> b
      | JStr s \<Rightarrow>
          (let v = lower (strip s)
           in if v \<in> {''true'', ''1'', ''yes'', ''on''} then True
              else if v \<in> {''false'', ''0'', ''no'', ''off''} then False
              else dflt)
      | _ \<Rightarrow> dflt)"

subsection \<open>The configuration section of the central file\<close>

definition load_section_from_addons_file :: "os_env \<Rightarrow> string \<Rightarrow> string \<Rightarrow> dict option res" where
  "load_section_from_addons_file os addons_config_path name =
     (case read_text os addons_config_path of
        Inl e \<Rightarrow> if e = OSError then Inr None else Inl e
      | Inr raw \<Rightarrow>
          (case json_loads os raw of
             Inl e \<Rightarrow> if e = JSONDecodeError then Inr None else Inl e
           | Inr (JObj parsed) \<Rightarrow>
               (case get_none parsed ''addons'' of
                  JObj addons \<Rightarrow>
                    (case get_none addons name of JObj section \<Rightarrow> Inr (Some section) | _ \<Rightarrow> Inr None)
                | _ \<Rightarrow> Inr None)
           | Inr _ \<Rightarrow> Inr None))"

subsection \<open>Runtime environment, password and port\<close>

definition tracked_keys :: "string list" where
  "tracked_keys =
     [''TAYSTJK_ACTIVE_SERVER_CONFIG_PATH'', ''TAYSTJK_EFFECTIVE_SERVER_PORT'',
      ''TAYSTJK_EFFECTIVE_SERVER_RCON_PASSWORD'']"

definition runtime_from_environ :: "os_env \<Rightarrow> string list \<Rightarrow> (string, string) pydict" where
  "runtime_from_environ os tracked =
     foldl (\<lambda>state key. case environ os key of
              Some value \<Rightarrow> if value \<noteq> [] then dict_set key (strip value) state else state
            | None \<Rightarrow> state) [] tracked"

definition runtime_env_line ::
  "string list \<Rightarrow> string \<Rightarrow> (string, string) pydict \<Rightarrow> (string, string) pydict res" where
  "runtime_env_line tracked raw_line state =
     (let line = strip raw_line
      in if line = [] \<or> CHR ''='' \<notin> set line then Inr state
         else let (k, raw_value) = split_once (CHR ''='') line;
                  key = strip k
              in if key \<notin> set tracked then Inr state
                 else bindR (shlex_split raw_value) (\<lambda>tokens.
                        case tokens of
                          [] \<Rightarrow> Inr state
                        | t # _ \<Rightarrow> Inr (dict_setdefault key t state)))"

definition load_runtime_env :: "os_env \<Rightarrow> string \<Rightarrow> (string, string) pydict res" where
  "load_runtime_env os runtime_env_path =
     (let state = runtime_from_environ os tracked_keys
      in if is_file os runtime_env_path
         then catchR (bindR (read_text os runtime_env_path) (\<lambda>text.
                 foldR (runtime_env_line tracked_keys) (splitlines text) state))
               (\<lambda>e. e = OSError) (\<lambda>_. Inr state)
         else Inr state)"

text \<open>The pattern \<open>^\s*set[a-z]*\s+rconpassword\s+(?:"([^"]+)"|(\S+))\<close>, ignoring case.\<close>

definition rconpassword_re :: re where
  "rconpassword_re = seqs
     [Bol, star ws, ilit ''set'', star (Chr (\<lambda>c. in_range 97 122 (lower_char c))), plus ws,
      ilit ''rconpassword'', plus ws,
      Alt (seqs [lit [CHR 0x22], Grp ''1'' (plus (Chr (\<lambda>c. c \<noteq> CHR 0x22))), lit [CHR 0x22]])
          (Grp ''2'' (plus (Chr (\<lambda>c. \<not> is_space c))))]"

definition or_group :: "caps \<Rightarrow> string" where
  "or_group cs =
     (case group cs ''1'' of
        Some t \<Rightarrow> if t \<noteq> [] then t else (case group cs ''2'' of Some u \<Rightarrow> u | None \<Rightarrow> [])
      | None \<Rightarrow> (case group cs ''2'' of Some u \<Rightarrow> u | None \<Rightarrow> []))"

fun password_of_lines :: "string list \<Rightarrow> string option" where
  "password_of_lines [] = None"
| "password_of_lines (line # lines) =
     (case re_search rconpassword_re line of
        Some cs \<Rightarrow> (let v = strip (or_group cs) in if v \<noteq> [] then Some v else None)
      | None \<Rightarrow> password_of_lines lines)"

definition extract_rcon_password_from_config :: "os_env \<Rightarrow> string \<Rightarrow> string option" where
  "extract_rcon_password_from_config os config_path =
     (if is_file os config_path
      then case read_text_replace os config_path of
             Inr text \<Rightarrow> password_of_lines (splitlines text)
           | Inl _ \<Rightarrow> None
      else None)"

definition dict_get_str :: "(string, string) pydict \<Rightarrow> string \<Rightarrow> string" where
  "dict_get_str d k = (case dict_get d k of Some v \<Rightarrow> v | None \<Rightarrow> [])"

definition effective_rcon_password :: "os_env \<Rightarrow> string \<Rightarrow> string option res" where
  "effective_rcon_password os runtime_env_path =
     bindR (load_runtime_env os runtime_env_path) (\<lambda>runtime.
       let direct = strip (dict_get_str runtime ''TAYSTJK_EFFECTIVE_SERVER_RCON_PASSWORD'')
       in if direct \<noteq> [] then Inr (Some direct)
          else let config_path = strip (dict_get_str runtime ''TAYSTJK_ACTIVE_SERVER_CONFIG_PATH'')
               in if config_path \<noteq> [] then Inr (extract_rcon_password_from_config os config_path)
                  else Inr None)"

definition current_server_port :: "os_env \<Rightarrow> string \<Rightarrow> int res" where
  "current_server_port os runtime_env_path =
     bindR (load_runtime_env os runtime_env_path) (\<lambda>runtime.
       let port = dict_get_str runtime ''TAYSTJK_EFFECTIVE_SERVER_PORT''
       in if port \<noteq> [] then safe_int (JStr port) 29070 1
          else safe_int (JStr (getenv os ''SERVER_PORT'' ''29070'')) 29070 1)"

subsection \<open>RCON\<close>

text \<open>
  \<open>send_rcon_command\<close> of the event addons: the datagrams that left, and the outcome.  A reply or a
  timeout is ignored; any other failure of the socket is raised.
\<close>

definition send_rcon_command ::
  "net \<Rightarrow> string \<Rightarrow> int \<Rightarrow> string \<Rightarrow> int \<Rightarrow> string \<Rightarrow> datagram list \<times> unit res" where
  "send_rcon_command net host port password timeout_seconds command =
     (let payload = rcon_payload password command;
          d = \<lparr>d_host = host, d_port = port, d_payload = payload\<rparr>
      in case socket_check port timeout_seconds of
           Some e \<Rightarrow> ([], Inl e)
         | None \<Rightarrow>
             (case net of
                SendFails e \<Rightarrow> ([], Inl e)
              | TimesOut \<Rightarrow> ([d], Inr ())
              | RecvFails e \<Rightarrow> ([d], Inl e)
              | Replies _ \<Rightarrow> ([d], Inr ())))"

definition quote_rcon_arg :: "string \<Rightarrow> string" where
  "quote_rcon_arg value =
     (let escaped = replace_char (CHR 0x22) [CHR 0x5C, CHR 0x22]
                      (replace_char (CHR 0x5C) [CHR 0x5C, CHR 0x5C] value)
      in CHR 0x22 # escaped @ [CHR 0x22])"

definition allowed_announce_commands :: "string list" where
  "allowed_announce_commands = [''svsay'', ''say'']"

definition control_char_re :: re where
  "control_char_re = Chr is_control"

subsection \<open>Facts: coercions\<close>

lemma safe_int_cases:
  "safe_int v d m = (case py_int v of Inr i \<Rightarrow> Inr (max m i)
     | Inl e \<Rightarrow> if e = OverflowError then Inl OverflowError else Inr d)"
  using py_int_errors [of v]
  by (auto simp: safe_int_def type_or_value_error_def is_value_error_def split: sum.splits)

lemma safe_int_raises: "safe_int v d m = Inl e \<longleftrightarrow> e = OverflowError \<and> (\<exists>neg. v = JFloat (FInf neg))"
  by (auto simp: safe_int_cases py_int_overflow [symmetric] split: sum.splits if_splits)

lemma safe_int_min: "m \<le> d \<Longrightarrow> safe_int v d m = Inr i \<Longrightarrow> m \<le> i"
  by (auto simp: safe_int_cases split: sum.splits if_splits)

lemma safe_int_text: "\<exists>i. safe_int (JStr s) d m = Inr i"
  using safe_int_raises [of "JStr s" d m] by (cases "safe_int (JStr s) d m") auto

subsection \<open>Facts: the runtime environment\<close>

text \<open>The three outcomes of a line: nothing, a \<open>ValueError\<close> of \<open>shlex\<close>, or a default for a tracked key.\<close>

lemma runtime_env_line_cases:
  obtains "runtime_env_line tracked l st = Inr st"
  | "runtime_env_line tracked l st = Inl ValueError"
  | k v where "k \<in> set tracked" "runtime_env_line tracked l st = Inr (dict_setdefault k v st)"
proof -
  obtain k v where kv: "split_once (CHR ''='') (strip l) = (k, v)" by (metis surj_pair)
  consider "strip l = [] \<or> CHR ''='' \<notin> set (strip l) \<or> strip k \<notin> set tracked"
    | "strip l \<noteq> []" "CHR ''='' \<in> set (strip l)" "strip k \<in> set tracked" by blast
  then show thesis
  proof cases
    case 1
    then have "runtime_env_line tracked l st = Inr st" by (auto simp: runtime_env_line_def kv Let_def)
    then show thesis by (rule that(1))
  next
    case 2
    then have eq: "runtime_env_line tracked l st = bindR (shlex_split v) (\<lambda>ts. case ts of [] \<Rightarrow> Inr st
      | t # _ \<Rightarrow> Inr (dict_setdefault (strip k) t st))" by (simp add: runtime_env_line_def kv)
    show thesis
    proof (cases "shlex_split v")
      case (Inl e)
      then have "e = ValueError" by (auto simp: shlex_split_def dest: shlex_go_errors)
      with eq Inl show thesis by (intro that(2)) simp
    next
      case (Inr ts)
      show thesis
      proof (cases ts)
        case Nil with eq Inr show thesis by (intro that(1)) simp
      next
        case (Cons t us) with eq Inr 2(3) show thesis by (intro that(3) [of "strip k" t]) simp_all
      qed
    qed
  qed
qed

lemma runtime_env_line_errors: "runtime_env_line tracked l st = Inl e \<Longrightarrow> e = ValueError"
  by (rule runtime_env_line_cases [of tracked l st]) auto

lemma foldR_errors:
  assumes "\<And>x s e. f x s = Inl e \<Longrightarrow> e = err" and "foldR f xs s = Inl e"
  shows "e = err"
  using assms by (induction xs arbitrary: s) (auto simp: bindR_eq_Inl)

text \<open>Reading the runtime environment raises only for a badly quoted or undecodable file.\<close>

lemma load_runtime_env_errors:
  "load_runtime_env os p = Inl e \<Longrightarrow> e = ValueError \<or> e = UnicodeDecodeError"
proof -
  have lines: "e = ValueError" if "foldR (runtime_env_line tracked_keys) ls st = Inl e" for ls st e
    using that by (rule foldR_errors [rotated]) (rule runtime_env_line_errors)
  show "load_runtime_env os p = Inl e \<Longrightarrow> ?thesis"
    unfolding load_runtime_env_def Let_def
    by (auto simp: catchR_def bindR_eq_Inl read_text_def
        split: if_splits sum.splits file_read.splits dest: lines)
qed

text \<open>A key already set keeps its value while the file is read.\<close>

lemma runtime_env_line_keeps:
  "dict_get st k = Some v \<Longrightarrow> runtime_env_line tracked l st = Inr st' \<Longrightarrow> dict_get st' k = Some v"
  by (rule runtime_env_line_cases [of tracked l st]) auto

lemma runtime_env_lines_keep:
  "dict_get st k = Some v \<Longrightarrow> foldR (runtime_env_line tracked) ls st = Inr st' \<Longrightarrow> dict_get st' k = Some v"
  by (rule foldR_invariant [where P = "\<lambda>s. dict_get s k = Some v"]) (auto dest: runtime_env_line_keeps)

lemma load_runtime_env_keeps:
  "dict_get (runtime_from_environ os tracked_keys) k = Some v \<Longrightarrow>
   load_runtime_env os p = Inr st \<Longrightarrow> dict_get st k = Some v"
  unfolding load_runtime_env_def Let_def
  by (auto simp: catchR_def bindR_def split: if_splits sum.splits dest: runtime_env_lines_keep)

lemma runtime_from_environ_get:
  "distinct tracked \<Longrightarrow> dict_get (runtime_from_environ os tracked) k =
     (if k \<in> set tracked then (case environ os k of
        Some v \<Rightarrow> if v \<noteq> [] then Some (strip v) else None | None \<Rightarrow> None) else None)"
  by (induction tracked rule: rev_induct) (auto simp: runtime_from_environ_def split: option.splits)

subsection \<open>Facts: quoting\<close>

text \<open>
  The reading of a quoted argument that the escaping is made for: a backslash takes the next
  character literally, an unescaped quote ends the argument.
\<close>

fun unquote_go :: "string \<Rightarrow> (string \<times> string) option" where
  "unquote_go [] = None"
| "unquote_go (c # s) =
     (if c = CHR 0x22 then Some ([], s)
      else if c = CHR 0x5C
      then (case s of [] \<Rightarrow> None
            | d # t \<Rightarrow> map_option (\<lambda>(u, r). (d # u, r)) (unquote_go t))
      else map_option (\<lambda>(u, r). (c # u, r)) (unquote_go s))"

definition unquote :: "string \<Rightarrow> (string \<times> string) option" where
  "unquote s = (case s of c # t \<Rightarrow> if c = CHR 0x22 then unquote_go t else None | [] \<Rightarrow> None)"

definition escape_char :: "char \<Rightarrow> string" where
  "escape_char c = (if c = CHR 0x5C \<or> c = CHR 0x22 then [CHR 0x5C, c] else [c])"

lemma replace_twice:
  "replace_char (CHR 0x22) [CHR 0x5C, CHR 0x22] (replace_char (CHR 0x5C) [CHR 0x5C, CHR 0x5C] s) =
   concat (map escape_char s)"
  by (induction s) (auto simp: replace_char_def escape_char_def)

lemma unquote_go_escaped: "unquote_go (concat (map escape_char s) @ CHR 0x22 # r) = Some (s, r)"
  by (induction s) (auto simp: escape_char_def)

lemma quote_rcon_arg_eq: "quote_rcon_arg v = CHR 0x22 # concat (map escape_char v) @ [CHR 0x22]"
  by (simp add: quote_rcon_arg_def replace_twice)

lemma unquote_quote_append: "unquote (quote_rcon_arg v @ r) = Some (v, r)"
  by (simp add: unquote_def quote_rcon_arg_eq unquote_go_escaped)

lemma set_escape: "set (concat (map escape_char s)) \<subseteq> insert (CHR 0x5C) (set s)"
  by (auto simp: escape_char_def)

lemma send_rcon_sent:
  "send_rcon_command net h p pw t c = (sent, outcome) \<Longrightarrow>
   sent = [] \<or> (\<exists>d. sent = [d] \<and> d_host d = h \<and> d_port d = p \<and> d_payload d = rcon_payload pw c)"
  by (auto simp: send_rcon_command_def Let_def split: option.splits net.splits)

text \<open>On a port and a timeout that a socket accepts, a network that fails with \<open>OSError\<close> only.\<close>

definition net_benign :: "net \<Rightarrow> bool" where
  "net_benign net \<longleftrightarrow> (case net of SendFails e \<Rightarrow> e = OSError | RecvFails e \<Rightarrow> e = OSError | _ \<Rightarrow> True)"

lemma send_rcon_outcome:
  "0 \<le> p \<Longrightarrow> p \<le> 65535 \<Longrightarrow> t \<le> max_timeout_seconds \<Longrightarrow> net_benign net \<Longrightarrow>
   snd (send_rcon_command net h p pw t c) \<in> {Inr (), Inl OSError}"
  by (cases net) (auto simp: send_rcon_command_def socket_check_def net_benign_def Let_def)

subsection \<open>Facts: control characters\<close>

lemma re_sub_control: "re_sub control_char_re [] s = filter (\<lambda>c. \<not> is_control c) s"
  by (simp add: control_char_re_def re_sub_chr_delete)

definition clean :: "string \<Rightarrow> bool" where
  "clean s \<longleftrightarrow> list_all (\<lambda>c. \<not> is_control c) s"

lemma clean_sub_control [text_simps]: "clean (re_sub control_char_re [] s)"
  by (auto simp: clean_def re_sub_control list_all_iff)

lemma clean_strip [text_simps]: "clean s \<Longrightarrow> clean (strip s)"
  by (simp add: clean_def list_all_strip)

lemma clean_append [text_simps]: "clean (s @ t) \<longleftrightarrow> clean s \<and> clean t"
  by (simp add: clean_def)

lemma clean_take: "clean s \<Longrightarrow> clean (take n s)"
  by (auto simp: clean_def list_all_iff dest: in_set_takeD)

lemma clean_quote: "clean (quote_rcon_arg s) \<longleftrightarrow> clean s"
proof -
  have "clean (concat (map escape_char s)) \<longleftrightarrow> clean s"
    by (induction s) (auto simp: clean_def escape_char_def is_control_def code_def)
  then show ?thesis by (simp add: quote_rcon_arg_eq clean_def is_control_def code_def)
qed

subsection \<open>Interface: a validated RCON configuration\<close>

text \<open>
  What the senders rely on: whatever the operator wrote, a configuration that loads holds
  whitelisted commands only, a host and a timeout of at least a second.  \<open>command_line\<close> is the text
  the senders build from it.
\<close>

definition command_line :: "string \<Rightarrow> string \<Rightarrow> string" where
  "command_line command message = command @ '' '' @ quote_rcon_arg message"

locale rcon_config =
  fixes load :: "'o \<Rightarrow> 'c res"
    and commands :: "'c \<Rightarrow> string list"
    and host :: "'c \<Rightarrow> string"
    and timeout :: "'c \<Rightarrow> int"
  assumes commands_allowed: "load os = Inr c \<Longrightarrow> set (commands c) \<subseteq> set allowed_announce_commands"
    and host_nonempty: "load os = Inr c \<Longrightarrow> host c \<noteq> []"
    and timeout_positive: "load os = Inr c \<Longrightarrow> 1 \<le> timeout c"
begin

lemma command_line_forms:
  "load os = Inr c \<Longrightarrow> cmd \<in> set (commands c) \<Longrightarrow>
   command_line cmd m = ''svsay '' @ quote_rcon_arg m \<or> command_line cmd m = ''say '' @ quote_rcon_arg m"
  using commands_allowed [of os c] by (auto simp: command_line_def allowed_announce_commands_def)

lemma command_line_message:
  assumes "load os = Inr c" "cmd \<in> set (commands c)"
  shows "unquote (drop (Suc (length cmd)) (command_line cmd m)) = Some (m, [])"
  using unquote_quote_append [of m "[]"] by (simp add: command_line_def)

end

end
