(* ===== verification/Runtime_Env_File.thy ===== *)
theory Runtime_Env_File
  imports Addon_Runtime
begin

section \<open>Reading the runtime environment file\<close>

text \<open>
  The file \<open>.runtime/taystjk-effective.env\<close> is written by the entrypoint with one
  \<open>printf 'KEY=%q'\<close> line per key and read back by \<open>load_runtime_env\<close>.  The theory shows what the
  reader makes of such a file, and which texts make it raise.  The writer is the shell: \<open>bash_quote\<close> is the documented
  form that bash's \<open>printf %q\<close> gives to printable ASCII.
\<close>

subsection \<open>Lines\<close>

lemma splitlines_go_Cons:
  "c \<noteq> CHR 0x0D \<Longrightarrow> splitlines_go acc (c # s) =
     (if is_line_break c then rev acc # splitlines_go [] s else splitlines_go (c # acc) s)"
  by (cases "(acc, c # s)" rule: splitlines_go.cases) auto

lemma splitlines_go_line:
  "list_all (\<lambda>c. \<not> is_line_break c) l \<Longrightarrow>
   splitlines_go acc (l @ CHR 0x0A # r) = (rev acc @ l) # splitlines_go [] r"
proof (induction l arbitrary: acc)
  case Nil
  show ?case by (simp add: is_line_break_def in_range_def code_def)
next
  case (Cons c l)
  have "c \<noteq> CHR 0x0D" using Cons.prems by (auto simp: is_line_break_def in_range_def code_def)
  then have "splitlines_go acc (c # l @ CHR 0x0A # r) = splitlines_go (c # acc) (l @ CHR 0x0A # r)"
    using Cons.prems by (simp add: splitlines_go_Cons)
  with Cons show ?case by simp
qed

lemma splitlines_lines:
  "list_all (list_all (\<lambda>c. \<not> is_line_break c)) ls \<Longrightarrow>
   splitlines (concat (map (\<lambda>l. l @ [CHR 0x0A]) ls)) = ls"
  by (induction ls) (simp_all add: splitlines_def splitlines_go_line)

subsection \<open>\<open>printf %q\<close> of bash\<close>

text \<open>
  The empty text becomes two quotes.  Otherwise a backslash goes in front of the characters the shell would
  interpret: those of the list anywhere, \<open>#\<close> at the start, and \<open>~\<close> at the start or behind \<open>:\<close> or \<open>=\<close>.  Texts with other
  characters than printable ASCII take another form, \<open>$'...'\<close>, below.
\<close>

definition bash_special :: "char \<Rightarrow> bool" where
  "bash_special c \<longleftrightarrow>
     c \<in> set ('' !$&()*,;<>?[]^`{|}'' @ [CHR 0x22, CHR 0x27, CHR 0x5C])"

fun bash_escape :: "char option \<Rightarrow> string \<Rightarrow> string" where
  "bash_escape prev [] = []"
| "bash_escape prev (c # s) =
     (if bash_special c \<or> (c = CHR ''#'' \<and> prev = None) \<or>
         (c = CHR ''~'' \<and> prev \<in> {None, Some (CHR '':''), Some (CHR ''='')})
      then [CHR 0x5C, c] else [c]) @ bash_escape (Some c) s"

definition bash_quote :: "string \<Rightarrow> string" where
  "bash_quote v = (if v = [] then [CHR 0x27, CHR 0x27] else bash_escape None v)"

definition printable :: "char \<Rightarrow> bool" where
  "printable c \<longleftrightarrow> in_range 32 126 c"

lemma printable_plain: "printable c \<Longrightarrow> \<not> bash_special c \<Longrightarrow> plain_char c"
proof -
  assume c: "printable c" "\<not> bash_special c"
  have "bash_special d" if "d \<in> {CHR '' '', CHR 0x22, CHR 0x27, CHR 0x5C}" for d
    using that by (auto simp: bash_special_def)
  with c(2) have "c \<notin> {CHR '' '', CHR 0x22, CHR 0x27, CHR 0x5C}" by blast
  moreover have "c \<notin> {CHR 0x09, CHR 0x0D, CHR 0x0A}" using c(1) by (auto simp: printable_def in_range_def code_def)
  ultimately show ?thesis by (simp add: plain_char_def shlex_white_def is_quote_def)
qed

lemma printable_no_break: "printable c \<Longrightarrow> \<not> is_line_break c"
  by (auto simp: printable_def is_line_break_def in_range_def)

lemma shlex_go_escaped:
  "list_all printable w \<Longrightarrow> shlex_go InWord tok quoted (bash_escape prev w @ s) = shlex_go InWord (tok @ w) quoted s"
proof (induction w arbitrary: tok prev)
  case (Cons c w)
  have "plain_char c \<or> bash_special c" using Cons.prems printable_plain by auto
  with Cons show ?case by (auto simp: plain_char_def shlex_white_def is_quote_def)
qed simp

lemma shlex_go_start:
  assumes "w \<noteq> []" "list_all printable w"
  shows "shlex_go Space [] False (bash_escape prev w @ s) = shlex_go InWord w False s"
proof -
  obtain c u where w: "w = c # u" using assms(1) by (cases w) auto
  have "plain_char c \<or> bash_special c" using assms(2) printable_plain w by auto
  with shlex_go_escaped [of u "[c]" False "Some c" s] assms(2) show ?thesis
    by (auto simp: w plain_char_def shlex_white_def is_quote_def)
qed

text \<open>\<open>shlex.split\<close> undoes it.\<close>

lemma shlex_split_quoted: "list_all printable v \<Longrightarrow> shlex_split (bash_quote v) = Inr [v]"
proof (cases "v = []")
  case True
  then show ?thesis by (simp add: shlex_split_def bash_quote_def shlex_white_def is_quote_def)
next
  case False
  assume "list_all printable v"
  with shlex_go_start [OF False, of None "[]"] False show ?thesis by (simp add: shlex_split_def bash_quote_def)
qed

subsection \<open>One line written with \<open>printf %q\<close>\<close>

definition env_line :: "string \<Rightarrow> string \<Rightarrow> string" where
  "env_line k v = k @ CHR ''='' # bash_quote v"

text \<open>A value that survives: printable ASCII, not ending in a blank.\<close>

definition env_value :: "string \<Rightarrow> bool" where
  "env_value v \<longleftrightarrow> list_all printable v \<and> (v \<noteq> [] \<longrightarrow> last v \<noteq> CHR '' '')"

lemma printable_space: "printable c \<Longrightarrow> is_space c \<Longrightarrow> c = CHR '' ''"
  by (auto simp: printable_def is_space_def in_range_def simp flip: code_inject) (simp_all add: code_def)

lemma bash_escape_last: "v \<noteq> [] \<Longrightarrow> bash_escape prev v \<noteq> [] \<and> last (bash_escape prev v) = last v"
  by (induction v arbitrary: prev rule: induct_list012) auto

lemma bash_quote_last:
  assumes "env_value v"
  shows "bash_quote v \<noteq> [] \<and> \<not> is_space (last (bash_quote v))"
proof (cases "v = []")
  case True
  then show ?thesis by (simp add: bash_quote_def is_space_def in_range_def code_def)
next
  case False
  with assms have "printable (last v)" "last v \<noteq> CHR '' ''" by (simp_all add: env_value_def list_all_iff)
  with False bash_escape_last [OF False, of None] printable_space show ?thesis by (auto simp: bash_quote_def)
qed

lemma bash_escape_chars: "set (bash_escape prev v) \<subseteq> set v \<union> {CHR 0x5C}"
  by (induction v arbitrary: prev) auto

lemma bash_quote_chars: "list_all printable v \<Longrightarrow> list_all (\<lambda>c. \<not> is_line_break c) (bash_quote v)"
proof -
  assume v: "list_all printable v"
  have "\<not> is_line_break (CHR 0x5C)" "\<not> is_line_break (CHR 0x27)"
    by (simp_all add: is_line_break_def in_range_def code_def)
  with v bash_escape_chars [of None v] printable_no_break show ?thesis
    by (auto simp: bash_quote_def list_all_iff)
qed

lemma tracked_key_chars:
  assumes "k \<in> set tracked_keys"
  shows "k \<noteq> []" "\<not> is_space (hd k)" "CHR ''='' \<notin> set k" "strip k = k"
    "list_all (\<lambda>c. \<not> is_line_break c) k"
proof -
  have "\<forall>k \<in> set tracked_keys. k \<noteq> [] \<and> \<not> is_space (hd k) \<and> CHR ''='' \<notin> set k \<and> strip k = k \<and>
      list_all (\<lambda>c. \<not> is_line_break c) k"
    unfolding tracked_keys_def by code_simp
  with assms show "k \<noteq> []" "\<not> is_space (hd k)" "CHR ''='' \<notin> set k" "strip k = k"
    "list_all (\<lambda>c. \<not> is_line_break c) k" by blast+
qed

lemma split_once_at: "c \<notin> set k \<Longrightarrow> split_once c (k @ c # v) = (k, v)"
  by (induction k) (auto simp: split_once_def)

lemma runtime_env_line_quoted:
  assumes k: "k \<in> set tracked_keys" and q: "q \<noteq> []" "\<not> is_space (last q)" "shlex_split q = Inr [v]"
  shows "runtime_env_line tracked_keys (k @ CHR ''='' # q) st = Inr (dict_setdefault k v st)"
proof -
  note key = tracked_key_chars [OF k]
  have "strip (k @ CHR ''='' # q) = k @ CHR ''='' # q"
    using key q(1,2) by (intro strip_id) simp
  then show ?thesis
    using key k split_once_at [of "CHR ''=''" k q] q(3) by (simp add: runtime_env_line_def)
qed

lemma runtime_env_line_env_line:
  assumes "k \<in> set tracked_keys" "env_value v"
  shows "runtime_env_line tracked_keys (env_line k v) st = Inr (dict_setdefault k v st)"
  unfolding env_line_def
  by (rule runtime_env_line_quoted) (use assms bash_quote_last shlex_split_quoted in \<open>auto simp: env_value_def\<close>)

lemma env_line_chars:
  "k \<in> set tracked_keys \<Longrightarrow> list_all printable v \<Longrightarrow> list_all (\<lambda>c. \<not> is_line_break c) (env_line k v)"
  using tracked_key_chars(5) [of k] bash_quote_chars [of v]
  by (simp add: env_line_def) (simp add: is_line_break_def in_range_def code_def)

definition env_file :: "(string \<times> string) list \<Rightarrow> string" where
  "env_file kvs = concat (map (\<lambda>l. l @ [CHR 0x0A]) (map (\<lambda>(k, v). env_line k v) kvs))"

lemma foldR_env_lines:
  "\<forall>(k, v) \<in> set kvs. k \<in> set tracked_keys \<and> env_value v \<Longrightarrow>
   foldR (runtime_env_line tracked_keys) (map (\<lambda>(k, v). env_line k v) kvs) st =
     Inr (fold (\<lambda>(k, v). dict_setdefault k v) kvs st)"
  by (induction kvs arbitrary: st) (auto simp: runtime_env_line_env_line)

lemma fold_setdefault_get:
  "dict_get (fold (\<lambda>(k, v). dict_setdefault k v) kvs st) k =
     (case dict_get st k of Some v \<Rightarrow> Some v | None \<Rightarrow> map_of kvs k)"
  by (induction kvs arbitrary: st) (auto split: option.splits)

lemma load_env_file:
  assumes f: "file_at os p = Text (env_file kvs)"
    and kvs: "\<forall>(k, v) \<in> set kvs. k \<in> set tracked_keys \<and> env_value v"
  shows "load_runtime_env os p =
    Inr (fold (\<lambda>(k, v). dict_setdefault k v) kvs (runtime_from_environ os tracked_keys))"
proof -
  have "list_all (list_all (\<lambda>c. \<not> is_line_break c)) (map (\<lambda>(k, v). env_line k v) kvs)"
    using kvs env_line_chars by (auto simp: list_all_iff env_value_def)
  then have "splitlines (env_file kvs) = map (\<lambda>(k, v). env_line k v) kvs"
    unfolding env_file_def by (rule splitlines_lines)
  with f kvs show ?thesis
    by (simp add: load_runtime_env_def is_file_def read_text_def foldR_env_lines)
qed

lemma tracked_keys_distinct: "distinct tracked_keys"
  by (simp add: tracked_keys_def)

text \<open>
  C40.  The runtime environment file is read back as it was written: for a file with one
  \<open>printf 'KEY=%q'\<close> line per pair (tracked keys, values of printable ASCII that do not end in a blank, empty ones
  included), \<open>load_runtime_env\<close> gives for every key the stripped non-empty process variable if there is one and
  otherwise the first value the file has for it.
\<close>

theorem runtime_env_roundtrip:
  assumes "file_at os p = Text (env_file kvs)"
    and "\<forall>(k, v) \<in> set kvs. k \<in> set tracked_keys \<and> env_value v"
    and "key \<in> set tracked_keys"
  shows "\<exists>st. load_runtime_env os p = Inr st \<and>
    dict_get st key =
      (case environ os key of
         Some v \<Rightarrow> if v \<noteq> [] then Some (strip v) else map_of kvs key
       | None \<Rightarrow> map_of kvs key)"
  using load_env_file [OF assms(1,2)] assms(3)
  by (auto simp: fold_setdefault_get runtime_from_environ_get [OF tracked_keys_distinct]
      split: option.splits)

definition sample_env :: "string \<Rightarrow> os_env" where
  "sample_env t = \<lparr>environ = Map.empty, file_at = (\<lambda>p. if p = ''env'' then Text t else Missing),
     json_loads = (\<lambda>_. Inl JSONDecodeError)\<rparr>"

lemma sample_env_sel [simp]:
  "environ (sample_env t) k = None"
  "file_at (sample_env t) p = (if p = ''env'' then Text t else Missing)"
  by (simp_all add: sample_env_def)

theorem runtime_env_roundtrip_witness:
  "\<exists>st. load_runtime_env
      (sample_env (env_file [(''TAYSTJK_EFFECTIVE_SERVER_RCON_PASSWORD'', ''a b;$~c'')])) ''env'' = Inr st \<and>
     dict_get st ''TAYSTJK_EFFECTIVE_SERVER_RCON_PASSWORD'' = Some ''a b;$~c''"
  using runtime_env_roundtrip [of "sample_env (env_file [(''TAYSTJK_EFFECTIVE_SERVER_RCON_PASSWORD'', ''a b;$~c'')])"
      "''env''" "[(''TAYSTJK_EFFECTIVE_SERVER_RCON_PASSWORD'', ''a b;$~c'')]" "''TAYSTJK_EFFECTIVE_SERVER_RCON_PASSWORD''"]
  by (simp add: tracked_keys_def env_value_def printable_def in_range_def code_def)

subsection \<open>Lines that raise\<close>

lemma foldR_raises:
  assumes "x \<in> set xs" "\<And>s. f x s = Inl e" "\<And>y s e'. f y s = Inl e' \<Longrightarrow> e' = e"
  shows "foldR f xs s = Inl e"
  using assms(1)
proof (induction xs arbitrary: s)
  case (Cons y xs)
  then show ?case using assms(2,3) by (cases "f y s") auto
qed simp

definition raising_line :: "string \<Rightarrow> bool" where
  "raising_line l \<longleftrightarrow>
     (let (k, v) = split_once (CHR ''='') (strip l)
      in CHR ''='' \<in> set (strip l) \<and> strip k \<in> set tracked_keys \<and> shlex_split v = Inl ValueError)"

lemma raising_line_raises: "raising_line l \<Longrightarrow> runtime_env_line tracked_keys l st = Inl ValueError"
  by (auto simp: raising_line_def runtime_env_line_def Let_def split: prod.splits)

lemma load_runtime_env_raising:
  assumes "file_at os p = Text t" "l \<in> set (splitlines t)" "raising_line l"
  shows "load_runtime_env os p = Inl ValueError"
proof -
  have "foldR (runtime_env_line tracked_keys) (splitlines t) st = Inl ValueError" for st
    by (rule foldR_raises [OF assms(2)])
       (auto intro: raising_line_raises [OF assms(3)] runtime_env_line_errors)
  then show ?thesis using assms(1) by (simp add: load_runtime_env_def is_file_def read_text_def)
qed

text \<open>A value that ends in a blank is cut to a dangling backslash, which raises.\<close>

lemma shlex_split_dangling: "list_all printable w \<Longrightarrow> shlex_split (bash_escape prev w @ [CHR 0x5C]) = Inl ValueError"
proof (cases "w = []")
  case True
  then show ?thesis by (simp add: shlex_split_def shlex_white_def)
next
  case False
  assume "list_all printable w"
  with shlex_go_start [OF False, of prev "[CHR 0x5C]"] show ?thesis
    by (simp add: shlex_split_def shlex_white_def is_quote_def)
qed

lemma bash_escape_blank: "bash_escape prev (w @ '' '') = bash_escape prev w @ [CHR 0x5C, CHR '' '']"
  by (induction w arbitrary: prev) (auto simp: bash_special_def)

lemma raising_trailing_blank:
  assumes k: "k \<in> set tracked_keys" and w: "list_all printable w"
  shows "raising_line (env_line k (w @ '' ''))"
proof -
  note key = tracked_key_chars [OF k]
  let ?l = "k @ CHR ''='' # bash_escape None w @ [CHR 0x5C]"
  have "env_line k (w @ '' '') = ?l @ '' ''"
    by (simp add: env_line_def bash_quote_def bash_escape_blank)
  moreover have "\<not> is_space (CHR 0x5C)" "is_space (CHR '' '')"
    by (simp_all add: is_space_def in_range_def code_def)
  moreover have "lstrip (?l @ '' '') = ?l @ '' ''"
    using key by (intro lstrip_id) simp
  moreover have "rstrip ?l = ?l" by (rule rstrip_id) (simp add: is_space_def in_range_def code_def)
  ultimately have "strip (env_line k (w @ '' '')) = ?l"
    by (simp add: strip_def rstrip_snoc del: append_assoc append_Cons)
  then show ?thesis
    using key k split_once_at [of "CHR ''=''" k "bash_escape None w @ [CHR 0x5C]"]
    by (simp add: raising_line_def shlex_split_dangling [OF w])
qed

text \<open>
  A runtime environment file with a badly quoted tracked value is not survived: the \<open>ValueError\<close>
  of \<open>shlex.split\<close> passes the \<open>except OSError\<close> of \<open>load_runtime_env\<close>, so that the password and the
  port cannot be read either.
\<close>

theorem runtime_env_raises:
  assumes "file_at os p = Text t" "l \<in> set (splitlines t)" "raising_line l"
  shows "load_runtime_env os p = Inl ValueError \<and> effective_rcon_password os p = Inl ValueError \<and>
    current_server_port os p = Inl ValueError"
  using load_runtime_env_raising [OF assms]
  by (simp add: effective_rcon_password_def current_server_port_def)

lemma splitlines_env_file:
  "k \<in> set tracked_keys \<Longrightarrow> list_all printable v \<Longrightarrow> splitlines (env_file [(k, v)]) = [env_line k v]"
  using splitlines_lines [of "[env_line k v]"] by (simp add: env_file_def env_line_chars)

theorem runtime_env_raises_witness:
  "effective_rcon_password
     (sample_env (env_file [(''TAYSTJK_EFFECTIVE_SERVER_RCON_PASSWORD'', ''secret '')])) ''env'' =
     Inl ValueError"
  using runtime_env_raises [of "sample_env (env_file [(''TAYSTJK_EFFECTIVE_SERVER_RCON_PASSWORD'', ''secret '')])"
      "''env''" "env_file [(''TAYSTJK_EFFECTIVE_SERVER_RCON_PASSWORD'', ''secret '')]"
      "env_line ''TAYSTJK_EFFECTIVE_SERVER_RCON_PASSWORD'' ''secret ''"]
    raising_trailing_blank [of "''TAYSTJK_EFFECTIVE_SERVER_RCON_PASSWORD''" "''secret''"]
    splitlines_env_file [of "''TAYSTJK_EFFECTIVE_SERVER_RCON_PASSWORD''" "''secret ''"]
  by (simp add: tracked_keys_def printable_def in_range_def code_def)

text \<open>
  The other form of \<open>printf %q\<close>, for texts with control characters or characters the locale cannot print, is not undone:
  \<open>shlex.split\<close> does not know \<open>$'...'\<close> and gives the body of the quotation with a dollar sign in front.
\<close>

theorem runtime_env_ansi_quoted:
  assumes "k \<in> set tracked_keys" "CHR 0x27 \<notin> set w"
  shows "runtime_env_line tracked_keys (k @ CHR ''='' # CHR ''$'' # CHR 0x27 # w @ [CHR 0x27]) st =
    Inr (dict_setdefault k (CHR ''$'' # w) st)"
proof (rule runtime_env_line_quoted [OF assms(1)])
  show "shlex_split (CHR ''$'' # CHR 0x27 # w @ [CHR 0x27]) = Inr [CHR ''$'' # w]"
    using shlex_go_single [OF assms(2), of "''$''" False] by (simp add: shlex_split_def shlex_white_def is_quote_def)
qed (simp_all add: is_space_def in_range_def code_def)

theorem runtime_env_ansi_quoted_witness:
  "runtime_env_line tracked_keys (''TAYSTJK_EFFECTIVE_SERVER_RCON_PASSWORD=$'' @ [CHR 0x27] @ ''a'' @ [CHR 0x5C] @ ''tb'' @ [CHR 0x27]) [] =
     Inr [(''TAYSTJK_EFFECTIVE_SERVER_RCON_PASSWORD'', ''$a'' @ [CHR 0x5C] @ ''tb'')]"
  using runtime_env_ansi_quoted [of "''TAYSTJK_EFFECTIVE_SERVER_RCON_PASSWORD''" "''a'' @ [CHR 0x5C] @ ''tb''" "[]"]
  by (simp add: tracked_keys_def dict_setdefault_def dict_set_def)

end
