(* ===== verification/Event_Machine.thy ===== *)
theory Event_Machine
  imports Prelude
begin

section \<open>Event consumers as machines\<close>

text \<open>
  Every addon is a loop that reads one event after the other and updates its state, and every handler
  may raise.  The locales below state what such a loop needs from its handler; their lemmas lift a
  fact about one event to any sequence of events.  Each addon interprets them on its own handler.
\<close>

inductive reaches :: "('e \<Rightarrow> 's \<Rightarrow> 's res) \<Rightarrow> 's \<Rightarrow> 's \<Rightarrow> bool" for step s0 where
  start: "reaches step s0 s0"
| more: "reaches step s0 s \<Longrightarrow> step e s = Inr s' \<Longrightarrow> reaches step s0 s'"

lemma reaches_run: "foldR step es s = Inr s' \<Longrightarrow> reaches step s0 s \<Longrightarrow> reaches step s0 s'"
  by (induction es arbitrary: s) (auto simp: bindR_eq_Inr intro: more)

lemma reaches_iff: "reaches step s0 s \<longleftrightarrow> (\<exists>es. foldR step es s0 = Inr s)"
proof
  show "reaches step s0 s \<Longrightarrow> \<exists>es. foldR step es s0 = Inr s"
  proof (induction rule: reaches.induct)
    case start
    show ?case by (rule exI [of _ "[]"]) simp
  next
    case (more s e s')
    then obtain es where "foldR step es s0 = Inr s" by blast
    with more have "foldR step (es @ [e]) s0 = Inr s'" by (simp add: foldR_append)
    then show ?case by blast
  qed
  show "\<exists>es. foldR step es s0 = Inr s \<Longrightarrow> reaches step s0 s"
    by (auto intro: reaches_run start)
qed

text \<open>A handler that keeps an invariant.\<close>

locale event_machine =
  fixes step :: "'e \<Rightarrow> 's \<Rightarrow> 's res"
    and inv :: "'s \<Rightarrow> bool"
  assumes step_inv: "inv s \<Longrightarrow> step e s = Inr s' \<Longrightarrow> inv s'"
begin

lemma run_inv: "inv s \<Longrightarrow> foldR step es s = Inr s' \<Longrightarrow> inv s'"
  by (rule foldR_invariant [where P = inv and f = step and xs = es and s = s]) (auto intro: step_inv)

lemma reaches_inv: "reaches step s s' \<Longrightarrow> inv s \<Longrightarrow> inv s'"
  by (induction rule: reaches.induct) (auto intro: step_inv)

end

text \<open>A handler that also appends to an output and only appends items of an admissible form.\<close>

locale emitting_machine = event_machine step inv
  for step :: "'e \<Rightarrow> 's \<Rightarrow> 's res" and inv :: "'s \<Rightarrow> bool" +
  fixes out :: "'s \<Rightarrow> 'o list"
    and ok :: "'o \<Rightarrow> bool"
  assumes step_out: "inv s \<Longrightarrow> step e s = Inr s' \<Longrightarrow> \<exists>os. out s' = out s @ os \<and> list_all ok os"
begin

lemma run_out:
  "inv s \<Longrightarrow> foldR step es s = Inr s' \<Longrightarrow> \<exists>os. out s' = out s @ os \<and> list_all ok os"
proof (induction es arbitrary: s)
  case (Cons e es)
  then obtain t where t: "step e s = Inr t" "foldR step es t = Inr s'" by (auto simp: bindR_eq_Inr)
  from step_out [OF Cons.prems(1) t(1)] obtain a where a: "out t = out s @ a" "list_all ok a" by blast
  from Cons.IH [OF step_inv [OF Cons.prems(1) t(1)] t(2)]
  obtain b where "out s' = out t @ b" "list_all ok b" by blast
  with a show ?case by (intro exI [of _ "a @ b"]) simp
qed simp

lemma run_all_ok: "inv s \<Longrightarrow> out s = [] \<Longrightarrow> foldR step es s = Inr s' \<Longrightarrow> list_all ok (out s')"
  using run_out by fastforce

end

text \<open>A handler that never raises on the events of a class: the loop survives all of them.\<close>

locale surviving_machine = event_machine step inv
  for step :: "'e \<Rightarrow> 's \<Rightarrow> 's res" and inv :: "'s \<Rightarrow> bool" +
  fixes benign :: "'e \<Rightarrow> bool"
  assumes step_total: "inv s \<Longrightarrow> benign e \<Longrightarrow> \<exists>s'. step e s = Inr s'"
begin

lemma run_total: "inv s \<Longrightarrow> list_all benign es \<Longrightarrow> \<exists>s'. foldR step es s = Inr s' \<and> inv s'"
proof (rule foldR_total)
  fix e s assume "list_all benign es" "e \<in> set es" "inv s"
  then show "\<exists>s'. step e s = Inr s' \<and> inv s'"
    using step_total step_inv by (fastforce simp: list_all_iff)
qed

end

section \<open>Cooldown tables\<close>

text \<open>
  Two addons suppress repetitions with a table that remembers, per key, the value last let through
  and its time.  A gate answers a request (key, value, time) with the updated table or with nothing;
  the laws below are all that the spacing guarantee needs.
\<close>

locale cooldown =
  fixes gate :: "'k \<Rightarrow> 'v \<Rightarrow> 'n::linordered_idom \<Rightarrow> 't \<Rightarrow> 't option"
    and entry :: "'t \<Rightarrow> 'k \<Rightarrow> ('v \<times> 'n) option"
    and period :: 'n
  assumes gate_records: "gate k v now tab = Some tab' \<Longrightarrow> entry tab' = (entry tab)(k \<mapsto> (v, now))"
    and gate_spaced: "gate k v now tab = Some tab' \<Longrightarrow> entry tab k = Some (v, t) \<Longrightarrow> period \<le> now - t"
begin

text \<open>The requests let through, in order, and the table they leave.\<close>

fun passed :: "'t \<Rightarrow> ('k \<times> 'v \<times> 'n) list \<Rightarrow> ('k \<times> 'v \<times> 'n) list" where
  "passed tab [] = []"
| "passed tab ((k, v, now) # rs) =
     (case gate k v now tab of None \<Rightarrow> passed tab rs | Some tab' \<Rightarrow> (k, v, now) # passed tab' rs)"

lemma passed_after_entry:
  "entry tab k = Some (v, t) \<Longrightarrow> passed tab rs = ys @ (k, v, t2) # zs \<Longrightarrow> k \<notin> fst ` set ys \<Longrightarrow>
   period \<le> t2 - t"
proof (induction tab rs arbitrary: ys rule: passed.induct)
  case (2 tab k' v' now rs)
  show ?case
  proof (cases "gate k' v' now tab")
    case None
    with 2 show ?thesis by simp
  next
    case (Some tab')
    note tab' = gate_records [OF Some]
    show ?thesis
    proof (cases ys)
      case Nil
      with "2.prems" Some have "k' = k" "v' = v" "now = t2" by auto
      with gate_spaced [OF Some] "2.prems"(1) show ?thesis by simp
    next
      case (Cons y ys')
      with "2.prems" Some have "k' \<noteq> k" "passed tab' rs = ys' @ (k, v, t2) # zs" by auto
      with "2.IH"(2) [OF Some] "2.prems" tab' Cons show ?thesis by simp
    qed
  qed
qed simp

theorem passed_spaced:
  "passed tab rs = xs @ (k, v, t1) # ys @ (k, v, t2) # zs \<Longrightarrow> k \<notin> fst ` set ys \<Longrightarrow> period \<le> t2 - t1"
proof (induction tab rs arbitrary: xs rule: passed.induct)
  case (2 tab k' v' now rs)
  show ?case
  proof (cases "gate k' v' now tab")
    case None
    with 2 show ?thesis by simp
  next
    case (Some tab')
    show ?thesis
    proof (cases xs)
      case Nil
      with "2.prems" Some have "k' = k" "v' = v" "now = t1" "passed tab' rs = ys @ (k, v, t2) # zs" by auto
      with gate_records [OF Some] "2.prems"(2) show ?thesis by (intro passed_after_entry [of tab' k v t1]) auto
    next
      case (Cons x xs')
      with "2.prems" Some have "passed tab' rs = xs' @ (k, v, t1) # ys @ (k, v, t2) # zs" by auto
      from "2.IH"(2) [OF Some this "2.prems"(2)] show ?thesis .
    qed
  qed
qed simp

end

end
