(* ===== verification/Live_Team.thy ===== *)
theory Live_Team
  imports Runtime_Env_File Event_Machine
begin

section \<open>\<open>live-team-announcer.py\<close>\<close>

text \<open>
  The live team-change announcer: its configuration, the announcement text, the cooldown table and
  the loop over the supervisor's events.  One pass of the loop is \<open>live_line\<close>; the operating system,
  the reading of \<open>time.monotonic()\<close> and the network's answer at that pass are part of its input.
\<close>

subsection \<open>Configuration\<close>

definition live_home :: "os_env \<Rightarrow> string" where
  "live_home os = getenv os ''JKA_LIVE_TEAM_ANNOUNCER_HOME'' home_container"

definition live_addons_config_path :: "os_env \<Rightarrow> string" where
  "live_addons_config_path os =
     getenv os ''JKA_ADDONS_CONFIG_PATH'' (live_home os @ ''/config/jka-addons.json'')"

definition live_runtime_env_path :: "os_env \<Rightarrow> string" where
  "live_runtime_env_path os = live_home os @ ''/.runtime/taystjk-effective.env''"

definition live_default_config :: "os_env \<Rightarrow> dict" where
  "live_default_config os =
     [(''enabled'', JBool False),
      (''rcon_host'', JStr ''127.0.0.1''),
      (''rcon_timeout_seconds'', JInt 3),
      (''announce_command'', JStr ''svsay''),
      (''log_file'', JStr (live_home os @ ''/logs/bundled-live-team-announcer.log'')),
      (''min_seconds_between_announcements'', JInt 3)]"

text \<open>The section from \<open>JKA_ADDON_CONFIG_JSON\<close>; \<open>None\<close> where the variable gives no JSON object.\<close>

definition section_from_environ :: "os_env \<Rightarrow> dict option res" where
  "section_from_environ os =
     (let raw_env = getenv os ''JKA_ADDON_CONFIG_JSON'' []
      in if strip raw_env = [] then Inr None
         else case json_loads os raw_env of
                Inl e \<Rightarrow> if e = JSONDecodeError then Inr None else Inl e
              | Inr (JObj parsed) \<Rightarrow> Inr (Some parsed)
              | Inr _ \<Rightarrow> Inr None)"

definition loaded_section :: "os_env \<Rightarrow> string \<Rightarrow> string \<Rightarrow> dict option res" where
  "loaded_section os addons_config_path default_name =
     bindR (section_from_environ os) (\<lambda>loaded.
       case loaded of
         Some d \<Rightarrow> Inr (Some d)
       | None \<Rightarrow> load_section_from_addons_file os addons_config_path
                   (getenv os ''JKA_ADDON_NAME'' default_name))"

definition host_or_local :: "dict \<Rightarrow> string" where
  "host_or_local config =
     (let h = strip (py_str (get_default config ''rcon_host'' (JStr ''127.0.0.1'')))
      in if h \<noteq> [] then h else ''127.0.0.1'')"

definition live_announce_command :: "dict \<Rightarrow> string" where
  "live_announce_command config =
     (let raw_command = lower (strip (py_str (get_default config ''announce_command'' (JStr ''svsay''))))
      in if raw_command \<notin> set allowed_announce_commands then ''svsay'' else raw_command)"

definition live_validate :: "dict \<Rightarrow> dict res" where
  "live_validate config =
     (let config = dict_set ''enabled''
                     (JBool (safe_bool (get_default config ''enabled'' (JBool False)) False)) config
      in bindR (safe_int (get_none config ''rcon_timeout_seconds'') 3 1) (\<lambda>timeout.
         let config = dict_set ''rcon_timeout_seconds'' (JInt timeout) config
         in bindR (safe_int (get_none config ''min_seconds_between_announcements'') 3 0) (\<lambda>period.
            let config = dict_set ''min_seconds_between_announcements'' (JInt period) config;
                config = dict_set ''announce_command'' (JStr (live_announce_command config)) config
            in Inr (dict_set ''rcon_host'' (JStr (host_or_local config)) config))))"

definition live_load_config :: "os_env \<Rightarrow> dict res" where
  "live_load_config os =
     bindR (loaded_section os (live_addons_config_path os) ''live_team_announcer'') (\<lambda>loaded.
       live_validate (case loaded of Some d \<Rightarrow> dict_update (live_default_config os) d
                                   | None \<Rightarrow> live_default_config os))"

subsection \<open>The announcement\<close>

definition announcement_player_name :: "string \<Rightarrow> string" where
  "announcement_player_name name = strip (re_sub control_char_re [] name)"

definition announcement_for :: "string \<Rightarrow> string \<Rightarrow> string option" where
  "announcement_for name new_team =
     (let cleaned = announcement_player_name name
      in if cleaned = [] then None
         else let team = upper (strip new_team)
              in if team = ''RED'' then Some (cleaned @ '' joined ^1RED TEAM'')
                 else if team = ''BLUE'' then Some (cleaned @ '' joined ^4BLUE TEAM'')
                 else None)"

subsection \<open>The loop\<close>

text \<open>
  What the loop reads from its configuration, the input of one pass, and its state: the table
  \<open>last_announced\<close> and, as a trace of effects, the datagrams sent so far.
\<close>

record live_config =
  c_host :: string
  c_timeout :: int
  c_command :: string
  c_cooldown :: int

record live_input =
  in_os :: os_env
  in_net :: net
  in_now :: rat
  in_raw :: string

record live_state =
  last_announced :: "(string, string \<times> rat) pydict"
  wire :: "datagram list"

definition live_init :: live_state where
  "live_init = \<lparr>last_announced = [], wire = []\<rparr>"

text \<open>The cooldown: a repetition of the same team within the period is dropped.\<close>

definition live_gate ::
  "int \<Rightarrow> string \<Rightarrow> string \<Rightarrow> rat \<Rightarrow> (string, string \<times> rat) pydict \<Rightarrow>
   (string, string \<times> rat) pydict option" where
  "live_gate period key new_team now table =
     (case dict_get table key of
        Some previous \<Rightarrow>
          if fst previous = new_team \<and> now - snd previous < of_int period then None
          else Some (dict_set key (new_team, now) table)
      | None \<Rightarrow> Some (dict_set key (new_team, now) table))"

definition live_transmit ::
  "live_config \<Rightarrow> net \<Rightarrow> int \<Rightarrow> string \<Rightarrow> string \<Rightarrow> live_state \<Rightarrow> live_state res" where
  "live_transmit cfg net port password message st =
     (let rcon_command = command_line (c_command cfg) message;
          (sent, outcome) = send_rcon_command net (c_host cfg) port password (c_timeout cfg) rcon_command
      in catchR (bindR outcome (\<lambda>_. Inr (st\<lparr>wire := wire st @ sent\<rparr>)))
           (\<lambda>e. e = OSError) (\<lambda>_. Inr (st\<lparr>wire := wire st @ sent\<rparr>)))"

definition live_send :: "live_config \<Rightarrow> live_input \<Rightarrow> string \<Rightarrow> live_state \<Rightarrow> live_state res" where
  "live_send cfg inp message st =
     bindR (effective_rcon_password (in_os inp) (live_runtime_env_path (in_os inp))) (\<lambda>pw.
       case pw of
         None \<Rightarrow> Inr st
       | Some password \<Rightarrow>
           if password = [] then Inr st
           else bindR (current_server_port (in_os inp) (live_runtime_env_path (in_os inp))) (\<lambda>port.
                  live_transmit cfg (in_net inp) port password message st))"

text \<open>
  The part of the loop body that reads the event: the table key, the team and the message of an event
  that asks for an announcement.
\<close>

definition live_request :: "dict \<Rightarrow> (string \<times> string \<times> string) option" where
  "live_request event =
     (if get_none event ''type'' \<noteq> JStr ''team_change'' then None
      else let name = strip (py_str (py_or (get_none event ''name'') (JStr [])));
               new_team = upper (strip (py_str (py_or (get_none event ''new_team'') (JStr []))));
               slot = py_str (py_or (get_none event ''slot'') (JStr []))
           in if name = [] \<or> new_team = [] then None
              else case announcement_for name new_team of
                     None \<Rightarrow> None
                   | Some message \<Rightarrow> Some (slot @ ''|'' @ lower name, new_team, message))"

definition live_event :: "live_config \<Rightarrow> live_input \<Rightarrow> dict \<Rightarrow> live_state \<Rightarrow> live_state res" where
  "live_event cfg inp event st =
     (case live_request event of
        None \<Rightarrow> Inr st
      | Some (key, new_team, message) \<Rightarrow>
          (case live_gate (c_cooldown cfg) key new_team (in_now inp) (last_announced st) of
             None \<Rightarrow> Inr st
           | Some table \<Rightarrow> live_send cfg inp message (st\<lparr>last_announced := table\<rparr>)))"

definition live_line :: "live_config \<Rightarrow> live_input \<Rightarrow> live_state \<Rightarrow> live_state res" where
  "live_line cfg inp st =
     (let line = strip (in_raw inp)
      in if line = [] then Inr st
         else case json_loads (in_os inp) line of
                Inl e \<Rightarrow> if e = JSONDecodeError then Inr st else Inl e
              | Inr (JObj event) \<Rightarrow> live_event cfg inp event st
              | Inr _ \<Rightarrow> Inr st)"

text \<open>
  \<open>main\<close>: the configuration is loaded and the log file opened; a disabled addon returns at once, an
  enabled one reads events until the end of the stream.
\<close>

definition live_config_of :: "dict \<Rightarrow> live_config res" where
  "live_config_of config =
     bindR (py_int (get_none config ''rcon_timeout_seconds'')) (\<lambda>timeout.
     bindR (py_int (get_none config ''min_seconds_between_announcements'')) (\<lambda>cooldown.
       Inr \<lparr>c_host = py_str (get_none config ''rcon_host''), c_timeout = timeout,
            c_command = py_str (get_none config ''announce_command''), c_cooldown = cooldown\<rparr>))"

definition live_main :: "os_env \<Rightarrow> log_io \<Rightarrow> live_input list \<Rightarrow> live_state res" where
  "live_main os io inputs =
     bindR (live_load_config os) (\<lambda>config.
     bindR (open_log io (get_none config ''log_file'')) (\<lambda>_.
       if get_none config ''enabled'' \<noteq> JBool True then Inr live_init
       else bindR (live_config_of config) (\<lambda>cfg. foldR (live_line cfg) inputs live_init)))"

subsection \<open>The configuration is validated\<close>

lemma host_or_local_nonempty: "host_or_local config \<noteq> []"
  by (simp add: host_or_local_def Let_def)

lemma live_announce_command_allowed: "live_announce_command config \<in> set allowed_announce_commands"
  by (simp add: live_announce_command_def allowed_announce_commands_def Let_def)

definition live_valid :: "dict \<Rightarrow> bool" where
  "live_valid c \<longleftrightarrow>
     (\<exists>t \<ge> 1. get_none c ''rcon_timeout_seconds'' = JInt t) \<and>
     (\<exists>p \<ge> 0. get_none c ''min_seconds_between_announcements'' = JInt p) \<and>
     (\<exists>cmd \<in> set allowed_announce_commands. get_none c ''announce_command'' = JStr cmd) \<and>
     (\<exists>b. get_none c ''enabled'' = JBool b) \<and>
     (\<exists>h. h \<noteq> [] \<and> get_none c ''rcon_host'' = JStr h)"

lemma live_validate_valid:
  assumes "live_validate d = Inr c"
  shows "live_valid c"
proof -
  let ?d = "dict_set ''enabled'' (JBool (safe_bool (get_default d ''enabled'' (JBool False)) False)) d"
  from assms obtain t p where
    t: "safe_int (get_none ?d ''rcon_timeout_seconds'') 3 1 = Inr t" and
    p: "safe_int (get_none (dict_set ''rcon_timeout_seconds'' (JInt t) ?d)
          ''min_seconds_between_announcements'') 3 0 = Inr p" and
    c: "\<exists>h cmd e. c = dict_set ''rcon_host'' (JStr (host_or_local h)) (dict_set ''announce_command''
       (JStr (live_announce_command cmd)) (dict_set ''min_seconds_between_announcements'' (JInt p)
         (dict_set ''rcon_timeout_seconds'' (JInt t) ?d)))"
    unfolding live_validate_def Let_def bindR_eq_Inr sum.inject by blast
  from safe_int_min [OF _ t] safe_int_min [OF _ p] have "1 \<le> t" "0 \<le> p" by simp_all
  with c show ?thesis by (auto simp: live_valid_def host_or_local_nonempty live_announce_command_allowed)
qed

lemma live_load_config_valid: "live_load_config os = Inr c \<Longrightarrow> live_valid c"
  by (auto simp: live_load_config_def bindR_eq_Inr dest: live_validate_valid)

definition live_commands :: "dict \<Rightarrow> string list" where
  "live_commands c = [py_str (get_none c ''announce_command'')]"

definition config_host :: "dict \<Rightarrow> string" where
  "config_host c = py_str (get_none c ''rcon_host'')"

definition config_timeout :: "dict \<Rightarrow> int" where
  "config_timeout c = (case get_none c ''rcon_timeout_seconds'' of JInt t \<Rightarrow> t | _ \<Rightarrow> 0)"

interpretation live_rcon: rcon_config live_load_config live_commands config_host config_timeout
  by unfold_locales
     (auto simp: live_commands_def config_host_def config_timeout_def live_valid_def
       dest!: live_load_config_valid)

subsection \<open>What is announced\<close>

lemma announcement_player_name_clean: "clean (announcement_player_name name)"
  by (simp add: announcement_player_name_def text_simps)

definition team_suffixes :: "string list" where
  "team_suffixes = ['' joined ^1RED TEAM'', '' joined ^4BLUE TEAM'']"

lemma team_suffixes_clean: "list_all clean team_suffixes"
  by code_simp

lemma announcement_for_Some:
  assumes "announcement_for name team = Some m"
  obtains suffix where "suffix \<in> set team_suffixes"
    "m = announcement_player_name name @ suffix" "announcement_player_name name \<noteq> []" "clean m"
proof -
  have m: "announcement_player_name name \<noteq> [] \<and>
      (m = announcement_player_name name @ '' joined ^1RED TEAM'' \<or>
       m = announcement_player_name name @ '' joined ^4BLUE TEAM'')"
    using assms unfolding announcement_for_def Let_def by (metis option.distinct(1) option.inject)
  then obtain suffix where s: "suffix \<in> set team_suffixes" "m = announcement_player_name name @ suffix"
    unfolding team_suffixes_def by (metis list.set_intros(1) list.set_intros(2))
  with team_suffixes_clean announcement_player_name_clean [of name] m show thesis
    by (intro that [of suffix]) (auto simp: clean_append list_all_iff)
qed

subsection \<open>The loop, its announcements and the wire\<close>

text \<open>The request of an input, if the loop gets as far as the cooldown table.\<close>

definition live_decode :: "live_input \<Rightarrow> (string \<times> string \<times> string) option" where
  "live_decode inp =
     (let line = strip (in_raw inp)
      in if line = [] then None
         else case json_loads (in_os inp) line of Inr (JObj event) \<Rightarrow> live_request event | _ \<Rightarrow> None)"

text \<open>The announcements the cooldown lets through, with key, team, time and message.\<close>

fun live_passes ::
  "int \<Rightarrow> (string, string \<times> rat) pydict \<Rightarrow> live_input list \<Rightarrow> (string \<times> string \<times> rat \<times> string) list"
where
  "live_passes period table [] = []"
| "live_passes period table (inp # inps) =
     (case live_decode inp of
        None \<Rightarrow> live_passes period table inps
      | Some (key, team, m) \<Rightarrow>
          (case live_gate period key team (in_now inp) table of
             None \<Rightarrow> live_passes period table inps
           | Some table' \<Rightarrow> (key, team, in_now inp, m) # live_passes period table' inps))"

lemma live_line_cases:
  assumes "live_line cfg inp st = Inr st'"
  shows "(case live_decode inp of
            None \<Rightarrow> st' = st
          | Some (key, team, m) \<Rightarrow>
             (case live_gate (c_cooldown cfg) key team (in_now inp) (last_announced st) of
                None \<Rightarrow> st' = st
              | Some table \<Rightarrow> live_send cfg inp m (st\<lparr>last_announced := table\<rparr>) = Inr st'))"
proof -
  have event: "case live_request event of None \<Rightarrow> st' = st
      | Some (key, team, m) \<Rightarrow> (case live_gate (c_cooldown cfg) key team (in_now inp) (last_announced st) of
          None \<Rightarrow> st' = st
        | Some table \<Rightarrow> live_send cfg inp m (st\<lparr>last_announced := table\<rparr>) = Inr st')"
    if "live_event cfg inp event st = Inr st'" for event
    using that by (cases "live_request event") (auto simp: live_event_def split: option.splits)
  show ?thesis
  proof (cases "strip (in_raw inp) = []")
    case True
    with assms show ?thesis by (simp add: live_line_def live_decode_def)
  next
    case line: False
    show ?thesis
    proof (cases "json_loads (in_os inp) (strip (in_raw inp))")
      case (Inl e)
      with assms line show ?thesis by (simp add: live_line_def live_decode_def split: if_splits)
    next
      case (Inr v)
      with assms line show ?thesis
        by (cases v) (simp_all add: live_line_def live_decode_def event)
    qed
  qed
qed

text \<open>A datagram that carries one announcement of this configuration.\<close>

definition carries :: "live_config \<Rightarrow> datagram \<Rightarrow> string \<Rightarrow> bool" where
  "carries cfg d m \<longleftrightarrow> d_host d = c_host cfg \<and>
     (\<exists>pw. pw \<noteq> [] \<and> d_payload d = rcon_payload pw (command_line (c_command cfg) m))"

lemma live_transmit_Inr:
  assumes "live_transmit cfg net port pw m st = Inr st'" "pw \<noteq> []"
  shows "\<exists>ds. st' = st\<lparr>wire := wire st @ ds\<rparr> \<and> (ds = [] \<or> (\<exists>d. ds = [d] \<and> carries cfg d m))"
proof -
  obtain sent outcome where sent: "send_rcon_command net (c_host cfg) port pw (c_timeout cfg)
    (command_line (c_command cfg) m) = (sent, outcome)" by (metis surj_pair)
  with assms(1) have "st' = st\<lparr>wire := wire st @ sent\<rparr>"
    by (cases outcome) (auto simp: live_transmit_def split: if_splits)
  with send_rcon_sent [OF sent] assms(2) show ?thesis by (auto simp: carries_def)
qed

lemma live_send_Inr:
  assumes "live_send cfg inp m st = Inr st'"
  shows "\<exists>ds. st' = st\<lparr>wire := wire st @ ds\<rparr> \<and> (ds = [] \<or> (\<exists>d. ds = [d] \<and> carries cfg d m))"
proof -
  from assms obtain pw where pw: "effective_rcon_password (in_os inp) (live_runtime_env_path (in_os inp)) = Inr pw"
    unfolding live_send_def bindR_eq_Inr by blast
  show ?thesis
  proof (cases "pw = None \<or> pw = Some []")
    case True
    with assms pw have "st' = st" by (auto simp: live_send_def)
    then show ?thesis by (intro exI [of _ "[]"]) simp
  next
    case False
    then obtain p where p: "pw = Some p" "p \<noteq> []" by auto
    with assms pw obtain port where "live_transmit cfg (in_net inp) port p m st = Inr st'"
      by (auto simp: live_send_def bindR_eq_Inr)
    then show ?thesis using p(2) by (rule live_transmit_Inr)
  qed
qed

subsection \<open>The abstract announcer\<close>

text \<open>
  The loop without its table: it remembers what it has announced, and an announcement is dropped when the last one of
  the same key was for the same team and less than the period ago.
\<close>

type_synonym live_announcement = "live_input \<times> string \<times> string \<times> string"

definition last_for :: "string \<Rightarrow> live_announcement list \<Rightarrow> live_announcement option" where
  "last_for key done = find (\<lambda>(inp, k, team, m). k = key) (rev done)"

definition repeats :: "int \<Rightarrow> live_announcement list \<Rightarrow> live_announcement \<Rightarrow> bool" where
  "repeats period done a =
     (case a of (inp, key, team, m) \<Rightarrow>
        (case last_for key done of
           None \<Rightarrow> False
         | Some (earlier, _, team', _) \<Rightarrow> team' = team \<and> in_now inp - in_now earlier < of_int period))"

fun live_announced :: "int \<Rightarrow> live_announcement list \<Rightarrow> live_input list \<Rightarrow> live_announcement list" where
  "live_announced period done [] = done"
| "live_announced period done (inp # inps) =
     (case live_decode inp of
        None \<Rightarrow> live_announced period done inps
      | Some (key, team, m) \<Rightarrow>
          live_announced period
            (if repeats period done (inp, key, team, m) then done else done @ [(inp, key, team, m)]) inps)"

text \<open>
  The datagram of an announcement: one, to the configured host and the port of the moment, with the password of the
  moment, unless there is no password or the system does not send it.
\<close>

definition live_datagrams :: "live_config \<Rightarrow> live_announcement \<Rightarrow> datagram list" where
  "live_datagrams cfg a =
     (case a of (inp, key, team, m) \<Rightarrow>
       (case (effective_rcon_password (in_os inp) (live_runtime_env_path (in_os inp)),
              current_server_port (in_os inp) (live_runtime_env_path (in_os inp)), in_net inp) of
          (_, _, SendFails _) \<Rightarrow> []
        | (Inr (Some pw), Inr port, _) \<Rightarrow>
            if pw = [] then []
            else [\<lparr>d_host = c_host cfg, d_port = port, d_payload = rcon_payload pw (command_line (c_command cfg) m)\<rparr>]
        | _ \<Rightarrow> []))"

lemma live_send_exact:
  assumes "live_send cfg inp m st = Inr st'"
  shows "st' = st\<lparr>wire := wire st @ live_datagrams cfg (inp, key, team, m)\<rparr>"
proof -
  from assms obtain pw where pw: "effective_rcon_password (in_os inp) (live_runtime_env_path (in_os inp)) = Inr pw"
    unfolding live_send_def bindR_eq_Inr by blast
  show ?thesis
  proof (cases "pw = None \<or> pw = Some []")
    case True
    with assms pw show ?thesis by (auto simp: live_send_def live_datagrams_def split: sum.split net.split)
  next
    case False
    then obtain p where p: "pw = Some p" "p \<noteq> []" by auto
    with assms pw obtain port where port: "current_server_port (in_os inp) (live_runtime_env_path (in_os inp)) = Inr port"
      and sent: "live_transmit cfg (in_net inp) port p m st = Inr st'"
      by (auto simp: live_send_def bindR_eq_Inr)
    show ?thesis
    proof (cases "socket_check port (c_timeout cfg)")
      case None
      with sent pw p port show ?thesis
        by (cases "in_net inp")
          (auto simp: live_transmit_def live_datagrams_def send_rcon_command_def split: if_splits)
    next
      case (Some e)
      then have "e = OverflowError" by (simp add: socket_check_def split: if_splits)
      with Some sent show ?thesis by (simp add: live_transmit_def send_rcon_command_def)
    qed
  qed
qed

text \<open>The table holds the last announcement of each key.\<close>

definition table_of :: "(string, string \<times> rat) pydict \<Rightarrow> live_announcement list \<Rightarrow> bool" where
  "table_of table done \<longleftrightarrow>
     (\<forall>key. dict_get table key = map_option (\<lambda>(inp, k, team, m). (team, in_now inp)) (last_for key done))"

lemma table_of_init: "table_of [] []"
  by (simp add: table_of_def last_for_def)

lemma table_of_step:
  assumes "table_of table done"
  shows "case live_gate period key team (in_now inp) table of
      None \<Rightarrow> repeats period done (inp, key, team, m)
    | Some table' \<Rightarrow> \<not> repeats period done (inp, key, team, m) \<and> table_of table' (done @ [(inp, key, team, m)])"
proof -
  have key: "dict_get table key = map_option (\<lambda>(inp, k, team, m). (team, in_now inp)) (last_for key done)"
    using assms by (simp add: table_of_def)
  have new: "table_of (dict_set key (team, in_now inp) table) (done @ [(inp, key, team, m)])"
    using assms by (simp add: table_of_def last_for_def)
  show ?thesis
    using new by (auto simp: live_gate_def repeats_def key split: option.splits)
qed

lemma live_run_refines:
  "foldR (live_line cfg) inps st = Inr st' \<Longrightarrow> table_of (last_announced st) done \<Longrightarrow>
   wire st = concat (map (live_datagrams cfg) done) \<Longrightarrow>
   wire st' = concat (map (live_datagrams cfg) (live_announced (c_cooldown cfg) done inps))"
proof (induction inps arbitrary: st "done")
  case (Cons inp inps)
  then obtain st1 where st1: "live_line cfg inp st = Inr st1" "foldR (live_line cfg) inps st1 = Inr st'"
    by (auto simp: bindR_eq_Inr)
  note IH = Cons.IH [OF st1(2)] and step = live_line_cases [OF st1(1)]
  show ?case
  proof (cases "live_decode inp")
    case None
    with step IH Cons.prems(2,3) show ?thesis by simp
  next
    case (Some r)
    obtain key team m where r: "r = (key, team, m)" by (cases r) auto
    note table = table_of_step [OF Cons.prems(2), where period = "c_cooldown cfg" and key = key and team = team and inp = inp and m = m]
    show ?thesis
    proof (cases "live_gate (c_cooldown cfg) key team (in_now inp) (last_announced st)")
      case None
      with step IH Some r table Cons.prems(2,3) show ?thesis by simp
    next
      case gate: (Some table')
      with step Some r have "live_send cfg inp m (st\<lparr>last_announced := table'\<rparr>) = Inr st1" by simp
      from live_send_exact [OF this, of key team] Cons.prems(3) gate table IH [of "done @ [(inp, key, team, m)]"] Some r
      show ?thesis by simp
    qed
  qed
qed simp

lemma live_passes_announced:
  "table_of table done \<Longrightarrow>
   map (\<lambda>(inp, key, team, m). (key, team, in_now inp, m)) done @ live_passes period table inps =
     map (\<lambda>(inp, key, team, m). (key, team, in_now inp, m)) (live_announced period done inps)"
proof (induction inps arbitrary: table "done")
  case (Cons inp inps)
  show ?case
  proof (cases "live_decode inp")
    case (Some r)
    obtain key team m where r: "r = (key, team, m)" by (cases r) auto
    show ?thesis
    proof (cases "live_gate period key team (in_now inp) table")
      case None
      with table_of_step [OF Cons.prems, where period = period and key = key and team = team and inp = inp and m = m] Cons.IH [OF Cons.prems] Some r show ?thesis by simp
    next
      case gate: (Some table')
      with table_of_step [OF Cons.prems, where period = period and key = key and team = team and inp = inp and m = m] have
        "\<not> repeats period done (inp, key, team, m)" "table_of table' (done @ [(inp, key, team, m)])" by simp_all
      with Cons.IH [OF this(2)] Some r gate show ?thesis by simp
    qed
  qed (use Cons in simp)
qed simp

interpretation live_cd: cooldown "live_gate period" dict_get "of_int period" for period
  by unfold_locales (auto simp: live_gate_def split: option.splits if_splits)

fun live_requests :: "live_input list \<Rightarrow> (string \<times> string \<times> rat) list" where
  "live_requests [] = []"
| "live_requests (inp # inps) =
     (case live_decode inp of None \<Rightarrow> live_requests inps
      | Some (key, team, m) \<Rightarrow> (key, team, in_now inp) # live_requests inps)"

lemma live_passes_passed:
  "map (\<lambda>(k, t, n, m). (k, t, n)) (live_passes period table inps) =
   live_cd.passed period table (live_requests inps)"
  by (induction inps arbitrary: table) (auto split: option.splits)

subsection \<open>Properties\<close>

lemma live_config_of_valid:
  assumes "live_valid c"
  shows "\<exists>cfg. live_config_of c = Inr cfg \<and> 1 \<le> c_timeout cfg \<and> 0 \<le> c_cooldown cfg \<and>
    c_command cfg \<in> set allowed_announce_commands \<and> c_host cfg \<noteq> []"
  using assms by (auto simp: live_valid_def live_config_of_def)

lemma live_commands_of: "live_config_of c = Inr cfg \<Longrightarrow> live_commands c = [c_command cfg]"
  by (auto simp: live_config_of_def live_commands_def bindR_eq_Inr)

text \<open>
  Whatever the operator configured, a configuration that \<open>load_config\<close> returns can be used: the
  loop's values exist, with a timeout of at least a second, a non-negative cooldown, a host and a
  whitelisted command, and the command line of every message is that command with the message
  quoted so that reading the quoted argument gives the message back.
\<close>

theorem live_config_usable:
  assumes "live_load_config os = Inr c"
  shows "\<exists>cfg. live_config_of c = Inr cfg \<and> 1 \<le> c_timeout cfg \<and> 0 \<le> c_cooldown cfg \<and> c_host cfg \<noteq> [] \<and>
    (command_line (c_command cfg) m = ''svsay '' @ quote_rcon_arg m \<or>
     command_line (c_command cfg) m = ''say '' @ quote_rcon_arg m) \<and>
    unquote (drop (Suc (length (c_command cfg))) (command_line (c_command cfg) m)) = Some (m, [])"
proof -
  from live_config_of_valid [OF live_load_config_valid [OF assms]] obtain cfg where
    cfg: "live_config_of c = Inr cfg" "1 \<le> c_timeout cfg" "0 \<le> c_cooldown cfg" "c_host cfg \<noteq> []" by blast
  with live_rcon.command_line_forms [OF assms] live_rcon.command_line_message [OF assms] live_commands_of
  show ?thesis by (intro exI [of _ cfg]) simp
qed

theorem live_config_usable_witness:
  "\<exists>cfg. live_config_of (live_default_config (sample_env [])) = Inr cfg \<and>
     unquote (drop (Suc (length (c_command cfg))) (command_line (c_command cfg) ''hi'')) = Some (''hi'', [])"
proof -
  have "live_load_config (sample_env []) = Inr (live_default_config (sample_env []))"
    by code_simp
  from live_config_usable [OF this, of "''hi''"] show ?thesis by blast
qed

lemma live_decode_announces:
  "live_decode inp = Some (key, team, m) \<Longrightarrow> \<exists>name. announcement_for name team = Some m"
  by (auto simp: live_decode_def live_request_def Let_def
      split: if_splits sum.splits json.splits option.splits)

text \<open>A datagram that the loop may send: one announcement, in the configured command line.\<close>

definition announces :: "live_config \<Rightarrow> datagram \<Rightarrow> bool" where
  "announces cfg d \<longleftrightarrow> (\<exists>name team m. announcement_for name team = Some m \<and> carries cfg d m)"

lemma live_line_wire:
  assumes "live_line cfg inp st = Inr st'"
  shows "\<exists>ds. wire st' = wire st @ ds \<and> list_all (announces cfg) ds"
proof (cases "live_decode inp")
  case None
  with live_line_cases [OF assms] show ?thesis by (intro exI [of _ "[]"]) simp
next
  case (Some r)
  obtain key team m where r: "r = (key, team, m)" by (cases r) auto
  show ?thesis
  proof (cases "live_gate (c_cooldown cfg) key team (in_now inp) (last_announced st)")
    case None
    with live_line_cases [OF assms] Some r show ?thesis by (intro exI [of _ "[]"]) simp
  next
    case gate: (Some table)
    with live_line_cases [OF assms] Some r
    have "live_send cfg inp m (st\<lparr>last_announced := table\<rparr>) = Inr st'" by simp
    from live_send_Inr [OF this] obtain ds where ds: "wire st' = wire st @ ds"
      "ds = [] \<or> (\<exists>d. ds = [d] \<and> carries cfg d m)" by auto
    from live_decode_announces [of inp key team m] Some r obtain name t where
      "announcement_for name t = Some m" by auto
    then have "announces cfg d" if "carries cfg d m" for d using that unfolding announces_def by blast
    with ds(2) have "list_all (announces cfg) ds" by auto
    with ds(1) show ?thesis by blast
  qed
qed

interpretation live_wire: emitting_machine "live_line cfg" "\<lambda>_. True" wire "announces cfg" for cfg
  by unfold_locales (auto dest: live_line_wire)

text \<open>
  Everything the addon puts on the wire is an announcement: each datagram goes to the configured
  host, and its payload is the RCON form of the configured command with the quoted text
  \<open><name> joined ^1RED TEAM\<close> or \<open><name> joined ^4BLUE TEAM\<close>, free of control characters.
\<close>

theorem live_datagrams_announce:
  assumes "foldR (live_line cfg) inps live_init = Inr st" and "d \<in> set (wire st)"
  shows "\<exists>pw name suffix. suffix \<in> set team_suffixes \<and> name \<noteq> [] \<and> clean (name @ suffix) \<and>
    d_host d = c_host cfg \<and> d_payload d = rcon_payload pw (command_line (c_command cfg) (name @ suffix))"
proof -
  have "list_all (announces cfg) (wire st)"
    by (rule live_wire.run_all_ok [OF _ _ assms(1)]) (simp_all add: live_init_def)
  with assms(2) obtain name team m where m: "announcement_for name team = Some m" "carries cfg d m"
    by (auto simp: list_all_iff announces_def)
  from m(1) obtain suffix where "suffix \<in> set team_suffixes"
    "m = announcement_player_name name @ suffix" "announcement_player_name name \<noteq> []" "clean m"
    by (rule announcement_for_Some)
  with m(2) show ?thesis unfolding carries_def by blast
qed

text \<open>
  C34.  The loop implements its abstract announcer: the datagrams of a run are exactly, and in order, those of the
  announcements the abstract announcer makes, one for each at whose time there is a password and the system sends.
  These announcements are those that pass the cooldown table of the loop.
\<close>

theorem live_loop_refines:
  assumes "foldR (live_line cfg) inps live_init = Inr st"
  shows "wire st = concat (map (live_datagrams cfg) (live_announced (c_cooldown cfg) [] inps)) \<and>
    live_passes (c_cooldown cfg) [] inps =
      map (\<lambda>(inp, key, team, m). (key, team, in_now inp, m)) (live_announced (c_cooldown cfg) [] inps)"
  using live_run_refines [OF assms, of "[]"] live_passes_announced [OF table_of_init]
  by (simp add: live_init_def table_of_init)

text \<open>
  C6.  The cooldown: of two announcements of the same player for the same team, with no other
  announcement of that player between them, the later one is at least the configured period after
  the earlier one.
\<close>

theorem live_announcements_spaced:
  assumes "live_passes period [] inps = xs @ (key, team, t1, m1) # ys @ (key, team, t2, m2) # zs"
    and "key \<notin> fst ` set ys"
  shows "of_int period \<le> t2 - t1"
proof -
  let ?f = "\<lambda>(k, t, n, m). (k, t, n)"
  have "live_cd.passed period [] (live_requests inps) =
      map ?f xs @ (key, team, t1) # map ?f ys @ (key, team, t2) # map ?f zs"
    using assms(1) by (simp flip: live_passes_passed)
  moreover have "key \<notin> fst ` set (map ?f ys)" using assms(2) by force
  ultimately show ?thesis by (rule live_cd.passed_spaced)
qed

subsection \<open>Which inputs the loop survives\<close>

text \<open>
  What an input must not do: \<open>json.loads\<close> fails with its own error only, the runtime environment can
  be read and gives a port a socket accepts, and the socket calls fail with \<open>OSError\<close> only.
\<close>

definition live_benign :: "live_input \<Rightarrow> bool" where
  "live_benign inp \<longleftrightarrow>
     json_loads (in_os inp) (strip (in_raw inp)) \<in> {Inl JSONDecodeError} \<union> range Inr \<and>
     effective_rcon_password (in_os inp) (live_runtime_env_path (in_os inp)) \<in> range Inr \<and>
     current_server_port (in_os inp) (live_runtime_env_path (in_os inp)) \<in> Inr ` {0..65535} \<and>
     net_benign (in_net inp)"

lemma live_transmit_total:
  assumes "0 \<le> port" "port \<le> 65535" "c_timeout cfg \<le> max_timeout_seconds" "net_benign net"
  shows "\<exists>st'. live_transmit cfg net port pw m st = Inr st'"
  using assms
  by (cases net) (auto simp: live_transmit_def send_rcon_command_def socket_check_def net_benign_def Let_def)

lemma live_send_total:
  assumes "live_benign inp" "c_timeout cfg \<le> max_timeout_seconds"
  shows "\<exists>st'. live_send cfg inp m st = Inr st'"
proof -
  from assms(1) obtain pw port where
    "effective_rcon_password (in_os inp) (live_runtime_env_path (in_os inp)) = Inr pw"
    "current_server_port (in_os inp) (live_runtime_env_path (in_os inp)) = Inr port"
    "0 \<le> port" "port \<le> 65535" "net_benign (in_net inp)" by (auto simp: live_benign_def)
  with assms(2) show ?thesis
    by (cases pw) (auto simp: live_send_def intro: live_transmit_total)
qed

lemma live_event_total:
  assumes "live_benign inp" "c_timeout cfg \<le> max_timeout_seconds"
  shows "\<exists>st'. live_event cfg inp event st = Inr st'"
proof (cases "live_request event")
  case (Some r)
  obtain key team m where r: "r = (key, team, m)" by (cases r) auto
  show ?thesis
  proof (cases "live_gate (c_cooldown cfg) key team (in_now inp) (last_announced st)")
    case (Some table)
    with live_send_total [OF assms] show ?thesis using \<open>live_request event = Some r\<close> r
      by (simp add: live_event_def)
  qed (simp add: live_event_def Some r)
qed (simp add: live_event_def)

lemma live_line_total:
  assumes "live_benign inp" "c_timeout cfg \<le> max_timeout_seconds"
  shows "\<exists>st'. live_line cfg inp st = Inr st'"
proof (cases "json_loads (in_os inp) (strip (in_raw inp))")
  case (Inl e)
  with assms(1) show ?thesis by (auto simp: live_line_def live_benign_def Let_def)
next
  case (Inr v)
  with live_event_total [OF assms] show ?thesis by (cases v) (auto simp: live_line_def Let_def)
qed

interpretation live_survive: surviving_machine "live_line cfg" "\<lambda>_. True"
    "\<lambda>inp. live_benign inp \<and> c_timeout cfg \<le> max_timeout_seconds" for cfg
  by unfold_locales (auto intro: live_line_total)

text \<open>
  The loop reads its whole input: no event, malformed or not, and no failure of the network
  stops it, as long as the runtime environment stays readable with a port a socket accepts.
\<close>

theorem live_loop_survives:
  assumes "list_all live_benign inps" "c_timeout cfg \<le> max_timeout_seconds"
  shows "\<exists>st. foldR (live_line cfg) inps live_init = Inr st"
proof -
  have "list_all (\<lambda>inp. live_benign inp \<and> c_timeout cfg \<le> max_timeout_seconds) inps"
    using assms by (simp add: list_all_iff)
  from live_survive.run_total [OF _ this] show ?thesis by blast
qed

text \<open>
  A port above 65535 is not survived: the next announcement that passes the cooldown ends the
  addon with \<open>OverflowError\<close>, which \<open>except OSError\<close> does not catch.
\<close>

theorem live_port_overflow:
  assumes "json_loads (in_os inp) (strip (in_raw inp)) = Inr (JObj event)" "strip (in_raw inp) \<noteq> []"
    and "live_request event = Some (key, team, m)"
    and "live_gate (c_cooldown cfg) key team (in_now inp) (last_announced st) = Some table"
    and "effective_rcon_password (in_os inp) (live_runtime_env_path (in_os inp)) = Inr (Some pw)" "pw \<noteq> []"
    and "current_server_port (in_os inp) (live_runtime_env_path (in_os inp)) = Inr port" "65535 < port"
  shows "live_line cfg inp st = Inl OverflowError"
  using assms
  by (simp add: live_line_def live_event_def live_send_def live_transmit_def send_rcon_command_def
      socket_check_def Let_def)

text \<open>
  The whole program: with a log file that can be named, \<open>main\<close> returns for every input of that kind.  A
  \<open>log_file\<close> that is no text (\<open>null\<close>, a list) ends it before the first event, disabled or not.
\<close>

theorem live_main_returns:
  assumes "live_load_config os = Inr config" "log_benign io (get_none config ''log_file'')"
    and "get_none config ''rcon_timeout_seconds'' = JInt t" "t \<le> max_timeout_seconds"
    and "list_all live_benign inputs"
  shows "\<exists>st. live_main os io inputs = Inr st"
proof -
  from live_config_of_valid [OF live_load_config_valid [OF assms(1)]] obtain cfg where
    cfg: "live_config_of config = Inr cfg" by blast
  with assms(3,4) have "c_timeout cfg \<le> max_timeout_seconds"
    by (auto simp: live_config_of_def bindR_eq_Inr)
  with live_loop_survives [OF assms(5)] obtain st where "foldR (live_line cfg) inputs live_init = Inr st" by blast
  with assms(1) cfg open_log_benign [OF assms(2)] show ?thesis by (simp add: live_main_def)
qed

theorem live_log_file_raises:
  assumes "live_load_config os = Inr config" "mkdir_answer io = Inr ()"
    and "get_none config ''log_file'' \<in> {JNull} \<union> range JFloat \<union> range JList \<union> range JObj"
  shows "live_main os io inputs = Inl TypeError"
  using assms by (simp add: live_main_def open_log_raises)

subsection \<open>A concrete run\<close>

definition sample_event :: dict where
  "sample_event =
     [(''type'', JStr ''team_change''), (''slot'', JInt 1), (''name'', JStr ''Ann''), (''new_team'', JStr ''red'')]"

definition sample_os :: "string \<Rightarrow> os_env" where
  "sample_os port = \<lparr>environ = (\<lambda>k. if k = ''TAYSTJK_EFFECTIVE_SERVER_RCON_PASSWORD'' then Some ''pw''
       else if k = ''TAYSTJK_EFFECTIVE_SERVER_PORT'' then Some port else None),
     file_at = (\<lambda>p. Missing), json_loads = (\<lambda>t. Inr (JObj sample_event))\<rparr>"

definition sample_input :: "string \<Rightarrow> rat \<Rightarrow> live_input" where
  "sample_input port now = \<lparr>in_os = sample_os port, in_net = TimesOut, in_now = now, in_raw = ''{}''\<rparr>"

definition sample_cfg :: live_config where
  "sample_cfg = \<lparr>c_host = ''127.0.0.1'', c_timeout = 3, c_command = ''svsay'', c_cooldown = 3\<rparr>"

definition sample_message :: string where
  "sample_message = ''Ann joined ^1RED TEAM''"

definition sample_datagram :: datagram where
  "sample_datagram = \<lparr>d_host = ''127.0.0.1'', d_port = 29070,
     d_payload = rcon_payload ''pw'' (command_line ''svsay'' sample_message)\<rparr>"

lemma sample_facts:
  "strip (in_raw (sample_input port now)) = ''{}''"
  "json_loads (sample_os port) l = Inr (JObj sample_event)"
  "in_now (sample_input port now) = now" "in_net (sample_input port now) = TimesOut"
  "in_os (sample_input port now) = sample_os port"
  by (simp_all add: sample_input_def sample_os_def strip_no_space is_space_def in_range_def code_def)

lemma sample_request: "live_request sample_event = Some (''1|ann'', ''RED'', sample_message)"
  by code_simp

lemma sample_runtime:
  "effective_rcon_password (sample_os ''29070'') (live_runtime_env_path (sample_os ''29070'')) = Inr (Some ''pw'')"
  "effective_rcon_password (sample_os ''65536'') (live_runtime_env_path (sample_os ''65536'')) = Inr (Some ''pw'')"
  "current_server_port (sample_os ''29070'') (live_runtime_env_path (sample_os ''29070'')) = Inr 29070"
  "current_server_port (sample_os ''65536'') (live_runtime_env_path (sample_os ''65536'')) = Inr 65536"
  by code_simp+

lemma sample_benign: "live_benign (sample_input ''29070'' now)"
  by (simp add: live_benign_def sample_facts sample_runtime net_benign_def)

lemma sample_run:
  "foldR (live_line sample_cfg) [sample_input ''29070'' 0] live_init =
     Inr \<lparr>last_announced = [(''1|ann'', ''RED'', 0)], wire = [sample_datagram]\<rparr>"
  by (simp add: live_line_def sample_facts live_event_def sample_request live_gate_def live_init_def
      dict_set_def live_send_def sample_runtime live_transmit_def sample_cfg_def send_rcon_command_def
      socket_check_def max_timeout_seconds_def sample_datagram_def)

theorem live_datagrams_announce_witness:
  "\<exists>pw name suffix. suffix \<in> set team_suffixes \<and> name \<noteq> [] \<and>
     d_payload sample_datagram = rcon_payload pw (command_line ''svsay'' (name @ suffix))"
  using live_datagrams_announce [OF sample_run, of sample_datagram] by (auto simp: sample_cfg_def)

theorem live_loop_refines_witness:
  "[sample_datagram] = concat (map (live_datagrams sample_cfg) (live_announced 3 [] [sample_input ''29070'' 0]))"
  using live_loop_refines [OF sample_run] by (simp add: sample_cfg_def)

lemma sample_passes:
  "live_passes 3 [] [sample_input p 0, sample_input p 2, sample_input p 3] =
     [(''1|ann'', ''RED'', 0, sample_message), (''1|ann'', ''RED'', 3, sample_message)]"
  by (simp add: live_decode_def sample_facts sample_request live_gate_def dict_set_def)

theorem live_announcements_spaced_witness: "of_int 3 \<le> (3 :: rat) - 0"
  using live_announcements_spaced [of 3 "[sample_input ''29070'' 0, sample_input ''29070'' 2, sample_input ''29070'' 3]"
      "[]" "''1|ann''" "''RED''" 0 sample_message "[]" 3 sample_message "[]"]
  by (simp add: sample_passes)

theorem live_loop_survives_witness:
  "\<exists>st. foldR (live_line sample_cfg) [sample_input ''29070'' 0, sample_input ''29070'' 1] live_init = Inr st"
  by (rule live_loop_survives) (simp_all add: sample_benign sample_cfg_def max_timeout_seconds_def)

theorem live_port_overflow_witness:
  "live_line sample_cfg (sample_input ''65536'' 0) live_init = Inl OverflowError"
  by (rule live_port_overflow [of _ sample_event "''1|ann''" "''RED''" sample_message _ _ "[(''1|ann'', ''RED'', 0)]" "''pw''" 65536])
     (simp_all add: sample_facts sample_request sample_runtime live_gate_def live_init_def dict_set_def)

definition section_os :: "dict \<Rightarrow> os_env" where
  "section_os d = \<lparr>environ = (\<lambda>k. if k = ''JKA_ADDON_CONFIG_JSON'' then Some ''{}'' else None),
     file_at = (\<lambda>p. Missing), json_loads = (\<lambda>t. Inr (JObj d))\<rparr>"

definition quiet_log :: log_io where
  "quiet_log = \<lparr>mkdir_answer = Inr (), open_answer = Inl OSError\<rparr>"

lemma section_config:
  "\<exists>c. live_load_config (section_os [(''enabled'', JBool True)]) = Inr c \<and>
     log_benign quiet_log (get_none c ''log_file'') \<and> get_none c ''rcon_timeout_seconds'' = JInt 3"
proof -
  have "case live_load_config (section_os [(''enabled'', JBool True)]) of Inl _ \<Rightarrow> False
    | Inr c \<Rightarrow> get_none c ''log_file'' = JStr ''/home/container/logs/bundled-live-team-announcer.log'' \<and>
        get_none c ''rcon_timeout_seconds'' = JInt 3"
    by code_simp
  then show ?thesis by (auto simp: log_benign_def quiet_log_def split: sum.splits)
qed

theorem live_main_returns_witness:
  "\<exists>st. live_main (section_os [(''enabled'', JBool True)]) quiet_log
     [sample_input ''29070'' 0, sample_input ''29070'' 1] = Inr st"
proof -
  from section_config obtain c where c: "live_load_config (section_os [(''enabled'', JBool True)]) = Inr c"
    "log_benign quiet_log (get_none c ''log_file'')" "get_none c ''rcon_timeout_seconds'' = JInt 3" by blast
  show ?thesis
    by (rule live_main_returns [OF c]) (simp_all add: sample_benign max_timeout_seconds_def)
qed

lemma null_log_config:
  "\<exists>c. live_load_config (section_os [(''log_file'', JNull)]) = Inr c \<and> get_none c ''log_file'' = JNull"
proof -
  have "case live_load_config (section_os [(''log_file'', JNull)]) of Inl _ \<Rightarrow> False
    | Inr c \<Rightarrow> get_none c ''log_file'' = JNull"
    by code_simp
  then show ?thesis by (auto split: sum.splits)
qed

theorem live_log_file_raises_witness:
  "live_main (section_os [(''log_file'', JNull)]) quiet_log [] = Inl TypeError"
proof -
  from null_log_config obtain c where c: "live_load_config (section_os [(''log_file'', JNull)]) = Inr c"
    "get_none c ''log_file'' = JNull" by blast
  from live_log_file_raises [OF c(1), of quiet_log] c(2) show ?thesis by (simp add: quiet_log_def)
qed

end
