(* ===== verification/Py_Format.thy ===== *)
theory Py_Format
  imports Py_Json
begin

section \<open>\<open>str.format\<close> with keyword arguments\<close>

text \<open>
  \<open>template.format(**values)\<close>: doubled braces, replacement fields with a plain name, and the errors of
  malformed templates (\<open>ValueError\<close>), positional fields (\<open>IndexError\<close>, no positional argument is ever
  given) and unknown names (\<open>KeyError\<close>).  A field that goes on with an attribute, an index, a
  conversion or a format specification is handed to the argument \<open>ext\<close>, which stands for that part
  of the format mini-language: it receives the name read so far and the remaining text and gives the
  formatted remainder.  No template shipped with the addons contains such a field.
\<close>

type_synonym fmt_ext = "string \<Rightarrow> string \<Rightarrow> string res"

definition fmt_special :: "char \<Rightarrow> bool" where
  "fmt_special c \<longleftrightarrow> c \<in> {CHR ''{'', CHR ''}'', CHR ''['', CHR '':'', CHR ''!''}"

definition max_ssize :: int where
  "max_ssize = 9223372036854775807"

definition fmt_lookup :: "dict \<Rightarrow> string \<Rightarrow> string res" where
  "fmt_lookup values name =
     (if name = [] then Inl IndexError
      else if list_all is_decimal name
      then Inl (if int_of_digits name > max_ssize then ValueError else IndexError)
      else case dict_get values name of None \<Rightarrow> Inl KeyError | Some v \<Rightarrow> Inr (py_str v))"

lemma dropWhile_smaller: "dropWhile P t = d # u \<Longrightarrow> length u < length t"
  by (metis Suc_le_lessD length_Cons length_dropWhile_le)

function fmt_go :: "fmt_ext \<Rightarrow> dict \<Rightarrow> string \<Rightarrow> string res" where
  "fmt_go ext values s =
     (case s of
        [] \<Rightarrow> Inr []
      | c # t \<Rightarrow>
          if c = CHR ''{'' \<or> c = CHR ''}'' then
            if t \<noteq> [] \<and> hd t = c then bindR (fmt_go ext values (tl t)) (\<lambda>r. Inr (c # r))
            else if c = CHR ''}'' then Inl ValueError
            else (let name = takeWhile (\<lambda>x. \<not> fmt_special x) t;
                      tail = dropWhile (\<lambda>x. \<not> fmt_special x) t
                  in case tail of
                       [] \<Rightarrow> Inl ValueError
                     | d # u \<Rightarrow>
                         if d = CHR ''{'' then Inl ValueError
                         else if d = CHR ''}'' \<and> CHR ''.'' \<notin> set name
                         then bindR (fmt_lookup values name) (\<lambda>v.
                                bindR (fmt_go ext values u) (\<lambda>r. Inr (v @ r)))
                         else ext name tail)
          else bindR (fmt_go ext values t) (\<lambda>r. Inr (c # r)))"
  by pat_completeness auto

termination
  by (relation "measure (\<lambda>(ext, values, s). length s)")
     (auto dest!: dropWhile_smaller [OF sym] dropWhile_smaller)

declare fmt_go.simps [simp del]

definition py_format :: "fmt_ext \<Rightarrow> dict \<Rightarrow> string \<Rightarrow> string res" where
  "py_format ext values template = fmt_go ext values template"

text \<open>A template without braces is its own rendering.\<close>

definition no_braces :: "string \<Rightarrow> bool" where
  "no_braces s \<longleftrightarrow> CHR ''{'' \<notin> set s \<and> CHR ''}'' \<notin> set s"

lemma fmt_go_no_braces: "no_braces s \<Longrightarrow> fmt_go ext values s = Inr s"
  by (induction s) (auto simp: fmt_go.simps no_braces_def)

lemma py_format_no_braces: "no_braces s \<Longrightarrow> py_format ext values s = Inr s"
  by (simp add: py_format_def fmt_go_no_braces)

text \<open>The errors of a template without extended fields are the three that the addons catch.\<close>

definition quiet_ext :: "fmt_ext \<Rightarrow> bool" where
  "quiet_ext ext \<longleftrightarrow> (\<forall>n t e. ext n t = Inl e \<longrightarrow> e = KeyError \<or> e = IndexError \<or> is_value_error e)"

definition quiet :: "exn \<Rightarrow> bool" where
  "quiet e \<longleftrightarrow> e = KeyError \<or> e = IndexError \<or> is_value_error e"

lemma quiet_simps [simp]: "quiet KeyError" "quiet IndexError" "quiet ValueError"
  by (simp_all add: quiet_def is_value_error_def)

lemma fmt_lookup_errors: "fmt_lookup values n = Inl e \<Longrightarrow> quiet e"
  by (auto simp: fmt_lookup_def split: if_splits option.splits)

lemma fmt_go_errors:
  assumes "quiet_ext ext"
  shows "fmt_go ext values s = Inl e \<Longrightarrow> quiet e"
proof (induction "length s" arbitrary: s e rule: less_induct)
  case less
  have IH: "quiet e" if "fmt_go ext values t = Inl e" "length t < length s" for t e
    using less.hyps that by blast
  have ext: "quiet e" if "ext n t = Inl e" for n t e
    using assms that by (auto simp: quiet_ext_def quiet_def)
  show ?case
  proof (cases s)
    case Nil
    with less.prems show ?thesis by (simp add: fmt_go.simps)
  next
    case (Cons c t)
    have tl: "length (tl t) < length s" "length t < length s" using Cons by simp_all
    have dw: "length u < length s" if "dropWhile P t = d # u" for P d u
      using dropWhile_smaller [OF that] Cons by simp
    from less.prems Cons show ?thesis
      by (auto simp: fmt_go.simps [of _ _ "c # t"] Let_def bindR_eq_Inl
          split: list.splits if_splits
          intro: IH [OF _ tl(1)] IH [OF _ tl(2)] IH [OF _ dw] ext fmt_lookup_errors)
  qed
qed

lemma py_format_errors: "quiet_ext ext \<Longrightarrow> py_format ext values s = Inl e \<Longrightarrow> quiet e"
  by (simp add: py_format_def fmt_go_errors)

end
