(* ===== verification/Match_Config.thy ===== *)
theory Match_Config
  imports Runtime_Env_File Event_Machine Py_Format
begin

section \<open>\<open>match-announcer.py\<close>: configuration\<close>

text \<open>
  The configuration of the match announcer: \<open>parse_configured_gametypes\<close>, \<open>normalize_messages\<close> and
  \<open>load_config\<close>.  The helpers the script has in common with \<open>live-team-announcer.py\<close> (the functions
  are the same text in both files) are named here and defined as the functions of \<open>Addon_Runtime\<close>.
\<close>

subsection \<open>The helpers shared with the live announcer\<close>

definition match_safe_int :: "json \<Rightarrow> int \<Rightarrow> int \<Rightarrow> int res" where
  "match_safe_int = safe_int"

definition match_safe_bool :: "json \<Rightarrow> bool \<Rightarrow> bool" where
  "match_safe_bool = safe_bool"

definition match_load_section_from_addons_file ::
  "os_env \<Rightarrow> string \<Rightarrow> string \<Rightarrow> dict option res" where
  "match_load_section_from_addons_file = load_section_from_addons_file"

definition match_load_runtime_env :: "os_env \<Rightarrow> string \<Rightarrow> (string, string) pydict res" where
  "match_load_runtime_env = load_runtime_env"

definition match_extract_rcon_password_from_config :: "os_env \<Rightarrow> string \<Rightarrow> string option" where
  "match_extract_rcon_password_from_config = extract_rcon_password_from_config"

definition match_effective_rcon_password :: "os_env \<Rightarrow> string \<Rightarrow> string option res" where
  "match_effective_rcon_password = effective_rcon_password"

definition match_current_server_port :: "os_env \<Rightarrow> string \<Rightarrow> int res" where
  "match_current_server_port = current_server_port"

definition match_send_rcon_command ::
  "net \<Rightarrow> string \<Rightarrow> int \<Rightarrow> string \<Rightarrow> int \<Rightarrow> string \<Rightarrow> datagram list \<times> unit res" where
  "match_send_rcon_command = send_rcon_command"

definition match_quote_rcon_arg :: "string \<Rightarrow> string" where
  "match_quote_rcon_arg = quote_rcon_arg"

definition match_allowed_announce_commands :: "string list" where
  "match_allowed_announce_commands = allowed_announce_commands"

lemmas match_helper_defs = match_safe_int_def match_safe_bool_def
  match_load_section_from_addons_file_def match_load_runtime_env_def
  match_extract_rcon_password_from_config_def match_effective_rcon_password_def
  match_current_server_port_def match_send_rcon_command_def match_quote_rcon_arg_def
  match_allowed_announce_commands_def

subsection \<open>Game types\<close>

definition gametype_raw :: "dict \<Rightarrow> json" where
  "gametype_raw config =
     (case dict_get config ''gametypes'' of
        Some v \<Rightarrow> v
      | None \<Rightarrow> (case dict_get config ''gametype'' of Some v \<Rightarrow> v | None \<Rightarrow> JInt 6))"

definition gametype_candidates :: "json \<Rightarrow> json list" where
  "gametype_candidates raw =
     (case raw of
        JList xs \<Rightarrow> xs
      | JStr s \<Rightarrow> map (\<lambda>part. JStr (strip part)) (split_char (CHR '','') s)
      | _ \<Rightarrow> [raw])"

text \<open>One pass of the loop: invalid values, values other than 6 and repetitions are skipped.\<close>

definition gametype_item :: "json \<Rightarrow> int list \<Rightarrow> int list res" where
  "gametype_item item parsed =
     (case py_int item of
        Inl e \<Rightarrow> if type_or_value_error e then Inr parsed else Inl e
      | Inr v \<Rightarrow> if v \<noteq> 6 then Inr parsed
                 else if v \<in> set parsed then Inr parsed
                 else Inr (parsed @ [v]))"

definition parse_configured_gametypes :: "dict \<Rightarrow> int list res" where
  "parse_configured_gametypes config =
     foldR gametype_item (gametype_candidates (gametype_raw config)) []"

definition first_gametype :: "int list \<Rightarrow> int" where
  "first_gametype gametypes = (case gametypes of g # _ \<Rightarrow> g | [] \<Rightarrow> 6)"

subsection \<open>Messages\<close>

definition default_messages :: "(string, string) pydict" where
  "default_messages =
     [(''tffa_start'', ''^3Match Started ^7- ^2Good Luck, Have Fun!''),
      (''tffa_end_red'', ''^3Match Ended ^7- ^1RED TEAM wins.''),
      (''tffa_end_blue'', ''^3Match Ended ^7- ^4BLUE TEAM wins.''),
      (''tffa_end_draw'', ''^3Match Ended ^7- ^7Draw.'')]"

definition json_of_texts :: "(string, string) pydict \<Rightarrow> json" where
  "json_of_texts ms = JObj (map (\<lambda>(k, v). (k, JStr v)) ms)"

definition message_item :: "string \<times> json \<Rightarrow> (string, string) pydict \<Rightarrow> (string, string) pydict" where
  "message_item kv messages = (case snd kv of JStr raw \<Rightarrow> dict_set (fst kv) raw messages | _ \<Rightarrow> messages)"

definition normalize_messages :: "json \<Rightarrow> (string, string) pydict" where
  "normalize_messages v = (case v of JObj d \<Rightarrow> fold message_item d default_messages | _ \<Rightarrow> default_messages)"

subsection \<open>\<open>load_config\<close>\<close>

definition match_home :: "os_env \<Rightarrow> string" where
  "match_home os = getenv os ''JKA_MATCH_ANNOUNCER_HOME'' home_container"

definition match_addons_config_path :: "os_env \<Rightarrow> string" where
  "match_addons_config_path os =
     getenv os ''JKA_ADDONS_CONFIG_PATH'' (match_home os @ ''/config/jka-addons.json'')"

definition match_runtime_env_path :: "os_env \<Rightarrow> string" where
  "match_runtime_env_path os = match_home os @ ''/.runtime/taystjk-effective.env''"

definition match_default_config :: "os_env \<Rightarrow> dict" where
  "match_default_config os =
     [(''enabled'', JBool False),
      (''rcon_host'', JStr ''127.0.0.1''),
      (''rcon_timeout_seconds'', JInt 3),
      (''announce_command'', JStr ''svsay''),
      (''match_start_command'', JStr ''svsay''),
      (''match_end_command'', JStr ''svsay''),
      (''log_file'', JStr (match_home os @ ''/logs/bundled-match-announcer.log'')),
      (''gametype'', JInt 6),
      (''require_map_restart_vote'', JBool True),
      (''messages'', json_of_texts default_messages)]"

definition match_section_from_environ :: "os_env \<Rightarrow> dict option res" where
  "match_section_from_environ os =
     (let raw_env = getenv os ''JKA_ADDON_CONFIG_JSON'' []
      in if strip raw_env = [] then Inr None
         else case json_loads os raw_env of
                Inl e \<Rightarrow> if e = JSONDecodeError then Inr None else Inl e
              | Inr (JObj parsed) \<Rightarrow> Inr (Some parsed)
              | Inr _ \<Rightarrow> Inr None)"

definition match_loaded_config :: "os_env \<Rightarrow> dict res" where
  "match_loaded_config os =
     bindR (match_section_from_environ os) (\<lambda>from_env.
     bindR (case from_env of
              Some d \<Rightarrow> Inr (Some d)
            | None \<Rightarrow> match_load_section_from_addons_file os (match_addons_config_path os)
                        (getenv os ''JKA_ADDON_NAME'' ''match_announcer'')) (\<lambda>loaded.
       case loaded of Some d \<Rightarrow> Inr (dict_update (match_default_config os) d)
                    | None \<Rightarrow> Inr (match_default_config os)))"

definition safe_command :: "json \<Rightarrow> string \<Rightarrow> string" where
  "safe_command v fallback =
     (let candidate = lower (strip (py_str (py_or v (JStr []))))
      in if candidate \<in> set match_allowed_announce_commands then candidate else fallback)"

text \<open>The command of a group: missing or blank values fall back to \<open>announce\<close>.\<close>

definition group_command :: "json \<Rightarrow> string \<Rightarrow> string" where
  "group_command raw announce =
     (if raw = JNull \<or> strip (py_str raw) = [] then announce else safe_command raw announce)"

definition match_commands :: "dict \<Rightarrow> dict" where
  "match_commands config =
     (let announce = safe_command (get_default config ''announce_command'' (JStr ''svsay'')) ''svsay'';
          config = dict_set ''announce_command'' (JStr announce) config;
          config = dict_set ''match_start_command''
                     (JStr (group_command (get_none config ''match_start_command'') announce)) config;
          config = dict_set ''match_end_command''
                     (JStr (group_command (get_none config ''match_end_command'') announce)) config;
          host = strip (py_str (get_default config ''rcon_host'' (JStr ''127.0.0.1'')))
      in dict_set ''rcon_host'' (JStr (if host \<noteq> [] then host else ''127.0.0.1'')) config)"

definition match_validate :: "dict \<Rightarrow> dict res" where
  "match_validate config =
     (let config = dict_set ''enabled''
            (JBool (match_safe_bool (get_default config ''enabled'' (JBool False)) False)) config
      in bindR (match_safe_int (get_none config ''rcon_timeout_seconds'') 3 1) (\<lambda>timeout.
         let config = dict_set ''rcon_timeout_seconds'' (JInt timeout) config
         in bindR (parse_configured_gametypes config) (\<lambda>gametypes.
            let config = dict_set ''gametypes'' (JList (map JInt gametypes)) config;
                config = dict_set ''gametype'' (JInt (first_gametype gametypes)) config;
                config = dict_set ''require_map_restart_vote'' (JBool (match_safe_bool
                           (get_default config ''require_map_restart_vote'' (JBool True)) True)) config;
                config = dict_set ''messages''
                           (json_of_texts (normalize_messages (get_none config ''messages''))) config
            in Inr (match_commands config))))"

definition match_load_config :: "os_env \<Rightarrow> dict res" where
  "match_load_config os = bindR (match_loaded_config os) match_validate"

subsection \<open>Facts: game types\<close>

lemma gametype_item_six:
  "gametype_item item parsed = Inr r \<Longrightarrow> parsed \<in> {[], [6]} \<Longrightarrow> r \<in> {[], [6]}"
  by (auto simp: gametype_item_def split: sum.splits if_splits)

lemma parse_configured_gametypes_six: "parse_configured_gametypes c = Inr gs \<Longrightarrow> gs \<in> {[], [6]}"
  unfolding parse_configured_gametypes_def
  by (rule foldR_invariant [where P = "\<lambda>s. s \<in> {[], [6]}"]) (auto dest: gametype_item_six)

lemma gametype_item_raises: "gametype_item item parsed = Inl e \<longleftrightarrow> e = OverflowError \<and> (\<exists>neg. item = JFloat (FInf neg))"
  using py_int_errors [of item]
  by (auto simp: gametype_item_def type_or_value_error_def is_value_error_def py_int_overflow [symmetric]
      split: sum.splits if_splits)

text \<open>The loop finds 6 exactly when some candidate is a 6.\<close>

lemma gametype_loop_six:
  "foldR gametype_item items parsed = Inr gs \<Longrightarrow>
   6 \<in> set gs \<longleftrightarrow> 6 \<in> set parsed \<or> (\<exists>item \<in> set items. py_int item = Inr 6)"
proof (induction items arbitrary: parsed)
  case (Cons item items)
  then obtain p where p: "gametype_item item parsed = Inr p" "foldR gametype_item items p = Inr gs"
    by (auto simp: bindR_eq_Inr)
  from p(1) have "6 \<in> set p \<longleftrightarrow> 6 \<in> set parsed \<or> py_int item = Inr 6"
    by (auto simp: gametype_item_def split: sum.splits if_splits)
  with Cons.IH [OF p(2)] show ?case by auto
qed simp

lemma gametype_loop_raises:
  "foldR gametype_item items parsed = Inl e \<longleftrightarrow>
   e = OverflowError \<and> (\<exists>neg. JFloat (FInf neg) \<in> set items)"
proof (induction items arbitrary: parsed)
  case (Cons item items)
  show ?case
  proof (cases "gametype_item item parsed")
    case (Inl e')
    with gametype_item_raises [of item parsed e'] show ?thesis by auto
  next
    case (Inr p)
    with gametype_item_raises [of item parsed OverflowError] Cons.IH [of p] show ?thesis by auto
  qed
qed simp

text \<open>
  \<open>parse_configured_gametypes\<close> supports TFFA only: its result is empty or the single game type 6, and
  it is 6 exactly when the configured value, or one item of a configured list or comma separated text,
  is an integer reading of 6; nothing but a JSON infinity among the items makes it raise.
\<close>

theorem parse_configured_gametypes_spec:
  "case parse_configured_gametypes c of
     Inr gs \<Rightarrow> gs = (if \<exists>item \<in> set (gametype_candidates (gametype_raw c)). py_int item = Inr 6 then [6] else [])
   | Inl e \<Rightarrow> e = OverflowError \<and>
       (\<exists>neg. JFloat (FInf neg) \<in> set (gametype_candidates (gametype_raw c)))"
proof (cases "parse_configured_gametypes c")
  case (Inl e)
  with gametype_loop_raises [of "gametype_candidates (gametype_raw c)" "[]" e]
  show ?thesis by (simp add: parse_configured_gametypes_def [symmetric])
next
  case (Inr gs)
  with parse_configured_gametypes_six [OF Inr] gametype_loop_six [of "gametype_candidates (gametype_raw c)" "[]" gs]
  show ?thesis by (auto simp: parse_configured_gametypes_def)
qed

subsection \<open>Facts: messages\<close>

lemma map_of_json_of_texts: "map_of (map (\<lambda>(k, v). (k, JStr v)) ms) k = map_option JStr (map_of ms k)"
  by (induction ms) auto

lemma message_item_keeps: "dict_get ms k \<noteq> None \<Longrightarrow> dict_get (message_item kv ms) k \<noteq> None"
  by (simp add: message_item_def split: json.splits)

lemma fold_message_item_keeps: "dict_get ms k \<noteq> None \<Longrightarrow> dict_get (fold message_item d ms) k \<noteq> None"
proof (induction d arbitrary: ms)
  case (Cons kv d)
  show ?case using Cons.IH [OF message_item_keeps [OF Cons.prems]] by simp
qed simp

lemma fold_message_item_get:
  "distinct (map fst d) \<Longrightarrow>
   dict_get (fold message_item d ms) k =
     (case map_of d k of Some (JStr t) \<Rightarrow> Some t | _ \<Rightarrow> dict_get ms k)"
proof (induction d arbitrary: ms)
  case (Cons kv d)
  then show ?case
    by (cases kv) (auto simp: message_item_def map_of_eq_None_iff [THEN iffD2] split: json.splits option.splits)
qed simp

text \<open>
  \<open>normalize_messages\<close> keeps a template for every message the announcer sends: a text the operator
  gave for the key, and the shipped text where the operator gave none or a value that is no text.
\<close>

theorem normalize_messages_get:
  assumes "distinct (map fst d)"
  shows "dict_get (normalize_messages (JObj d)) key =
    (case dict_get d key of Some (JStr t) \<Rightarrow> Some t | _ \<Rightarrow> dict_get default_messages key)"
  using fold_message_item_get [OF assms] by (simp add: normalize_messages_def)

theorem normalize_messages_get_witness:
  "dict_get (normalize_messages (JObj [(''tffa_start'', JInt 5), (''tffa_end_draw'', JStr ''tie'')])) ''tffa_end_draw'' =
     Some ''tie''"
  using normalize_messages_get [of "[(''tffa_start'', JInt 5), (''tffa_end_draw'', JStr ''tie'')]" "''tffa_end_draw''"]
  by simp

subsection \<open>Facts: commands\<close>

lemma safe_command_allowed:
  "fallback \<in> set allowed_announce_commands \<Longrightarrow> safe_command v fallback \<in> set allowed_announce_commands"
  by (simp add: safe_command_def match_helper_defs Let_def)

lemma group_command_allowed:
  "announce \<in> set allowed_announce_commands \<Longrightarrow> group_command v announce \<in> set allowed_announce_commands"
  by (simp add: group_command_def safe_command_allowed)

lemma svsay_allowed: "''svsay'' \<in> set allowed_announce_commands"
  by (simp add: allowed_announce_commands_def)

definition match_valid :: "dict \<Rightarrow> bool" where
  "match_valid c \<longleftrightarrow>
     (\<exists>t \<ge> 1. get_none c ''rcon_timeout_seconds'' = JInt t) \<and>
     (\<exists>gs \<in> {[], [6]}. get_none c ''gametypes'' = JList (map JInt gs)) \<and>
     get_none c ''gametype'' = JInt 6 \<and>
     (\<exists>b. get_none c ''enabled'' = JBool b) \<and>
     (\<exists>b. get_none c ''require_map_restart_vote'' = JBool b) \<and>
     (\<exists>v. get_none c ''messages'' = json_of_texts (normalize_messages v)) \<and>
     (\<exists>cmd \<in> set allowed_announce_commands. get_none c ''announce_command'' = JStr cmd) \<and>
     (\<exists>cmd \<in> set allowed_announce_commands. get_none c ''match_start_command'' = JStr cmd) \<and>
     (\<exists>cmd \<in> set allowed_announce_commands. get_none c ''match_end_command'' = JStr cmd) \<and>
     (\<exists>h. h \<noteq> [] \<and> get_none c ''rcon_host'' = JStr h)"

text \<open>\<open>match_commands\<close> sets four keys and keeps the others.\<close>

lemma match_commands_get:
  assumes "k \<notin> {''announce_command'', ''match_start_command'', ''match_end_command'', ''rcon_host''}"
  shows "get_none (match_commands c) k = get_none c k"
  using assms by (simp add: match_commands_def Let_def)

lemma match_commands_set:
  "\<exists>cmd \<in> set allowed_announce_commands. get_none (match_commands c) ''announce_command'' = JStr cmd"
  "\<exists>cmd \<in> set allowed_announce_commands. get_none (match_commands c) ''match_start_command'' = JStr cmd"
  "\<exists>cmd \<in> set allowed_announce_commands. get_none (match_commands c) ''match_end_command'' = JStr cmd"
  "\<exists>h. h \<noteq> [] \<and> get_none (match_commands c) ''rcon_host'' = JStr h"
  by (simp_all add: match_commands_def Let_def safe_command_allowed group_command_allowed svsay_allowed)

lemma first_gametype_six: "gs \<in> {[], [6]} \<Longrightarrow> first_gametype gs = 6"
  by (auto simp: first_gametype_def)

lemma match_validate_valid:
  assumes "match_validate d = Inr c"
  shows "match_valid c"
proof -
  let ?d = "dict_set ''enabled'' (JBool (match_safe_bool (get_default d ''enabled'' (JBool False)) False)) d"
  from assms obtain t gs where
    t: "match_safe_int (get_none ?d ''rcon_timeout_seconds'') 3 1 = Inr t" and
    gs: "parse_configured_gametypes (dict_set ''rcon_timeout_seconds'' (JInt t) ?d) = Inr gs" and
    c: "\<exists>b v. c = match_commands (dict_set ''messages'' (json_of_texts (normalize_messages v))
      (dict_set ''require_map_restart_vote'' (JBool b) (dict_set ''gametype'' (JInt (first_gametype gs))
        (dict_set ''gametypes'' (JList (map JInt gs)) (dict_set ''rcon_timeout_seconds'' (JInt t) ?d)))))"
    unfolding match_validate_def Let_def bindR_eq_Inr sum.inject by blast
  from safe_int_min [of 1 3, OF _ t [unfolded match_helper_defs]] have "1 \<le> t" by simp
  moreover note gs' = parse_configured_gametypes_six [OF gs]
  ultimately show ?thesis
    using c first_gametype_six [OF gs'] by (auto simp: match_valid_def match_commands_get match_commands_set)
qed

lemma match_load_config_valid: "match_load_config os = Inr c \<Longrightarrow> match_valid c"
  by (auto simp: match_load_config_def bindR_eq_Inr dest: match_validate_valid)

end
