(* ===== verification/Match_State.thy ===== *)
theory Match_State
  imports Match_Config
begin

section \<open>\<open>match-announcer.py\<close>: the class \<open>MatchAnnouncer\<close>\<close>

text \<open>
  The match state machine.  The attributes of an instance are the record \<open>match_state\<close>; the two
  callables it is built with, \<open>clock\<close> and \<open>send\<close>, are the record \<open>match_ops\<close> and act on a world of
  type \<open>'w\<close>, so that each reading of the clock and each call of the sender is one step of the world.
  \<open>emitted\<close> is the trace of the lines the instance handed to its sender, with the group of each.
\<close>

subsection \<open>Recognisers\<close>

definition votepassed_re :: re where
  "votepassed_re = seqs [ilit ''@@@VOTEPASSED'', star ws, lit ''('', star ws, ilit ''map_restart'', Wb]"

definition gametype_re :: re where
  "gametype_re = seqs [lit (CHR 0x5C # ''g_gametype'' @ [CHR 0x5C]), Grp ''1'' (plus digit)]"

definition exit_timelimit_re :: re where
  "exit_timelimit_re = seqs [lit ''Exit:'', plus ws, lit ''Timelimit hit.'']"

definition exit_killlimit_re :: re where
  "exit_killlimit_re = seqs [lit ''Exit:'', plus ws, lit ''Kill limit hit.'']"

definition score_re :: re where
  "score_re = seqs [Wb, ilit ''red:'', star ws, Grp ''1'' (plus digit), plus ws,
                    ilit ''blue:'', star ws, Grp ''2'' (plus digit), Wb]"

definition scoreboard_markers :: "string list" where
  "scoreboard_markers =
     [''broadcast: print'', ''Score'', ''Kills'', ''Deaths'', ''Dmg Given'', ''Dmg Taken'', ''Name'']"

definition scoreboard_whitespace_re :: re where
  "scoreboard_whitespace_re = plus (alts [lit [CHR 0x5C, CHR ''n''], lit [CHR 0x5C, CHR ''r''],
                                          lit [CHR 0x5C, CHR ''t''], ws])"

definition group_text :: "caps \<Rightarrow> string \<Rightarrow> string" where
  "group_text cs n = (case group cs n of Some t \<Rightarrow> t | None \<Rightarrow> [])"

definition parse_gametype :: "string \<Rightarrow> int option" where
  "parse_gametype raw_init_game_line =
     (if raw_init_game_line = [] then None
      else case re_search gametype_re raw_init_game_line of
             None \<Rightarrow> None
           | Some cs \<Rightarrow> (case py_int_text (group_text cs ''1'') of Inr g \<Rightarrow> Some g | Inl _ \<Rightarrow> None))"

definition is_final_scoreboard_broadcast :: "string \<Rightarrow> bool" where
  "is_final_scoreboard_broadcast raw_line =
     (if raw_line = [] then False
      else let normalised = re_sub scoreboard_whitespace_re '' '' raw_line
           in list_all (contains normalised) scoreboard_markers)"

definition sanitize_text :: "string \<Rightarrow> string" where
  "sanitize_text v = strip (re_sub control_char_re [] v)"

subsection \<open>State\<close>

datatype msg_group = StartGroup | EndGroup

record 'w match_ops =
  clock :: "'w \<Rightarrow> rat \<times> 'w"
  send :: "string \<Rightarrow> json option \<Rightarrow> 'w \<Rightarrow> unit res \<times> 'w"
  fmt_fields :: fmt_ext

record match_flags =
  armed :: bool
  armed_at :: "rat option"
  match_started :: bool
  match_ending :: bool
  summary_sent :: bool
  match_start_sent :: bool
  pending_match_start :: bool
  pending_match_start_at :: "rat option"
  final_red_score :: "int option"
  final_blue_score :: "int option"
  current_gametype :: "int option"

record 'w match_state = match_flags +
  world :: 'w
  emitted :: "(msg_group \<times> string) list"

text \<open>The configuration an instance works with, normalised by its constructor.\<close>

definition init_config :: "dict \<Rightarrow> (int list \<times> dict) res" where
  "init_config config =
     bindR (parse_configured_gametypes config) (\<lambda>gametypes.
       let config = dict_set ''gametypes'' (JList (map JInt gametypes)) config;
           config = dict_set ''gametype'' (JInt (first_gametype gametypes)) config
       in Inr (gametypes,
               dict_set ''messages'' (json_of_texts (normalize_messages (get_none config ''messages''))) config))"

definition reset_match :: "'w match_state \<Rightarrow> 'w match_state" where
  "reset_match st = st\<lparr>match_started := False, match_ending := False, summary_sent := False,
     match_start_sent := False, pending_match_start := False, pending_match_start_at := None,
     final_red_score := None, final_blue_score := None, current_gametype := None\<rparr>"

definition disarm :: "'w match_state \<Rightarrow> 'w match_state" where
  "disarm st = st\<lparr>armed := False, armed_at := None\<rparr>"

definition reset_all :: "'w match_state \<Rightarrow> 'w match_state" where
  "reset_all st = reset_match (disarm st)"

definition match_init :: "'w \<Rightarrow> 'w match_state" where
  "match_init w = reset_all \<lparr>armed = False, armed_at = None, match_started = False, match_ending = False,
     summary_sent = False, match_start_sent = False, pending_match_start = False,
     pending_match_start_at = None, final_red_score = None, final_blue_score = None,
     current_gametype = None, world = w, emitted = []\<rparr>"

definition read_clock :: "'w match_ops \<Rightarrow> 'w match_state \<Rightarrow> rat \<times> 'w match_state" where
  "read_clock ops st = (let (t, w) = clock ops (world st) in (t, st\<lparr>world := w\<rparr>))"

definition map_restart_arm_seconds :: rat where "map_restart_arm_seconds = 30"
definition match_start_delay_seconds :: rat where "match_start_delay_seconds = 2"
definition max_svsay_line_length :: nat where "max_svsay_line_length = 140"

definition is_armed_now :: "'w match_ops \<Rightarrow> 'w match_state \<Rightarrow> bool \<times> 'w match_state" where
  "is_armed_now ops st =
     (if \<not> armed st then (False, st)
      else case armed_at st of
             None \<Rightarrow> (True, st)
           | Some since \<Rightarrow> (let (t, st) = read_clock ops st in (t - since \<le> map_restart_arm_seconds, st)))"

subsection \<open>Output\<close>

definition command_for_group :: "dict \<Rightarrow> msg_group \<Rightarrow> json" where
  "command_for_group config g =
     py_or (get_none config (case g of StartGroup \<Rightarrow> ''match_start_command'' | EndGroup \<Rightarrow> ''match_end_command''))
       (get_default config ''announce_command'' (JStr ''svsay''))"

definition call_send ::
  "'w match_ops \<Rightarrow> string \<Rightarrow> json option \<Rightarrow> 'w match_state \<Rightarrow> unit res \<times> 'w match_state" where
  "call_send ops line command st = (let (r, w) = send ops line command (world st) in (r, st\<lparr>world := w\<rparr>))"

definition emit :: "'w match_ops \<Rightarrow> dict \<Rightarrow> string \<Rightarrow> msg_group \<Rightarrow> 'w match_state \<Rightarrow> 'w match_state res" where
  "emit ops config text g st =
     (let line = strip text
      in if line = [] then Inr st
         else let line = (if length line > max_svsay_line_length then take max_svsay_line_length line else line);
                  st = st\<lparr>emitted := emitted st @ [(g, line)]\<rparr>;
                  (r, st) = call_send ops line (Some (command_for_group config g)) st
              in case r of
                   Inr _ \<Rightarrow> Inr st
                 | Inl e \<Rightarrow> if e = TypeError
                            then let (r', st) = call_send ops line None st
                                 in bindR r' (\<lambda>_. Inr st)
                            else Inl e)"

definition format_template :: "fmt_ext \<Rightarrow> string \<Rightarrow> dict \<Rightarrow> string option res" where
  "format_template ext template args =
     catchR (bindR (py_format ext args template) (\<lambda>s. Inr (Some s)))
       (\<lambda>e. e = KeyError \<or> e = IndexError \<or> is_value_error e) (\<lambda>_. Inr None)"

definition text_or :: "string option \<Rightarrow> string \<Rightarrow> string" where
  "text_or x d = (case x of Some t \<Rightarrow> t | None \<Rightarrow> d)"

definition template_of :: "dict \<Rightarrow> string \<Rightarrow> string" where
  "template_of config key =
     (case get_none config ''messages'' of
        JObj messages \<Rightarrow>
          (case get_none messages key of JStr t \<Rightarrow> t | _ \<Rightarrow> text_or (dict_get default_messages key) [])
      | _ \<Rightarrow> text_or (dict_get default_messages key) [])"

definition render_message :: "fmt_ext \<Rightarrow> dict \<Rightarrow> string \<Rightarrow> dict \<Rightarrow> string res" where
  "render_message ext config key args =
     (let dflt = text_or (dict_get default_messages key) []
      in bindR (format_template ext (template_of config key) args) (\<lambda>rendered.
         case rendered of
           Some s \<Rightarrow> Inr (sanitize_text s)
         | None \<Rightarrow> bindR (format_template ext dflt args) (\<lambda>rendered.
                     Inr (sanitize_text (text_or rendered dflt)))))"

definition send_match_start :: "'w match_ops \<Rightarrow> dict \<Rightarrow> 'w match_state \<Rightarrow> 'w match_state res" where
  "send_match_start ops config st =
     bindR (render_message (fmt_fields ops) config ''tffa_start'' []) (\<lambda>line.
       emit ops config line StartGroup st)"

definition maybe_send_pending_match_start ::
  "'w match_ops \<Rightarrow> dict \<Rightarrow> 'w match_state \<Rightarrow> 'w match_state res" where
  "maybe_send_pending_match_start ops config st =
     (if \<not> pending_match_start st then Inr st
      else let (early, st) =
                 (case pending_match_start_at st of
                    None \<Rightarrow> (False, st)
                  | Some due \<Rightarrow> (let (t, st) = read_clock ops st in (t < due, st)))
           in if early then Inr st
              else let st = st\<lparr>pending_match_start := False, pending_match_start_at := None\<rparr>
                   in if match_start_sent st then Inr st
                      else send_match_start ops config (st\<lparr>match_start_sent := True\<rparr>))"

definition score_value :: "int option \<Rightarrow> json" where
  "score_value s = (case s of Some n \<Rightarrow> JInt n | None \<Rightarrow> JStr [])"

definition summary_key :: "int option \<Rightarrow> int option \<Rightarrow> string" where
  "summary_key red blue =
     (case (red, blue) of
        (Some r, Some b) \<Rightarrow> if r > b then ''tffa_end_red'' else if b > r then ''tffa_end_blue'' else ''tffa_end_draw''
      | _ \<Rightarrow> ''tffa_end_draw'')"

definition send_summary_and_reset :: "'w match_ops \<Rightarrow> dict \<Rightarrow> 'w match_state \<Rightarrow> 'w match_state res" where
  "send_summary_and_reset ops config st =
     (if summary_sent st then Inr st
      else let st = st\<lparr>summary_sent := True\<rparr>;
               red = final_red_score st;
               blue = final_blue_score st;
               args = [(''red_score'', score_value red), (''blue_score'', score_value blue)]
           in bindR (render_message (fmt_fields ops) config (summary_key red blue) args) (\<lambda>line.
              bindR (emit ops config line EndGroup st) (\<lambda>st. Inr (reset_match st))))"

subsection \<open>Events\<close>

text \<open>Both scores of a score line, read in sequence: a reading that fails leaves the rest unchanged.\<close>

definition read_scores :: "caps \<Rightarrow> 'w match_state \<Rightarrow> 'w match_state" where
  "read_scores cs st =
     (case py_int_text (group_text cs ''1'') of
        Inl _ \<Rightarrow> st
      | Inr red \<Rightarrow>
          (case py_int_text (group_text cs ''2'') of
             Inl _ \<Rightarrow> st\<lparr>final_red_score := Some red\<rparr>
           | Inr blue \<Rightarrow> st\<lparr>final_red_score := Some red, final_blue_score := Some blue\<rparr>))"

definition on_raw_line :: "'w match_ops \<Rightarrow> dict \<Rightarrow> string \<Rightarrow> 'w match_state \<Rightarrow> 'w match_state res" where
  "on_raw_line ops config raw st =
     (if raw = [] then Inr st
      else if re_search votepassed_re raw \<noteq> None
      then let (t, st) = read_clock ops (st\<lparr>armed := True\<rparr>) in Inr (st\<lparr>armed_at := Some t\<rparr>)
      else if \<not> match_started st then Inr st
      else if re_search exit_timelimit_re raw \<noteq> None \<or> re_search exit_killlimit_re raw \<noteq> None
      then Inr (st\<lparr>match_ending := True\<rparr>)
      else case re_search score_re raw of
             Some cs \<Rightarrow> (let st = read_scores cs st
                         in if \<not> summary_sent st then send_summary_and_reset ops config st else Inr st)
           | None \<Rightarrow> if \<not> summary_sent st \<and> is_final_scoreboard_broadcast raw
                     then send_summary_and_reset ops config st else Inr st)"

definition require_vote :: "dict \<Rightarrow> bool" where
  "require_vote config = truthy (get_default config ''require_map_restart_vote'' (JBool True))"

definition activate :: "'w match_ops \<Rightarrow> int \<Rightarrow> 'w match_state \<Rightarrow> 'w match_state" where
  "activate ops gametype st =
     (let st = disarm ((reset_match st)\<lparr>current_gametype := Some gametype, match_started := True\<rparr>);
          (t, st) = read_clock ops (st\<lparr>pending_match_start := True\<rparr>)
      in st\<lparr>pending_match_start_at := Some (t + match_start_delay_seconds)\<rparr>)"

definition on_init_game ::
  "'w match_ops \<Rightarrow> dict \<Rightarrow> int list \<Rightarrow> string \<Rightarrow> 'w match_state \<Rightarrow> 'w match_state" where
  "on_init_game ops config gametypes raw st =
     (case parse_gametype raw of
        None \<Rightarrow> disarm st
      | Some gametype \<Rightarrow>
          if gametype \<notin> set gametypes then disarm st
          else if require_vote config
          then let (ok, st) = is_armed_now ops st
               in if \<not> ok then disarm st else activate ops gametype st
          else activate ops gametype st)"

definition on_shutdown_game :: "'w match_ops \<Rightarrow> dict \<Rightarrow> 'w match_state \<Rightarrow> 'w match_state res" where
  "on_shutdown_game ops config st =
     (if \<not> match_started st then Inr st
      else if summary_sent st then Inr (reset_match st)
      else if match_ending st then send_summary_and_reset ops config st
      else Inr st)"

definition on_team_change :: "dict \<Rightarrow> 'w match_state \<Rightarrow> 'w match_state" where
  "on_team_change event st = st"

definition event_raw :: "dict \<Rightarrow> string" where
  "event_raw event = py_str (py_or (get_none event ''raw'') (JStr []))"

definition dispatch ::
  "'w match_ops \<Rightarrow> int list \<times> dict \<Rightarrow> dict \<Rightarrow> 'w match_state \<Rightarrow> 'w match_state res" where
  "dispatch ops cfg event st =
     (let etype = get_none event ''type''
      in if etype = JStr ''raw_line'' then on_raw_line ops (snd cfg) (event_raw event) st
         else if etype = JStr ''init_game'' then Inr (on_init_game ops (snd cfg) (fst cfg) (event_raw event) st)
         else if etype = JStr ''shutdown_game'' then on_shutdown_game ops (snd cfg) st
         else if etype = JStr ''team_change'' then Inr (on_team_change event st)
         else Inr st)"

definition handle_event ::
  "'w match_ops \<Rightarrow> int list \<times> dict \<Rightarrow> json \<Rightarrow> 'w match_state \<Rightarrow> 'w match_state res" where
  "handle_event ops cfg event st =
     (case event of
        JObj d \<Rightarrow> bindR (dispatch ops cfg d st) (maybe_send_pending_match_start ops (snd cfg))
      | _ \<Rightarrow> Inr st)"

definition tick :: "'w match_ops \<Rightarrow> int list \<times> dict \<Rightarrow> 'w match_state \<Rightarrow> 'w match_state res" where
  "tick ops cfg st = maybe_send_pending_match_start ops (snd cfg) st"

text \<open>What drives an instance: events, and ticks when the input is idle.\<close>

datatype match_input = Event json | Tick

definition match_step ::
  "'w match_ops \<Rightarrow> int list \<times> dict \<Rightarrow> match_input \<Rightarrow> 'w match_state \<Rightarrow> 'w match_state res" where
  "match_step ops cfg inp st = (case inp of Event e \<Rightarrow> handle_event ops cfg e st | Tick \<Rightarrow> tick ops cfg st)"

end
