(* ===== verification/Match_Spec.thy ===== *)
theory Match_Spec
  imports Match_State
begin

section \<open>The abstract match machine\<close>

text \<open>
  What \<open>MatchAnnouncer\<close> promises, without flags: it is passive or follows one match, and remembers
  when a restart vote passed.  An event is an observation with the clock readings at its handling.
  \<open>Match_Refine\<close> shows that the class implements this machine; this theory proves what the machine
  guarantees about the order, the number and the time of its notices.
\<close>

datatype obs =
    ObsVote | ObsExit | ObsScore "int option" "int option" | ObsBoard
  | ObsInit "int option" | ObsShutdown | ObsNone

datatype a_input = Junk | Pump obs

datatype phase = Passive | Running (due: "rat option") (ending: bool)

record abs_state =
  a_armed :: "rat option"
  a_phase :: phase

datatype notice = StartNotice | EndNotice "int option" "int option"

fun is_end :: "notice \<Rightarrow> bool" where
  "is_end StartNotice = False" | "is_end (EndNotice _ _) = True"

type_synonym rules = "bool \<times> int list"  \<comment> \<open>is a vote required, the supported game types\<close>

text \<open>The readings of one event: the arming check, the activation, the deferred start.\<close>

type_synonym readings3 = "rat \<times> rat \<times> rat"

fun vote_valid :: "rules \<Rightarrow> rat option \<Rightarrow> rat \<Rightarrow> bool" where
  "vote_valid (rv, gts) since t =
     (\<not> rv \<or> (case since of None \<Rightarrow> False | Some s \<Rightarrow> t - s \<le> map_restart_arm_seconds))"

fun end_match :: "int option \<Rightarrow> int option \<Rightarrow> abs_state \<Rightarrow> abs_state \<times> notice list" where
  "end_match r b a = (case a_phase a of
     Passive \<Rightarrow> (a, []) | Running _ _ \<Rightarrow> (a\<lparr>a_phase := Passive\<rparr>, [EndNotice r b]))"

fun observe :: "rules \<Rightarrow> obs \<Rightarrow> readings3 \<Rightarrow> abs_state \<Rightarrow> abs_state \<times> notice list" where
  "observe ru ObsVote (t1, t2, t3) a = (a\<lparr>a_armed := Some t1\<rparr>, [])"
| "observe ru ObsExit ts a = (case a_phase a of
     Passive \<Rightarrow> (a, []) | Running d e \<Rightarrow> (a\<lparr>a_phase := Running d True\<rparr>, []))"
| "observe ru (ObsScore r b) ts a = end_match r b a"
| "observe ru ObsBoard ts a = end_match None None a"
| "observe ru (ObsInit g) (t1, t2, t3) a =
     (case g of
        Some gt \<Rightarrow>
          if gt \<in> set (snd ru) \<and> vote_valid ru (a_armed a) t1
          then (\<lparr>a_armed = None, a_phase = Running (Some (t2 + match_start_delay_seconds)) False\<rparr>, [])
          else (a\<lparr>a_armed := None\<rparr>, [])
      | None \<Rightarrow> (a\<lparr>a_armed := None\<rparr>, []))"
| "observe ru ObsShutdown ts a = (case a_phase a of
     Running d True \<Rightarrow> end_match None None a | _ \<Rightarrow> (a, []))"
| "observe ru ObsNone ts a = (a, [])"

fun pump :: "rat \<Rightarrow> abs_state \<Rightarrow> abs_state \<times> notice list" where
  "pump t a = (case a_phase a of
     Running (Some d) e \<Rightarrow>
       if t < d then (a, []) else (a\<lparr>a_phase := Running None e\<rparr>, [StartNotice])
   | _ \<Rightarrow> (a, []))"

fun a_step :: "rules \<Rightarrow> a_input \<times> readings3 \<Rightarrow> abs_state \<Rightarrow> abs_state \<times> notice list" where
  "a_step ru (Junk, ts) a = (a, [])"
| "a_step ru (Pump obs, ts) a =
     (let (a1, n1) = observe ru obs ts a; (a2, n2) = pump (snd (snd ts)) a1 in (a2, n1 @ n2))"

text \<open>A run, with the notices of each step.\<close>

fun a_run :: "rules \<Rightarrow> (a_input \<times> readings3) list \<Rightarrow> abs_state \<Rightarrow> abs_state \<times> notice list list" where
  "a_run ru [] a = (a, [])"
| "a_run ru (x # xs) a =
     (let (a1, n) = a_step ru x a; (a2, ns) = a_run ru xs a1 in (a2, n # ns))"

definition a_init :: abs_state where
  "a_init = \<lparr>a_armed = None, a_phase = Passive\<rparr>"

subsection \<open>What the machine guarantees\<close>

text \<open>
  An accounting of matches: an end notice uses up a running match, a start notice a pending one, an
  activation a vote.
\<close>

definition run_credit :: "abs_state \<Rightarrow> nat" where
  "run_credit a = (case a_phase a of Passive \<Rightarrow> 0 | Running _ _ \<Rightarrow> 1)"

definition start_credit :: "abs_state \<Rightarrow> nat" where
  "start_credit a = (case a_phase a of Running (Some _) _ \<Rightarrow> 1 | _ \<Rightarrow> 0)"

definition vote_credit :: "abs_state \<Rightarrow> nat" where
  "vote_credit a = (case a_armed a of None \<Rightarrow> 0 | Some _ \<Rightarrow> 1)"

fun is_vote :: "a_input \<Rightarrow> bool" where
  "is_vote (Pump ObsVote) = True" | "is_vote _ = False"

fun is_init :: "rules \<Rightarrow> a_input \<Rightarrow> bool" where
  "is_init ru (Pump (ObsInit (Some g))) = (g \<in> set (snd ru))" | "is_init ru _ = False"

definition ends :: "notice list \<Rightarrow> nat" where "ends ns = length (filter is_end ns)"
definition starts :: "notice list \<Rightarrow> nat" where "starts ns = length (filter (\<lambda>n. \<not> is_end n) ns)"

lemma ends_simps [simp]:
  "ends [] = 0" "ends (n # ns) = (if is_end n then 1 else 0) + ends ns" "ends (ns @ ms) = ends ns + ends ms"
  "starts [] = 0" "starts (n # ns) = (if is_end n then 0 else 1) + starts ns"
  "starts (ns @ ms) = starts ns + starts ms"
  by (simp_all add: ends_def starts_def)

lemma pump_credits:
  "pump t a = (a', ns) \<Longrightarrow> run_credit a' = run_credit a \<and> vote_credit a' = vote_credit a \<and> ends ns = 0 \<and>
     starts ns + start_credit a' = start_credit a"
  by (auto simp: run_credit_def start_credit_def vote_credit_def split: phase.splits option.splits if_splits)

lemma end_match_credits:
  "end_match r b a = (a', ns) \<Longrightarrow> ends ns + run_credit a' = run_credit a \<and> starts ns = 0 \<and>
     start_credit a' \<le> start_credit a \<and> vote_credit a' = vote_credit a"
  by (auto simp: run_credit_def start_credit_def vote_credit_def split: phase.splits)

lemma credit_le_1: "run_credit a \<le> 1" "start_credit a \<le> 1" "vote_credit a \<le> 1"
  by (simp_all add: run_credit_def start_credit_def vote_credit_def split: phase.splits option.splits)

lemma vote_valid_credit: "fst ru \<Longrightarrow> vote_valid ru (a_armed a) t \<Longrightarrow> vote_credit a = 1"
  by (cases ru) (auto simp: vote_credit_def split: option.splits)

text \<open>An observation: without a required vote an activation pays for a match, with one the vote does.\<close>

lemma observe_credits:
  assumes "observe ru ob (t1, t2, t3) a = (a', ns)"
  shows "starts ns = 0 \<and>
    ends ns + run_credit a' \<le> run_credit a + (if is_init ru (Pump ob) then 1 else 0) \<and>
    start_credit a' \<le> start_credit a + (if is_init ru (Pump ob) then 1 else 0) \<and>
    (fst ru \<longrightarrow> ends ns + run_credit a' + vote_credit a' \<le>
       run_credit a + vote_credit a + (if is_vote (Pump ob) then 1 else 0)) \<and>
    (fst ru \<longrightarrow> start_credit a' + vote_credit a' \<le>
       start_credit a + vote_credit a + (if is_vote (Pump ob) then 1 else 0))"
proof (cases ob)
  case ObsVote
  with assms show ?thesis by (auto simp: run_credit_def start_credit_def vote_credit_def)
next
  case ObsExit
  with assms show ?thesis
    by (auto simp: run_credit_def start_credit_def vote_credit_def split: phase.splits option.splits)
next
  case (ObsScore r b)
  with assms end_match_credits [of r b a a' ns] show ?thesis by (auto simp del: end_match.simps)
next
  case ObsBoard
  with assms end_match_credits [of None None a a' ns] show ?thesis by (auto simp del: end_match.simps)
next
  case ObsShutdown
  with assms end_match_credits [of None None a a' ns] show ?thesis
    by (auto simp del: end_match.simps split: phase.splits bool.splits)
next
  case ObsNone
  with assms show ?thesis by simp
next
  case (ObsInit g)
  show ?thesis
  proof (cases "\<exists>gt. g = Some gt \<and> gt \<in> set (snd ru) \<and> vote_valid ru (a_armed a) t1")
    case True
    then obtain gt where gt: "g = Some gt" "gt \<in> set (snd ru)" "vote_valid ru (a_armed a) t1" by blast
    with assms ObsInit have "ns = []" "run_credit a' = 1" "start_credit a' = 1" "vote_credit a' = 0"
      by (auto simp: run_credit_def start_credit_def vote_credit_def simp del: vote_valid.simps)
    with gt ObsInit vote_valid_credit [of ru a t1] show ?thesis by simp
  next
    case False
    with assms ObsInit have "ns = []" "a' = a\<lparr>a_armed := None\<rparr>"
      by (auto simp del: vote_valid.simps split: option.splits)
    then show ?thesis by (simp add: run_credit_def start_credit_def vote_credit_def split: phase.splits option.splits)
  qed
qed

lemma credits_step:
  assumes "a_step ru (i, ts) a = (a', ns)"
  shows "ends ns + run_credit a' \<le> run_credit a + (if is_init ru i then 1 else 0) \<and>
    starts ns + start_credit a' \<le> start_credit a + (if is_init ru i then 1 else 0) \<and>
    (fst ru \<longrightarrow> ends ns + run_credit a' + vote_credit a' \<le>
           run_credit a + vote_credit a + (if is_vote i then 1 else 0)) \<and>
    (fst ru \<longrightarrow> starts ns + start_credit a' + vote_credit a' \<le>
           start_credit a + vote_credit a + (if is_vote i then 1 else 0))"
proof (cases i)
  case Junk
  with assms show ?thesis by simp
next
  case (Pump ob)
  obtain t1 t2 t3 where ts: "ts = (t1, t2, t3)" by (cases ts) auto
  obtain a1 n1 where o: "observe ru ob (t1, t2, t3) a = (a1, n1)" by (metis surj_pair)
  obtain a2 n2 where p: "pump t3 a1 = (a2, n2)" by (metis surj_pair)
  from assms have "a' = a2" "ns = n1 @ n2" using o p by (simp_all add: Pump ts del: pump.simps)
  with observe_credits [OF o] pump_credits [OF p] show ?thesis unfolding Pump
    by (cases "fst ru") auto
qed

text \<open>A run: notices are paid for by the inputs.\<close>

definition inits :: "rules \<Rightarrow> (a_input \<times> readings3) list \<Rightarrow> nat" where
  "inits ru xs = length (filter (\<lambda>x. is_init ru (fst x)) xs)"

definition votes :: "(a_input \<times> readings3) list \<Rightarrow> nat" where
  "votes xs = length (filter (\<lambda>x. is_vote (fst x)) xs)"

lemma inits_votes_simps [simp]:
  "inits ru [] = 0" "inits ru (x # xs) = (if is_init ru (fst x) then 1 else 0) + inits ru xs"
  "votes [] = 0" "votes (x # xs) = (if is_vote (fst x) then 1 else 0) + votes xs"
  by (simp_all add: inits_def votes_def)

lemma a_run_Cons:
  assumes "a_run ru (x # xs) a = (a', nss)"
  obtains a1 n ns where "a_step ru x a = (a1, n)" "a_run ru xs a1 = (a', ns)" "nss = n # ns"
  using assms by (auto split: prod.splits)

lemma credits_run:
  "a_run ru xs a = (a', nss) \<Longrightarrow>
   ends (concat nss) + run_credit a' \<le> run_credit a + inits ru xs \<and>
   starts (concat nss) + start_credit a' \<le> start_credit a + inits ru xs \<and>
   (fst ru \<longrightarrow> ends (concat nss) + run_credit a' + vote_credit a' \<le> run_credit a + vote_credit a + votes xs) \<and>
   (fst ru \<longrightarrow> starts (concat nss) + start_credit a' + vote_credit a' \<le>
      start_credit a + vote_credit a + votes xs)"
proof (induction xs arbitrary: a nss)
  case (Cons x xs)
  obtain i ts where x: "x = (i, ts)" by (cases x)
  from Cons.prems obtain a1 n ns where r: "a_step ru (i, ts) a = (a1, n)" "a_run ru xs a1 = (a', ns)"
    "nss = n # ns" unfolding x by (rule a_run_Cons)
  from Cons.IH [OF r(2)] credits_step [OF r(1)] show ?case by (cases "fst ru") (simp_all add: r(3) x)
qed simp

subsection \<open>Causes\<close>

text \<open>A vote in the history that is still valid at \<open>t\<close>, and an activation at \<open>t\<close>.\<close>

definition voted :: "rules \<Rightarrow> (a_input \<times> readings3) list \<Rightarrow> rat \<Rightarrow> bool" where
  "voted ru xs t \<longleftrightarrow> \<not> fst ru \<or>
     (\<exists>ps tv r qs. xs = ps @ (Pump ObsVote, tv, r) # qs \<and> t - tv \<le> map_restart_arm_seconds)"

definition activated :: "rules \<Rightarrow> (a_input \<times> readings3) list \<Rightarrow> rat \<Rightarrow> bool" where
  "activated ru xs t \<longleftrightarrow>
     (\<exists>ps gt t1 t3 qs. xs = ps @ (Pump (ObsInit (Some gt)), t1, t, t3) # qs \<and> gt \<in> set (snd ru) \<and>
        voted ru ps t1)"

lemma activated_append: "activated ru xs t \<Longrightarrow> activated ru (xs @ ys) t"
  unfolding activated_def by (metis append.assoc append_Cons)

definition explained :: "rules \<Rightarrow> (a_input \<times> readings3) list \<Rightarrow> abs_state \<Rightarrow> bool" where
  "explained ru xs a \<longleftrightarrow>
     (\<forall>s. a_armed a = Some s \<longrightarrow> (\<exists>ps r qs. xs = ps @ (Pump ObsVote, s, r) # qs)) \<and>
     (\<forall>d e. a_phase a = Running d e \<longrightarrow> (\<exists>t. activated ru xs t \<and> (\<forall>x. d = Some x \<longrightarrow> x = t + match_start_delay_seconds)))"

lemma vote_valid_voted:
  "explained ru xs a \<Longrightarrow> vote_valid ru (a_armed a) t \<Longrightarrow> voted ru xs t"
  by (cases ru) (fastforce simp: explained_def voted_def split: option.splits)

lemma explained_observe:
  assumes "explained ru xs a" "observe ru ob (t1, t2, t3) a = (a', ns)"
  shows "explained ru (xs @ [(Pump ob, t1, t2, t3)]) a'"
proof -
  let ?x = "(Pump ob, t1, t2, t3)"
  have keep: "explained ru (xs @ [?x]) b"
    if "a_armed b = a_armed a \<or> a_armed b = None \<or> (ob = ObsVote \<and> a_armed b = Some t1)"
      "\<And>d e. a_phase b = Running d e \<Longrightarrow> \<exists>e'. a_phase a = Running d e'" for b
    unfolding explained_def
  proof (intro conjI allI impI)
    fix s assume "a_armed b = Some s"
    with that(1) consider "a_armed a = Some s" | "ob = ObsVote" "s = t1" by auto
    then show "\<exists>ps r qs. xs @ [?x] = ps @ (Pump ObsVote, s, r) # qs"
    proof cases
      case 1
      with assms(1) obtain ps r qs where "xs = ps @ (Pump ObsVote, s, r) # qs"
        unfolding explained_def by blast
      then show ?thesis by (metis append.assoc append_Cons)
    qed auto
  next
    fix d e assume "a_phase b = Running d e"
    with that(2) obtain e' where "a_phase a = Running d e'" by blast
    with assms(1) show "\<exists>t. activated ru (xs @ [?x]) t \<and> (\<forall>x. d = Some x \<longrightarrow> x = t + match_start_delay_seconds)"
      unfolding explained_def by (metis activated_append)
  qed
  show ?thesis
  proof (cases "\<exists>gt. ob = ObsInit (Some gt) \<and> gt \<in> set (snd ru) \<and> vote_valid ru (a_armed a) t1")
    case True
    then obtain gt where gt: "ob = ObsInit (Some gt)" "gt \<in> set (snd ru)" "vote_valid ru (a_armed a) t1" by blast
    with vote_valid_voted [OF assms(1) gt(3)] have "activated ru (xs @ [?x]) t2"
      unfolding activated_def by blast
    with gt assms(2) show ?thesis by (auto simp: explained_def)
  next
    case False
    with assms(2) show ?thesis
      by (intro keep; cases ob; cases "a_phase a") (auto split: option.splits if_splits bool.splits)
  qed
qed

lemma explained_pump:
  "explained ru xs a \<Longrightarrow> pump t a = (a', ns) \<Longrightarrow> explained ru xs a'"
  by (auto simp: explained_def split: phase.splits option.splits if_splits)

lemma explained_keep: "explained ru xs a \<Longrightarrow> explained ru (xs @ [(Junk, ts)]) a"
  unfolding explained_def by (metis activated_append append.assoc append_Cons)

lemma a_step_Pump:
  assumes "a_step ru (Pump ob, ts) a = (a', ns)"
  obtains a1 n1 n2 where "observe ru ob ts a = (a1, n1)" "pump (snd (snd ts)) a1 = (a', n2)" "ns = n1 @ n2"
  using assms by (auto simp del: pump.simps split: prod.splits)

lemma explained_step:
  assumes "explained ru xs a" "a_step ru (i, t1, t2, t3) a = (a', ns)"
  shows "explained ru (xs @ [(i, t1, t2, t3)]) a'"
proof (cases i)
  case Junk
  with assms show ?thesis by (auto intro: explained_keep)
next
  case (Pump ob)
  from assms(2) [unfolded Pump] obtain a1 n1 n2 where
    "observe ru ob (t1, t2, t3) a = (a1, n1)" "pump t3 a1 = (a', n2)"
    by (rule a_step_Pump) simp
  with assms(1) show ?thesis unfolding Pump by (blast intro: explained_pump explained_observe)
qed

lemma explained_run: "explained ru pre a \<Longrightarrow> a_run ru xs a = (a', nss) \<Longrightarrow> explained ru (pre @ xs) a'"
proof (induction xs arbitrary: pre a nss)
  case (Cons x xs)
  from Cons.prems(2) obtain a1 n ns where r: "a_step ru x a = (a1, n)" "a_run ru xs a1 = (a', ns)"
    by (rule a_run_Cons)
  obtain i t1 t2 t3 where x: "x = (i, t1, t2, t3)" by (cases x) auto
  from Cons.IH [OF explained_step [OF Cons.prems(1) r(1) [unfolded x]] r(2)] show ?case by (simp add: x)
qed simp

lemma explained_init: "explained ru [] a_init"
  by (simp add: explained_def a_init_def)

lemma a_run_nth:
  "a_run ru xs a = (a', nss) \<Longrightarrow> i < length xs \<Longrightarrow>
   \<exists>b c. a_run ru (take i xs) a = (b, take i nss) \<and> a_step ru (xs ! i) b = (c, nss ! i)"
proof (induction xs arbitrary: a nss i)
  case (Cons x xs)
  from Cons.prems(1) obtain a1 n ns where r: "a_step ru x a = (a1, n)" "a_run ru xs a1 = (a', ns)" "nss = n # ns"
    by (rule a_run_Cons)
  show ?case
  proof (cases i)
    case 0
    with r show ?thesis by (cases x) auto
  next
    case (Suc k)
    with Cons.IH [OF r(2), of k] Cons.prems(2) r show ?thesis by auto
  qed
qed simp

lemma observe_no_start: "observe ru ob ts a = (a', ns) \<Longrightarrow> StartNotice \<notin> set ns"
  by (cases ts; cases ob; cases "a_phase a") (auto split: option.splits if_splits bool.splits)

lemma observe_end:
  "observe ru ob ts a = (a', ns) \<Longrightarrow> EndNotice r b \<in> set ns \<Longrightarrow>
   (\<exists>d e. a_phase a = Running d e) \<and>
   (ob = ObsScore r b \<or> r = None \<and> b = None \<and> (ob = ObsBoard \<or> ob = ObsShutdown \<and> (\<exists>d. a_phase a = Running d True)))"
  by (cases ts; cases ob; cases "a_phase a") (auto split: option.splits if_splits bool.splits)

lemma pump_notices:
  "pump t a = (a', ns) \<Longrightarrow> n \<in> set ns \<Longrightarrow> n = StartNotice \<and> (\<exists>d e. a_phase a = Running (Some d) e \<and> d \<le> t)"
  by (auto split: phase.splits option.splits if_splits)

lemma step_start_caused:
  assumes "explained ru pre a" "a_step ru x a = (a', ns)" "StartNotice \<in> set ns"
  shows "\<exists>t. activated ru (pre @ [x]) t \<and> t + match_start_delay_seconds \<le> snd (snd (snd x))"
proof -
  obtain i ts where x: "x = (i, ts)" by (cases x)
  from assms(2,3) obtain ob where ob: "i = Pump ob" unfolding x by (cases i) auto
  from assms(2) [unfolded x ob] obtain a1 n1 n2 where
    o: "observe ru ob ts a = (a1, n1)" "pump (snd (snd ts)) a1 = (a', n2)" "ns = n1 @ n2" by (rule a_step_Pump)
  from observe_no_start [OF o(1)] assms(3) o(3) have "StartNotice \<in> set n2" by simp
  from pump_notices [OF o(2) this] obtain d e where d: "a_phase a1 = Running (Some d) e" "d \<le> snd (snd ts)" by auto
  obtain t1 t2 t3 where ts: "ts = (t1, t2, t3)" by (cases ts) auto
  from explained_observe [OF assms(1) o(1) [unfolded ts]] d(1) obtain t where
    "activated ru (pre @ [x]) t" "d = t + match_start_delay_seconds" unfolding explained_def x ob ts by blast
  with d(2) show ?thesis by (auto simp: x)
qed

lemma step_end_caused:
  assumes "explained ru pre a" "a_step ru x a = (a', ns)" "EndNotice r b \<in> set ns"
  shows "(\<exists>t. activated ru pre t) \<and>
    (fst x = Pump (ObsScore r b) \<or> r = None \<and> b = None \<and> (fst x = Pump ObsBoard \<or> fst x = Pump ObsShutdown))"
proof -
  obtain i ts where x: "x = (i, ts)" by (cases x)
  from assms(2,3) obtain ob where ob: "i = Pump ob" unfolding x by (cases i) auto
  from assms(2) [unfolded x ob] obtain a1 n1 n2 where
    o: "observe ru ob ts a = (a1, n1)" "pump (snd (snd ts)) a1 = (a', n2)" "ns = n1 @ n2" by (rule a_step_Pump)
  from pump_notices [OF o(2)] assms(3) o(3) have n1: "EndNotice r b \<in> set n1" by auto
  from observe_end [OF o(1) n1] assms(1) show ?thesis by (fastforce simp: explained_def x ob)
qed

end
