(* ===== verification/Match_Refine.thy ===== *)
theory Match_Refine
  imports Match_Spec
begin

section \<open>\<open>MatchAnnouncer\<close> implements the abstract match machine\<close>

text \<open>
  The observation an input stands for, the abstract state of an instance, the invariant of its flags,
  and the simulation: every step of the class is a step of the machine of \<open>Match_Spec\<close> with clock
  readings taken while it ran, and emits the lines of that step's notices.  The interface is the
  locale \<open>match_world\<close>: a clock that does not run backwards and a sender that takes no time away.
\<close>

definition score_obs :: "caps \<Rightarrow> obs" where
  "score_obs cs =
     (case py_int_text (group_text cs ''1'') of
        Inl _ \<Rightarrow> ObsScore None None
      | Inr red \<Rightarrow> (case py_int_text (group_text cs ''2'') of
                     Inl _ \<Rightarrow> ObsScore (Some red) None | Inr blue \<Rightarrow> ObsScore (Some red) (Some blue)))"

definition classify_raw :: "string \<Rightarrow> obs" where
  "classify_raw raw =
     (if raw = [] then ObsNone
      else if re_search votepassed_re raw \<noteq> None then ObsVote
      else if re_search exit_timelimit_re raw \<noteq> None \<or> re_search exit_killlimit_re raw \<noteq> None then ObsExit
      else case re_search score_re raw of
             Some cs \<Rightarrow> score_obs cs
           | None \<Rightarrow> if is_final_scoreboard_broadcast raw then ObsBoard else ObsNone)"

definition classify_event :: "dict \<Rightarrow> obs" where
  "classify_event event =
     (let etype = get_none event ''type''
      in if etype = JStr ''raw_line'' then classify_raw (event_raw event)
         else if etype = JStr ''init_game'' then ObsInit (parse_gametype (event_raw event))
         else if etype = JStr ''shutdown_game'' then ObsShutdown
         else ObsNone)"

fun classify :: "match_input \<Rightarrow> a_input" where
  "classify (Event (JObj d)) = Pump (classify_event d)"
| "classify (Event _) = Junk"
| "classify Tick = Pump ObsNone"

definition rules_of :: "int list \<times> dict \<Rightarrow> rules" where
  "rules_of cfg = (require_vote (snd cfg), fst cfg)"

definition abs_of :: "('a, 'b) match_state_scheme \<Rightarrow> abs_state" where
  "abs_of st = \<lparr>a_armed = armed_at st,
     a_phase = (if match_started st then Running (pending_match_start_at st) (match_ending st) else Passive)\<rparr>"

definition match_inv :: "int list \<Rightarrow> ('a, 'b) match_state_scheme \<Rightarrow> bool" where
  "match_inv gts st \<longleftrightarrow>
     (armed st \<longleftrightarrow> armed_at st \<noteq> None) \<and> \<not> summary_sent st \<and>
     (pending_match_start st \<longleftrightarrow> pending_match_start_at st \<noteq> None) \<and>
     (pending_match_start st \<longrightarrow> match_started st) \<and>
     (match_start_sent st \<longleftrightarrow> match_started st \<and> \<not> pending_match_start st) \<and>
     (match_ending st \<longrightarrow> match_started st) \<and>
     final_red_score st = None \<and> final_blue_score st = None \<and>
     (match_started st \<longleftrightarrow> current_gametype st \<noteq> None) \<and>
     (\<forall>g. current_gametype st = Some g \<longrightarrow> g \<in> set gts)"

definition lines_of :: "msg_group \<Rightarrow> string \<Rightarrow> (msg_group \<times> string) list" where
  "lines_of g text = (let line = strip text in if line = [] then [] else [(g, take max_svsay_line_length line)])"

definition notice_text :: "fmt_ext \<Rightarrow> dict \<Rightarrow> notice \<Rightarrow> string res" where
  "notice_text ext config n =
     (case n of
        StartNotice \<Rightarrow> render_message ext config ''tffa_start'' []
      | EndNotice red blue \<Rightarrow> render_message ext config (summary_key red blue)
          [(''red_score'', score_value red), (''blue_score'', score_value blue)])"

definition notice_lines :: "fmt_ext \<Rightarrow> dict \<Rightarrow> notice \<Rightarrow> (msg_group \<times> string) list" where
  "notice_lines ext config n =
     (case notice_text ext config n of
        Inl _ \<Rightarrow> []
      | Inr text \<Rightarrow> lines_of (if is_end n then EndGroup else StartGroup) text)"

lemma match_inv_init: "match_inv gts (match_init w)"
  by (simp add: match_inv_def match_init_def reset_all_def reset_match_def disarm_def)

lemma abs_of_init: "abs_of (match_init w) = a_init"
  by (simp add: abs_of_def match_init_def reset_all_def reset_match_def disarm_def a_init_def)

text \<open>The world does not enter the invariant or the abstract state.\<close>

lemma abs_of_world [simp]: "abs_of (st\<lparr>world := w\<rparr>) = abs_of st" "abs_of (st\<lparr>emitted := e\<rparr>) = abs_of st"
  by (simp_all add: abs_of_def)

lemma match_inv_world [simp]:
  "match_inv gts (st\<lparr>world := w\<rparr>) = match_inv gts st" "match_inv gts (st\<lparr>emitted := e\<rparr>) = match_inv gts st"
  by (simp_all add: match_inv_def)

text \<open>An observation handled between two states, and a whole step.\<close>

definition observed ::
  "('w \<Rightarrow> rat) \<Rightarrow> fmt_ext \<Rightarrow> int list \<times> dict \<Rightarrow> obs \<Rightarrow> 'w match_state \<Rightarrow> 'w match_state \<Rightarrow> bool" where
  "observed now ext cfg ob st st' \<longleftrightarrow>
     (\<exists>t1 t2 ns. now (world st) \<le> t1 \<and> t1 \<le> t2 \<and> t2 \<le> now (world st') \<and>
        (\<forall>t3. observe (rules_of cfg) ob (t1, t2, t3) (abs_of st) = (abs_of st', ns)) \<and>
        match_inv (fst cfg) st' \<and> emitted st' = emitted st @ concat (map (notice_lines ext (snd cfg)) ns))"

definition simulated ::
  "('w \<Rightarrow> rat) \<Rightarrow> fmt_ext \<Rightarrow> int list \<times> dict \<Rightarrow> a_input \<Rightarrow> 'w match_state \<Rightarrow> 'w match_state \<Rightarrow> bool" where
  "simulated now ext cfg x st st' \<longleftrightarrow>
     (\<exists>t1 t2 t3 ns. now (world st) \<le> t1 \<and> t1 \<le> t2 \<and> t2 \<le> t3 \<and> t3 \<le> now (world st') \<and>
        a_step (rules_of cfg) (x, t1, t2, t3) (abs_of st) = (abs_of st', ns) \<and>
        match_inv (fst cfg) st' \<and> emitted st' = emitted st @ concat (map (notice_lines ext (snd cfg)) ns))"

lemma observedI:
  assumes "now (world st) \<le> t1" "t1 \<le> t2" "t2 \<le> now (world st')"
    and "\<And>t3. observe (rules_of cfg) ob (t1, t2, t3) (abs_of st) = (abs_of st', ns)"
    and "match_inv (fst cfg) st'" "emitted st' = emitted st @ concat (map (notice_lines ext (snd cfg)) ns)"
  shows "observed now ext cfg ob st st'"
  using assms unfolding observed_def by blast

text \<open>Handling that only changes flags, and takes no reading.\<close>

lemma observed_silent:
  assumes "world st' = world st" "emitted st' = emitted st" "match_inv (fst cfg) st'"
    and "\<And>ts. observe (rules_of cfg) ob ts (abs_of st) = (abs_of st', [])"
  shows "observed now ext cfg ob st st'"
  using assms by (intro observedI [of now st "now (world st)" "now (world st)" _ _ _ "[]"]) simp_all

text \<open>Readings in the order in which they were taken.\<close>

fun timed :: "rat \<Rightarrow> (a_input \<times> readings3) list \<Rightarrow> rat \<Rightarrow> bool" where
  "timed lo [] hi \<longleftrightarrow> lo \<le> hi"
| "timed lo ((i, t1, t2, t3) # xs) hi \<longleftrightarrow> lo \<le> t1 \<and> t1 \<le> t2 \<and> t2 \<le> t3 \<and> timed t3 xs hi"

lemma timed_weaken: "timed lo xs hi \<Longrightarrow> l \<le> lo \<Longrightarrow> timed l xs hi"
  by (cases "(lo, xs, hi)" rule: timed.cases) auto

definition run_simulated ::
  "('w \<Rightarrow> rat) \<Rightarrow> fmt_ext \<Rightarrow> int list \<times> dict \<Rightarrow> match_input list \<Rightarrow> (a_input \<times> readings3) list \<Rightarrow>
   notice list list \<Rightarrow> 'w match_state \<Rightarrow> 'w match_state \<Rightarrow> bool" where
  "run_simulated now ext cfg inps xs nss st st' \<longleftrightarrow>
     map fst xs = map classify inps \<and> timed (now (world st)) xs (now (world st')) \<and>
     a_run (rules_of cfg) xs (abs_of st) = (abs_of st', nss) \<and> match_inv (fst cfg) st' \<and>
     emitted st' = emitted st @ concat (map (notice_lines ext (snd cfg)) (concat nss))"

locale match_world =
  fixes ops :: "'w match_ops"
    and now :: "'w \<Rightarrow> rat"
  assumes clock_now: "clock ops w = (t, w') \<Longrightarrow> now w \<le> t \<and> t \<le> now w'"
    and send_now: "send ops line cmd w = (r, w') \<Longrightarrow> now w \<le> now w'"
begin

lemma read_clock_world:
  assumes "read_clock ops st = (t, st')"
  obtains w where "st' = st\<lparr>world := w\<rparr>" "now (world st) \<le> t" "t \<le> now w"
  using assms clock_now by (auto simp: read_clock_def split: prod.splits)

lemma call_send_world:
  assumes "call_send ops line cmd st = (r, st')"
  obtains w where "st' = st\<lparr>world := w\<rparr>" "now (world st) \<le> now w"
  using assms send_now by (auto simp: call_send_def split: prod.splits)

lemma emit_lines:
  assumes "emit ops config text g st = Inr st'"
  obtains w where "st' = st\<lparr>world := w, emitted := emitted st @ lines_of g text\<rparr>" "now (world st) \<le> now w"
proof (cases "strip text = []")
  case True
  with assms have "st' = st\<lparr>world := world st, emitted := emitted st @ lines_of g text\<rparr>"
    by (simp add: emit_def lines_of_def)
  then show thesis by (rule that) simp
next
  case False
  let ?line = "take max_svsay_line_length (strip text)"
  let ?st = "st\<lparr>emitted := emitted st @ [(g, ?line)]\<rparr>"
  have cut: "(if length l > n then take n l else l) = take n l" for l :: string and n by simp
  obtain r st1 where c: "call_send ops ?line (Some (command_for_group config g)) ?st = (r, st1)" by (metis surj_pair)
  obtain w1 where w1: "st1 = ?st\<lparr>world := w1\<rparr>" "now (world st) \<le> now w1"
    using c by (rule call_send_world) simp
  obtain r' st2 where c': "call_send ops ?line None st1 = (r', st2)" by (metis surj_pair)
  obtain w2 where w2: "st2 = st1\<lparr>world := w2\<rparr>" "now w1 \<le> now w2"
    using c' w1 by (auto elim: call_send_world)
  from assms False c c' have "st' = st1 \<or> st' = st2"
    unfolding emit_def Let_def cut by (auto simp: bindR_eq_Inr split: sum.splits if_splits)
  then obtain w3 where "st' = ?st\<lparr>world := w3\<rparr>" "now (world st) \<le> now w3"
    using w1 w2 by auto
  then show thesis using False by (intro that [of w3]) (simp_all add: lines_of_def)
qed

text \<open>The end of a match.\<close>

lemma send_summary_lines:
  assumes "send_summary_and_reset ops config st = Inr st'" "\<not> summary_sent st"
  obtains w where "st' = (reset_match st)\<lparr>world := w,
      emitted := emitted st @ notice_lines (fmt_fields ops) config
        (EndNotice (final_red_score st) (final_blue_score st))\<rparr>" "now (world st) \<le> now w"
proof -
  from assms obtain msg st1 where
    t: "notice_text (fmt_fields ops) config (EndNotice (final_red_score st) (final_blue_score st)) = Inr msg"
    and e: "emit ops config msg EndGroup (st\<lparr>summary_sent := True\<rparr>) = Inr st1" and st': "st' = reset_match st1"
    by (auto simp: send_summary_and_reset_def notice_text_def bindR_eq_Inr Let_def)
  from e obtain w where "st1 = st\<lparr>summary_sent := True, world := w,
      emitted := emitted st @ lines_of EndGroup msg\<rparr>" "now (world st) \<le> now w"
    by (rule emit_lines) simp
  with st' t show thesis by (intro that [of w]) (simp_all add: reset_match_def notice_lines_def)
qed

text \<open>The deferred start.\<close>

lemma pump_refines:
  assumes "maybe_send_pending_match_start ops config st = Inr st'" "match_inv gts st"
  shows "\<exists>t ns. now (world st) \<le> t \<and> t \<le> now (world st') \<and> pump t (abs_of st) = (abs_of st', ns) \<and>
    match_inv gts st' \<and> emitted st' = emitted st @ concat (map (notice_lines (fmt_fields ops) config) ns)"
proof (cases "pending_match_start_at st")
  case None
  with assms have "st' = st" by (simp add: maybe_send_pending_match_start_def match_inv_def)
  with None assms(2) show ?thesis
    by (intro exI [of _ "now (world st)"] exI [of _ "[]"]) (simp add: abs_of_def)
next
  case (Some d)
  with assms(2) have inv: "pending_match_start st" "match_started st" "\<not> match_start_sent st"
    by (auto simp: match_inv_def)
  obtain t st1 where c: "read_clock ops st = (t, st1)" by (metis surj_pair)
  obtain w where w: "st1 = st\<lparr>world := w\<rparr>" "now (world st) \<le> t" "t \<le> now w"
    using c by (rule read_clock_world)
  show ?thesis
  proof (cases "t < d")
    case True
    with assms(1) inv Some c w have "st' = st\<lparr>world := w\<rparr>"
      by (simp add: maybe_send_pending_match_start_def)
    with True inv Some w assms(2) show ?thesis
      by (intro exI [of _ t] exI [of _ "[]"]) (simp add: abs_of_def)
  next
    case False
    let ?st = "st\<lparr>world := w, pending_match_start := False, pending_match_start_at := None, match_start_sent := True\<rparr>"
    from assms(1) inv Some c w False have "send_match_start ops config ?st = Inr st'"
      by (simp add: maybe_send_pending_match_start_def)
    then obtain msg where m: "notice_text (fmt_fields ops) config StartNotice = Inr msg"
      "emit ops config msg StartGroup ?st = Inr st'"
      by (auto simp: send_match_start_def notice_text_def bindR_eq_Inr)
    from m(2) obtain w' where w': "st' = ?st\<lparr>world := w', emitted := emitted st @ lines_of StartGroup msg\<rparr>"
      "now w \<le> now w'" by (rule emit_lines) simp
    with m(1) inv Some w False assms(2) show ?thesis
      by (intro exI [of _ t] exI [of _ "[StartNotice]"])
         (simp add: abs_of_def notice_lines_def match_inv_def)
  qed
qed

lemma summary_observed:
  assumes "send_summary_and_reset ops (snd cfg) st1 = Inr st'"
    and "match_inv (fst cfg) st" "match_started st"
    and "st1 = st\<lparr>final_red_score := r, final_blue_score := b\<rparr>"
    and "\<And>ts. observe (rules_of cfg) ob ts (abs_of st) = end_match r b (abs_of st)"
  shows "observed now (fmt_fields ops) cfg ob st st'"
proof -
  from assms(2,4) have "\<not> summary_sent st1" by (simp add: match_inv_def)
  with assms(1) obtain w where w: "st' = (reset_match st1)\<lparr>world := w,
      emitted := emitted st1 @ notice_lines (fmt_fields ops) (snd cfg)
        (EndNotice (final_red_score st1) (final_blue_score st1))\<rparr>" "now (world st1) \<le> now w"
    by (rule send_summary_lines)
  have "observe (rules_of cfg) ob ts (abs_of st) = (abs_of st', [EndNotice r b])" for ts
    using assms(3,4,5) w(1) by (simp add: abs_of_def reset_match_def)
  moreover have "match_inv (fst cfg) st'" using w(1) assms(2,4) by (simp add: match_inv_def reset_match_def)
  moreover have "emitted st' = emitted st @ notice_lines (fmt_fields ops) (snd cfg) (EndNotice r b)"
    "now (world st) \<le> now (world st')" using w assms(4) by (simp_all add: reset_match_def)
  ultimately show ?thesis
    by (intro observedI [of now st "now (world st)" "now (world st)" _ _ _ "[EndNotice r b]"]) simp_all
qed

lemma read_scores_obs:
  "match_inv gts st \<Longrightarrow> \<exists>r b. score_obs cs = ObsScore r b \<and>
     read_scores cs st = st\<lparr>final_red_score := r, final_blue_score := b\<rparr>"
  by (auto simp: read_scores_def score_obs_def match_inv_def split: sum.splits)

lemma raw_line_observed:
  assumes "on_raw_line ops (snd cfg) raw st = Inr st'" "match_inv (fst cfg) st"
  shows "observed now (fmt_fields ops) cfg (classify_raw raw) st st'"
proof -
  consider "raw = []" | "raw \<noteq> []" "re_search votepassed_re raw \<noteq> None"
    | "raw \<noteq> []" "re_search votepassed_re raw = None" "\<not> match_started st"
    | "raw \<noteq> []" "re_search votepassed_re raw = None" "match_started st"
      "re_search exit_timelimit_re raw \<noteq> None \<or> re_search exit_killlimit_re raw \<noteq> None"
    | "raw \<noteq> []" "re_search votepassed_re raw = None" "match_started st"
      "\<not> (re_search exit_timelimit_re raw \<noteq> None \<or> re_search exit_killlimit_re raw \<noteq> None)" by blast
  then show ?thesis
  proof cases
    case 1
    with assms show ?thesis by (intro observed_silent) (auto simp: on_raw_line_def classify_raw_def)
  next
    case 2
    obtain t st1 where c: "read_clock ops (st\<lparr>armed := True\<rparr>) = (t, st1)" by (metis surj_pair)
    from c obtain w where w': "st1 = st\<lparr>armed := True\<rparr>\<lparr>world := w\<rparr>"
      "now (world (st\<lparr>armed := True\<rparr>)) \<le> t" "t \<le> now w" by (rule read_clock_world)
    then have w: "st1 = st\<lparr>armed := True, world := w\<rparr>" "now (world st) \<le> t" "t \<le> now w" by simp_all
    with assms 2 c have "st' = st\<lparr>armed := True, world := w, armed_at := Some t\<rparr>"
      by (simp add: on_raw_line_def)
    moreover from this assms(2) have "match_inv (fst cfg) st'" unfolding match_inv_def by auto
    ultimately show ?thesis using 2 w
      by (intro observedI [of now st t t _ _ _ "[]"]) (simp_all add: classify_raw_def abs_of_def)
  next
    case 3
    with assms(1) have "st' = st" by (simp add: on_raw_line_def)
    moreover have "observe ru (classify_raw raw) ts (abs_of st) = (abs_of st, [])" for ru ts
      using 3 by (auto simp: classify_raw_def score_obs_def abs_of_def split: option.splits sum.splits)
    ultimately show ?thesis using assms(2) by (intro observed_silent) simp_all
  next
    case 4
    with assms(1) have "st' = st\<lparr>match_ending := True\<rparr>" by (auto simp: on_raw_line_def)
    with 4 assms(2) show ?thesis
      by (intro observed_silent) (auto simp: classify_raw_def abs_of_def match_inv_def)
  next
    case 5
    from assms(2) have ns: "\<not> summary_sent st" by (simp add: match_inv_def)
    show ?thesis
    proof (cases "re_search score_re raw")
      case (Some cs)
      from read_scores_obs [OF assms(2)] obtain r b where rb: "score_obs cs = ObsScore r b"
        "read_scores cs st = st\<lparr>final_red_score := r, final_blue_score := b\<rparr>" by blast
      from 5 Some rb have "classify_raw raw = ObsScore r b" by (simp add: classify_raw_def)
      moreover from assms(1) 5 Some rb ns
      have "send_summary_and_reset ops (snd cfg) (st\<lparr>final_red_score := r, final_blue_score := b\<rparr>) = Inr st'"
        by (simp add: on_raw_line_def)
      ultimately show ?thesis using assms(2) 5(3) by (auto intro: summary_observed simp del: end_match.simps)
    next
      case None
      show ?thesis
      proof (cases "is_final_scoreboard_broadcast raw")
        case True
        from assms(1) 5 None ns True have "send_summary_and_reset ops (snd cfg) st = Inr st'"
          by (simp add: on_raw_line_def)
        moreover have "classify_raw raw = ObsBoard" using 5 None True by (simp add: classify_raw_def)
        moreover have "st = st\<lparr>final_red_score := None, final_blue_score := None\<rparr>"
          using assms(2) by (simp add: match_inv_def)
        ultimately show ?thesis using assms(2) 5(3) by (auto intro: summary_observed simp del: end_match.simps)
      next
        case False
        with assms 5 None show ?thesis
          by (intro observed_silent) (auto simp: on_raw_line_def classify_raw_def)
      qed
    qed
  qed
qed

lemma disarm_observed:
  assumes "match_inv (fst cfg) st" "st' = (disarm st)\<lparr>world := w\<rparr>" "now (world st) \<le> t" "t \<le> now w"
    and "\<And>t2 t3. observe (rules_of cfg) ob (t, t2, t3) (abs_of st) = ((abs_of st)\<lparr>a_armed := None\<rparr>, [])"
  shows "observed now ext cfg ob st st'"
  using assms
  by (intro observedI [of now st t t _ _ _ "[]"]) (auto simp: disarm_def abs_of_def match_inv_def)

lemma activate_observed:
  assumes "match_inv (fst cfg) st" "gt \<in> set (fst cfg)" "now (world st) \<le> t1" "t1 \<le> now w"
    and "vote_valid (rules_of cfg) (armed_at st) t1"
  shows "observed now ext cfg (ObsInit (Some gt)) st (activate ops gt (st\<lparr>world := w\<rparr>))"
proof -
  let ?st = "(disarm ((reset_match (st\<lparr>world := w\<rparr>))\<lparr>current_gametype := Some gt, match_started := True\<rparr>))
    \<lparr>pending_match_start := True\<rparr>"
  obtain t2 st2 where c: "read_clock ops ?st = (t2, st2)" by (metis surj_pair)
  from c obtain w2 where w2': "st2 = ?st\<lparr>world := w2\<rparr>" "now (world ?st) \<le> t2" "t2 \<le> now w2"
    by (rule read_clock_world)
  have "world ?st = w" by (simp add: disarm_def reset_match_def)
  with w2' have w2: "st2 = ?st\<lparr>world := w2\<rparr>" "now w \<le> t2" "t2 \<le> now w2" by metis+
  then have act: "activate ops gt (st\<lparr>world := w\<rparr>) =
      ?st\<lparr>world := w2, pending_match_start_at := Some (t2 + match_start_delay_seconds)\<rparr>"
    using c by (simp add: activate_def Let_def)
  let ?st' = "?st\<lparr>world := w2, pending_match_start_at := Some (t2 + match_start_delay_seconds)\<rparr>"
  have "abs_of ?st' = \<lparr>a_armed = None, a_phase = Running (Some (t2 + match_start_delay_seconds)) False\<rparr>"
    "emitted ?st' = emitted st" "world ?st' = w2"
    by (simp_all add: abs_of_def disarm_def reset_match_def)
  moreover have "match_inv (fst cfg) ?st'" using assms(2)
    by (simp add: match_inv_def disarm_def reset_match_def)
  moreover have "gt \<in> set (snd (rules_of cfg)) \<and> vote_valid (rules_of cfg) (a_armed (abs_of st)) t1"
    using assms(2,5) by (simp add: rules_of_def abs_of_def del: vote_valid.simps)
  ultimately show ?thesis unfolding act using assms(3,4) w2(2,3)
    by (intro observedI [of now st t1 t2 ?st' _ _ "[]"]) (simp_all del: vote_valid.simps)
qed

lemma init_game_observed:
  assumes "match_inv (fst cfg) st"
  shows "observed now ext cfg (ObsInit (parse_gametype raw)) st
    (on_init_game ops (snd cfg) (fst cfg) raw st)"
proof -
  have keep: "observed now ext cfg (ObsInit (parse_gametype raw)) st (disarm st)"
    if "\<And>t2 t3. observe (rules_of cfg) (ObsInit (parse_gametype raw)) (now (world st), t2, t3) (abs_of st) =
      ((abs_of st)\<lparr>a_armed := None\<rparr>, [])"
    using assms that by (intro disarm_observed [where w = "world st" and t = "now (world st)"]) (simp_all add: disarm_def)
  consider "parse_gametype raw = None" | gt where "parse_gametype raw = Some gt" "gt \<notin> set (fst cfg)"
    | gt where "parse_gametype raw = Some gt" "gt \<in> set (fst cfg)" "\<not> require_vote (snd cfg)"
    | gt where "parse_gametype raw = Some gt" "gt \<in> set (fst cfg)" "require_vote (snd cfg)" "armed_at st = None"
    | gt s where "parse_gametype raw = Some gt" "gt \<in> set (fst cfg)" "require_vote (snd cfg)" "armed_at st = Some s"
    by (cases "parse_gametype raw"; cases "armed_at st") auto
  then show ?thesis
  proof cases
    case 1
    with keep show ?thesis by (simp add: on_init_game_def rules_of_def)
  next
    case 2
    with keep show ?thesis by (simp add: on_init_game_def rules_of_def)
  next
    case 3
    with activate_observed [OF assms 3(2), of "now (world st)" "world st" ext] show ?thesis
      by (simp add: on_init_game_def rules_of_def)
  next
    case 4
    with assms have "\<not> armed st" by (simp add: match_inv_def)
    with 4 keep show ?thesis by (simp add: on_init_game_def is_armed_now_def rules_of_def abs_of_def)
  next
    case 5
    with assms have arm: "armed st" by (simp add: match_inv_def)
    obtain t st1 where c: "read_clock ops st = (t, st1)" by (metis surj_pair)
    obtain w where w: "st1 = st\<lparr>world := w\<rparr>" "now (world st) \<le> t" "t \<le> now w" using c by (rule read_clock_world)
    from 5 arm c w(1) have init: "on_init_game ops (snd cfg) (fst cfg) raw st =
        (if t - s \<le> map_restart_arm_seconds then activate ops gt (st\<lparr>world := w\<rparr>) else disarm (st\<lparr>world := w\<rparr>))"
      by (simp add: on_init_game_def is_armed_now_def)
    show ?thesis
    proof (cases "t - s \<le> map_restart_arm_seconds")
      case True
      with activate_observed [OF assms 5(2) w(2,3), of ext] 5 init show ?thesis by (simp add: rules_of_def)
    next
      case False
      with 5 w init assms show ?thesis
        by (intro disarm_observed [where w = w and t = t])
           (simp_all add: disarm_def rules_of_def abs_of_def)
    qed
  qed
qed

lemma shutdown_observed:
  assumes "on_shutdown_game ops (snd cfg) st = Inr st'" "match_inv (fst cfg) st"
  shows "observed now (fmt_fields ops) cfg ObsShutdown st st'"
proof (cases "match_started st \<and> match_ending st")
  case True
  from assms True have "send_summary_and_reset ops (snd cfg) st = Inr st'"
    by (simp add: on_shutdown_game_def match_inv_def)
  moreover have "st = st\<lparr>final_red_score := None, final_blue_score := None\<rparr>"
    using assms(2) by (simp add: match_inv_def)
  moreover have "observe ru ObsShutdown ts (abs_of st) = end_match None None (abs_of st)" for ru ts
    using True by (simp add: abs_of_def)
  ultimately show ?thesis using assms(2) True summary_observed [of cfg st st' st None None ObsShutdown] by blast
next
  case False
  with assms have "st' = st" by (auto simp: on_shutdown_game_def match_inv_def)
  with False assms(2) show ?thesis by (intro observed_silent) (auto simp: abs_of_def)
qed

lemma dispatch_observed:
  assumes "dispatch ops cfg event st = Inr st'" "match_inv (fst cfg) st"
  shows "observed now (fmt_fields ops) cfg (classify_event event) st st'"
proof -
  have none: "observed now (fmt_fields ops) cfg ObsNone st st"
    using assms(2) by (intro observed_silent) simp_all
  from assms(1) show ?thesis
    using raw_line_observed [of cfg "event_raw event" st st'] init_game_observed [of cfg st "fmt_fields ops" "event_raw event"]
      shutdown_observed [of cfg st st'] none assms(2)
    by (auto simp: dispatch_def classify_event_def Let_def on_team_change_def split: if_splits)
qed

lemma step_simulated:
  assumes "match_step ops cfg inp st = Inr st'" "match_inv (fst cfg) st"
  shows "simulated now (fmt_fields ops) cfg (classify inp) st st'"
proof -
  have then_pump: "simulated now (fmt_fields ops) cfg (Pump ob) st st'"
    if ob: "observed now (fmt_fields ops) cfg ob st st1"
      and p: "maybe_send_pending_match_start ops (snd cfg) st1 = Inr st'" for ob st1
  proof -
    from ob obtain t1 t2 ns where o: "now (world st) \<le> t1" "t1 \<le> t2" "t2 \<le> now (world st1)"
      "\<And>t3. observe (rules_of cfg) ob (t1, t2, t3) (abs_of st) = (abs_of st1, ns)" "match_inv (fst cfg) st1"
      "emitted st1 = emitted st @ concat (map (notice_lines (fmt_fields ops) (snd cfg)) ns)"
      unfolding observed_def by blast
    from pump_refines [OF p o(5)] obtain t3 ms where q: "now (world st1) \<le> t3" "t3 \<le> now (world st')"
      "pump t3 (abs_of st1) = (abs_of st', ms)" "match_inv (fst cfg) st'"
      "emitted st' = emitted st1 @ concat (map (notice_lines (fmt_fields ops) (snd cfg)) ms)" by blast
    show ?thesis unfolding simulated_def
      using o q by (intro exI [of _ t1] exI [of _ t2] exI [of _ t3] exI [of _ "ns @ ms"]) (simp del: pump.simps)
  qed
  have same: "observed now (fmt_fields ops) cfg ObsNone st st"
    using assms(2) by (intro observed_silent) simp_all
  show ?thesis
  proof (cases inp)
    case Tick
    with assms(1) then_pump [OF same] show ?thesis by (simp add: match_step_def tick_def)
  next
    case (Event e)
    show ?thesis
    proof (cases "\<exists>d. e = JObj d")
      case True
      then obtain d st1 where "e = JObj d" "dispatch ops cfg d st = Inr st1"
        "maybe_send_pending_match_start ops (snd cfg) st1 = Inr st'"
        using assms(1) Event by (auto simp: match_step_def handle_event_def bindR_eq_Inr)
      with then_pump [OF dispatch_observed [OF _ assms(2)]] Event show ?thesis by simp
    next
      case False
      then have "classify inp = Junk" "st' = st"
        using assms(1) Event by (cases e; simp add: match_step_def handle_event_def)+
      with assms(2) show ?thesis unfolding simulated_def
        by (intro exI [of _ "now (world st)"] exI [of _ "[]"]) simp
    qed
  qed
qed

text \<open>No step takes time away, whatever the state.\<close>

lemma emit_time:
  "emit ops config text g st = Inr st' \<Longrightarrow> now (world st) \<le> now (world st')"
  by (erule emit_lines) simp

lemma tick_time:
  assumes "tick ops cfg st = Inr st'"
  shows "now (world st) \<le> now (world st')"
proof -
  obtain t st1 where c: "read_clock ops st = (t, st1)" by (metis surj_pair)
  from c obtain w where w: "st1 = st\<lparr>world := w\<rparr>" "now (world st) \<le> t" "t \<le> now w" by (rule read_clock_world)
  have start: "now (world s) \<le> now (world s')" if "send_match_start ops (snd cfg) s = Inr s'" for s s'
    using that by (auto simp: send_match_start_def bindR_eq_Inr dest: emit_time)
  from assms show ?thesis
    unfolding tick_def maybe_send_pending_match_start_def Let_def
    using c w by (auto split: if_splits option.splits dest!: start)
qed

lemma run_refines:
  "foldR (match_step ops cfg) inps st = Inr st' \<Longrightarrow> match_inv (fst cfg) st \<Longrightarrow>
   \<exists>xs nss. run_simulated now (fmt_fields ops) cfg inps xs nss st st'"
proof (induction inps arbitrary: st)
  case Nil
  then show ?case unfolding run_simulated_def by (intro exI [of _ "[]"]) simp
next
  case (Cons inp inps)
  from Cons.prems(1) obtain st1 where st1: "match_step ops cfg inp st = Inr st1"
    "foldR (match_step ops cfg) inps st1 = Inr st'" by (auto simp: bindR_eq_Inr)
  from step_simulated [OF st1(1) Cons.prems(2)] obtain t1 t2 t3 ns where
    a: "now (world st) \<le> t1" "t1 \<le> t2" "t2 \<le> t3" "t3 \<le> now (world st1)"
      "a_step (rules_of cfg) (classify inp, t1, t2, t3) (abs_of st) = (abs_of st1, ns)"
      "match_inv (fst cfg) st1"
      "emitted st1 = emitted st @ concat (map (notice_lines (fmt_fields ops) (snd cfg)) ns)"
    unfolding simulated_def by blast
  from Cons.IH [OF st1(2) a(6)] obtain xs nss where
    b: "run_simulated now (fmt_fields ops) cfg inps xs nss st1 st'" by blast
  then have "timed t3 xs (now (world st'))" using a(4) timed_weaken unfolding run_simulated_def by blast
  with a b show ?case unfolding run_simulated_def
    by (intro exI [of _ "(classify inp, t1, t2, t3) # xs"] exI [of _ "ns # nss"]) simp
qed

lemma init_refines:
  "foldR (match_step ops cfg) inps (match_init w) = Inr st \<Longrightarrow>
   \<exists>xs nss. run_simulated now (fmt_fields ops) cfg inps xs nss (match_init w) st"
  by (rule run_refines) (simp_all add: match_inv_init)

text \<open>What an instance emits comes from notices; their number is bounded by votes and game starts.\<close>

lemma emitted_counts:
  assumes "foldR (match_step ops cfg) inps (match_init w) = Inr st"
  shows "length (filter (\<lambda>e. fst e = StartGroup) (emitted st)) \<le>
      length (filter (is_init (rules_of cfg)) (map classify inps))"
    and "length (filter (\<lambda>e. fst e = EndGroup) (emitted st)) \<le>
      length (filter (is_init (rules_of cfg)) (map classify inps))"
    and "require_vote (snd cfg) \<Longrightarrow> length (filter (\<lambda>e. fst e = StartGroup) (emitted st)) \<le>
      length (filter is_vote (map classify inps))"
    and "require_vote (snd cfg) \<Longrightarrow> length (filter (\<lambda>e. fst e = EndGroup) (emitted st)) \<le>
      length (filter is_vote (map classify inps))"
proof -
  let ?L = "notice_lines (fmt_fields ops) (snd cfg)"
  from init_refines [OF assms] obtain xs nss where
    r: "run_simulated now (fmt_fields ops) cfg inps xs nss (match_init w) st" by blast
  then have "a_run (rules_of cfg) xs a_init = (abs_of st, nss)" "emitted st = concat (map ?L (concat nss))"
    and fst_xs: "map fst xs = map classify inps"
    by (simp_all add: run_simulated_def abs_of_init) (simp add: match_init_def reset_all_def reset_match_def disarm_def)
  note run = credits_run [OF this(1)] and em = this(2)
  have lines: "length (filter (\<lambda>e. fst e = StartGroup) (concat (map ?L ns))) \<le> starts ns \<and>
      length (filter (\<lambda>e. fst e = EndGroup) (concat (map ?L ns))) \<le> ends ns" for ns
    by (induction ns) (auto simp: notice_lines_def lines_of_def Let_def split: sum.splits)
  have "inits (rules_of cfg) xs = length (filter (is_init (rules_of cfg)) (map classify inps))"
    "votes xs = length (filter is_vote (map classify inps))"
    unfolding fst_xs [symmetric] by (simp_all add: inits_def votes_def filter_map o_def)
  note n = this [symmetric]
  have z: "run_credit a_init = 0" "start_credit a_init = 0" "vote_credit a_init = 0"
    by (simp_all add: run_credit_def start_credit_def vote_credit_def a_init_def)
  show "length (filter (\<lambda>e. fst e = StartGroup) (emitted st)) \<le>
      length (filter (is_init (rules_of cfg)) (map classify inps))"
    "length (filter (\<lambda>e. fst e = EndGroup) (emitted st)) \<le>
      length (filter (is_init (rules_of cfg)) (map classify inps))"
    unfolding em n using lines [of "concat nss"] run z by linarith+
  show "length (filter (\<lambda>e. fst e = StartGroup) (emitted st)) \<le> length (filter is_vote (map classify inps))"
    "length (filter (\<lambda>e. fst e = EndGroup) (emitted st)) \<le> length (filter is_vote (map classify inps))"
    if "require_vote (snd cfg)"
    unfolding em n using lines [of "concat nss"] run z that by (simp_all add: rules_of_def)
qed

end

end
