(* ===== verification/Match_Loop.thy ===== *)
theory Match_Loop
  imports Match_Refine
begin

section \<open>\<open>match-announcer.py\<close>: the RCON sender and \<open>main\<close>\<close>

text \<open>
  The world the instance runs in: a monotonic clock, the sleeps, the socket.  \<open>match_script\<close> says what
  the environment does: the time that passes before each reading of the clock, the operating system
  and the network at each call of the sender, and the reading of \<open>json.loads\<close>.
\<close>

record match_script =
  elapse :: "nat \<Rightarrow> rat"
  call_env :: "nat \<Rightarrow> os_env \<times> net"
  loads :: "string \<Rightarrow> json res"
  other_fields :: fmt_ext

record loop_world =
  w_time :: rat
  w_reads :: nat
  w_sends :: nat
  w_last_send :: rat
  w_wire :: "datagram list"

definition init_world :: loop_world where
  "init_world = \<lparr>w_time = 0, w_reads = 0, w_sends = 0, w_last_send = 0, w_wire = []\<rparr>"

text \<open>\<open>time.monotonic()\<close> does not run backwards, and a sleep lasts at least as long as asked for.\<close>

definition monotonic :: "match_script \<Rightarrow> loop_world \<Rightarrow> rat \<times> loop_world" where
  "monotonic sc w =
     (let t = w_time w + max 0 (elapse sc (w_reads w))
      in (t, w\<lparr>w_time := t, w_reads := w_reads w + 1\<rparr>))"

definition sleep :: "rat \<Rightarrow> loop_world \<Rightarrow> loop_world" where
  "sleep d w = w\<lparr>w_time := w_time w + max 0 d\<rparr>"

subsection \<open>\<open>_make_rcon_sender\<close>\<close>

definition line_delay_seconds :: rat where
  "line_delay_seconds = 3 / 100"

text \<open>The command of a line; \<open>.strip()\<close> of a value that is no text raises.\<close>

definition chosen_command :: "dict \<Rightarrow> json option \<Rightarrow> string res" where
  "chosen_command config command =
     (case py_or (py_or (case command of Some c \<Rightarrow> c | None \<Rightarrow> JNull) (get_none config ''announce_command''))
             (JStr ''svsay'') of
        JStr s \<Rightarrow> (let c = lower (strip s)
                   in Inr (if c \<notin> set match_allowed_announce_commands then ''svsay'' else c))
      | _ \<Rightarrow> Inl AttributeError)"

definition host_of :: "dict \<Rightarrow> string" where
  "host_of config = py_str (get_none config ''rcon_host'')"

definition timeout_of :: "dict \<Rightarrow> int" where
  "timeout_of config = (case get_none config ''rcon_timeout_seconds'' of JInt t \<Rightarrow> t | _ \<Rightarrow> 0)"

definition transmit ::
  "match_script \<Rightarrow> dict \<Rightarrow> net \<Rightarrow> int \<Rightarrow> string \<Rightarrow> string \<Rightarrow> loop_world \<Rightarrow> unit res \<times> loop_world" where
  "transmit sc config net port password rcon_command w =
     (let (now, w) = monotonic sc w;
          delta = now - w_last_send w;
          w = (if delta < line_delay_seconds then sleep (line_delay_seconds - delta) w else w);
          (sent, outcome) = match_send_rcon_command net (host_of config) port password (timeout_of config) rcon_command;
          w = w\<lparr>w_wire := w_wire w @ sent\<rparr>
      in case outcome of
           Inl e \<Rightarrow> if e = OSError
                    then let (t, w) = monotonic sc w in (Inr (), w\<lparr>w_last_send := t\<rparr>)
                    else (Inl e, w)
         | Inr _ \<Rightarrow> let (t, w) = monotonic sc w in (Inr (), w\<lparr>w_last_send := t\<rparr>))"

definition rcon_send ::
  "match_script \<Rightarrow> dict \<Rightarrow> string \<Rightarrow> json option \<Rightarrow> loop_world \<Rightarrow> unit res \<times> loop_world" where
  "rcon_send sc config line command w =
     (let (os, net) = call_env sc (w_sends w);
          w = w\<lparr>w_sends := w_sends w + 1\<rparr>
      in case match_effective_rcon_password os (match_runtime_env_path os) of
           Inl e \<Rightarrow> (Inl e, w)
         | Inr None \<Rightarrow> (Inr (), w)
         | Inr (Some password) \<Rightarrow>
             if password = [] then (Inr (), w)
             else case match_current_server_port os (match_runtime_env_path os) of
                    Inl e \<Rightarrow> (Inl e, w)
                  | Inr port \<Rightarrow>
                      (case chosen_command config command of
                         Inl e \<Rightarrow> (Inl e, w)
                       | Inr c \<Rightarrow> transmit sc config net port password (c @ '' '' @ match_quote_rcon_arg line) w))"

definition loop_ops :: "match_script \<Rightarrow> dict \<Rightarrow> loop_world match_ops" where
  "loop_ops sc config = \<lparr>clock = monotonic sc, send = rcon_send sc config, fmt_fields = other_fields sc\<rparr>"

subsection \<open>\<open>main\<close>\<close>

text \<open>What \<open>select\<close> and \<open>readline\<close> give: an error, a timeout, a line, the end of the stream.\<close>

datatype poll = PollFails | PollIdle | PollLine string | PollEof

definition line_event :: "match_script \<Rightarrow> string \<Rightarrow> json option res" where
  "line_event sc raw =
     (let line = strip raw
      in if line = [] then Inr None
         else case loads sc line of
                Inl e \<Rightarrow> if e = JSONDecodeError then Inr None else Inl e
              | Inr v \<Rightarrow> Inr (if v = JNull then None else Some v))"

fun poll_loop ::
  "match_script \<Rightarrow> 'w match_ops \<Rightarrow> int list \<times> dict \<Rightarrow> poll list \<Rightarrow> 'w match_state \<Rightarrow> 'w match_state res"
where
  "poll_loop sc ops cfg [] st = Inr st"
| "poll_loop sc ops cfg (p # ps) st =
     (case p of
        PollFails \<Rightarrow> Inr st
      | PollEof \<Rightarrow> Inr st
      | PollIdle \<Rightarrow> bindR (tick ops cfg st) (poll_loop sc ops cfg ps)
      | PollLine raw \<Rightarrow>
          bindR (line_event sc raw) (\<lambda>event.
          bindR (case event of None \<Rightarrow> Inr st | Some v \<Rightarrow> handle_event ops cfg v st)
            (poll_loop sc ops cfg ps)))"

text \<open>The flush after the end of the stream; \<open>None\<close> if it did not end within the fuel.\<close>

definition flush_pause :: rat where "flush_pause = 1 / 20"

fun flush ::
  "nat \<Rightarrow> loop_world match_ops \<Rightarrow> int list \<times> dict \<Rightarrow> rat \<Rightarrow> loop_world match_state \<Rightarrow>
   loop_world match_state res option"
where
  "flush 0 ops cfg deadline st = None"
| "flush (Suc n) ops cfg deadline st =
     (if \<not> pending_match_start st then Some (Inr st)
      else let (t, st) = read_clock ops st
           in if \<not> t < deadline then Some (Inr st)
              else (case tick ops cfg (st\<lparr>world := sleep flush_pause (world st)\<rparr>) of
                      Inl e \<Rightarrow> Some (Inl e)
                    | Inr st \<Rightarrow> flush n ops cfg deadline st))"

definition flush_fuel :: nat where "flush_fuel = 52"

definition match_flush ::
  "loop_world match_ops \<Rightarrow> int list \<times> dict \<Rightarrow> loop_world match_state \<Rightarrow> loop_world match_state res option" where
  "match_flush ops cfg st =
     (let (t, st) = read_clock ops st
      in flush flush_fuel ops cfg (t + match_start_delay_seconds + 1 / 2) st)"

text \<open>\<open>main\<close>, for a finite script of polls; \<open>io\<close> is what opening the log file meets.\<close>

definition match_main ::
  "match_script \<Rightarrow> os_env \<Rightarrow> log_io \<Rightarrow> poll list \<Rightarrow> loop_world match_state res option" where
  "match_main sc os io polls =
     (case match_load_config os of
        Inl e \<Rightarrow> Some (Inl e)
      | Inr config \<Rightarrow>
          (case open_log io (get_none config ''log_file'') of
             Inl e \<Rightarrow> Some (Inl e)
           | Inr _ \<Rightarrow>
               if get_none config ''enabled'' \<noteq> JBool True then Some (Inr (match_init init_world))
               else case init_config config of
                      Inl e \<Rightarrow> Some (Inl e)
                    | Inr cfg \<Rightarrow>
                        (case poll_loop sc (loop_ops sc config) cfg polls (match_init init_world) of
                           Inl e \<Rightarrow> Some (Inl e)
                         | Inr st \<Rightarrow> match_flush (loop_ops sc config) cfg st)))"

subsection \<open>The world of \<open>main\<close> satisfies the interface\<close>

lemma monotonic_time: "monotonic sc w = (t, w') \<Longrightarrow> w_time w \<le> t \<and> w_time w' = t"
  by (auto simp: monotonic_def Let_def)

lemma sleep_time: "w_time w \<le> w_time (sleep d w)" "w_time (sleep d w) \<ge> w_time w + d"
  by (simp_all add: sleep_def)

lemma transmit_time:
  assumes "transmit sc config net port pw c w = (r, w')"
  shows "w_time w \<le> w_time w'"
proof -
  obtain now w1 where m: "monotonic sc w = (now, w1)" by (metis surj_pair)
  define w2 where "w2 = (if now - w_last_send w1 < line_delay_seconds
    then sleep (line_delay_seconds - (now - w_last_send w1)) w1 else w1)"
  obtain sent outcome where s: "match_send_rcon_command net (host_of config) port pw (timeout_of config) c =
    (sent, outcome)" by (metis surj_pair)
  obtain t w3 where m3: "monotonic sc (w2\<lparr>w_wire := w_wire w2 @ sent\<rparr>) = (t, w3)" by (metis surj_pair)
  from assms m s m3 have "w' = w3\<lparr>w_last_send := t\<rparr> \<or> w' = w2\<lparr>w_wire := w_wire w2 @ sent\<rparr>"
    unfolding transmit_def Let_def w2_def by (auto split: sum.splits if_splits)
  moreover have "w_time w1 \<le> w_time w2" by (simp add: w2_def sleep_time)
  ultimately show ?thesis using monotonic_time [OF m] monotonic_time [OF m3] by auto
qed

lemma rcon_send_time:
  assumes "rcon_send sc config line command w = (r, w')"
  shows "w_time w \<le> w_time w'"
proof -
  obtain os net where e: "call_env sc (w_sends w) = (os, net)" by (metis surj_pair)
  from assms e have "w' = w\<lparr>w_sends := w_sends w + 1\<rparr> \<or>
      (\<exists>port pw c. transmit sc config net port pw c (w\<lparr>w_sends := w_sends w + 1\<rparr>) = (r, w'))"
    by (auto simp: rcon_send_def Let_def split: sum.splits option.splits if_splits)
  then show ?thesis by (auto dest: transmit_time)
qed

interpretation mw: match_world "loop_ops sc config" w_time for sc config
  by unfold_locales (auto simp: loop_ops_def dest: monotonic_time rcon_send_time)

end
