(* ===== verification/Match_Demo.thy ===== *)
theory Match_Demo
  imports Match_Loop
begin

section \<open>A concrete match\<close>

text \<open>
  One match followed by evaluation: a vote, the game start it arms, two idle ticks in which the start
  line falls due.  The theorems on the match announcer are applied to it in their witnesses.
\<close>

definition demo_fields :: fmt_ext where
  "demo_fields n t = Inl ValueError"

definition demo_script :: match_script where
  "demo_script = \<lparr>elapse = (\<lambda>_. 1), call_env = (\<lambda>_. (sample_env [], TimesOut)),
     loads = (\<lambda>_. Inl JSONDecodeError), other_fields = demo_fields\<rparr>"

definition demo_config :: dict where
  "demo_config = [(''messages'', json_of_texts default_messages)]"

definition raw_event :: "string \<Rightarrow> string \<Rightarrow> dict" where
  "raw_event etype raw = [(''type'', JStr etype), (''raw'', JStr raw)]"

definition vote_raw :: string where "vote_raw = ''@@@VOTEPASSED (map_restart)''"
definition game_raw :: string where
  "game_raw = ''InitGame: '' @ [CHR 0x5C] @ ''g_gametype'' @ [CHR 0x5C] @ ''6'' @ [CHR 0x5C]"
definition score_raw :: string where "score_raw = ''red:5  blue:3''"

abbreviation "vote_event \<equiv> raw_event ''raw_line'' vote_raw"
abbreviation "game_event \<equiv> raw_event ''init_game'' game_raw"
abbreviation "score_event \<equiv> raw_event ''raw_line'' score_raw"

lemma demo_recognised:
  "re_search votepassed_re vote_raw = Some []" "vote_raw \<noteq> []"
  "parse_gametype game_raw = Some 6"
  "re_search votepassed_re score_raw = None" "score_raw \<noteq> []"
  "re_search exit_timelimit_re score_raw = None" "re_search exit_killlimit_re score_raw = None"
  "re_search score_re score_raw = Some [(''2'', ''3''), (''1'', ''5'')]"
  "py_int_text ''5'' = Inr 5" "py_int_text ''3'' = Inr 3"
  by code_simp+

lemma demo_texts:
  "render_message demo_fields demo_config ''tffa_start'' [] = Inr ''^3Match Started ^7- ^2Good Luck, Have Fun!''"
  "render_message demo_fields demo_config ''tffa_end_red'' [(''red_score'', JInt 5), (''blue_score'', JInt 3)] =
     Inr ''^3Match Ended ^7- ^1RED TEAM wins.''"
  "strip ''^3Match Started ^7- ^2Good Luck, Have Fun!'' = ''^3Match Started ^7- ^2Good Luck, Have Fun!''"
  "strip ''^3Match Ended ^7- ^1RED TEAM wins.'' = ''^3Match Ended ^7- ^1RED TEAM wins.''"
  by code_simp+

lemma demo_password:
  "match_effective_rcon_password (sample_env []) (match_runtime_env_path (sample_env [])) = Inr None"
  by code_simp

lemma demo_send: "rcon_send demo_script c line cmd w = (Inr (), w\<lparr>w_sends := w_sends w + 1\<rparr>)"
  by (simp add: rcon_send_def demo_script_def demo_password)

lemma raw_event_get:
  "get_none (raw_event t r) ''type'' = JStr t" "event_raw (raw_event t r) = r"
  by (simp_all add: raw_event_def get_none_def get_default_def event_raw_def py_or_def)

definition demo_state :: "loop_world match_state" where
  "demo_state = \<lparr>armed = False, armed_at = None, match_started = True, match_ending = False,
     summary_sent = False, match_start_sent = True, pending_match_start = False,
     pending_match_start_at = None, final_red_score = None, final_blue_score = None,
     current_gametype = Some 6, world = \<lparr>w_time = 5, w_reads = 5, w_sends = 1, w_last_send = 0, w_wire = []\<rparr>,
     emitted = [(StartGroup, ''^3Match Started ^7- ^2Good Luck, Have Fun!'')]\<rparr>"

lemmas demo_eval = match_step_def handle_event_def dispatch_def on_raw_line_def on_init_game_def
  raw_event_get demo_recognised is_armed_now_def read_clock_def
  activate_def disarm_def reset_match_def reset_all_def tick_def maybe_send_pending_match_start_def
  send_match_start_def emit_def call_send_def

lemma demo_sel: "elapse demo_script n = 1" "other_fields demo_script = demo_fields"
  by (simp_all add: demo_script_def)

lemma demo_vote: "require_vote demo_config"
  by code_simp

lemma demo_run:
  "foldR (match_step (loop_ops demo_script demo_config) ([6], demo_config))
     [Event (JObj vote_event), Event (JObj game_event), Tick, Tick] (match_init init_world) = Inr demo_state"
  by (simp add: demo_eval match_init_def init_world_def loop_ops_def demo_send demo_vote demo_texts monotonic_def
     demo_state_def demo_sel max_svsay_line_length_def match_start_delay_seconds_def map_restart_arm_seconds_def)

lemma demo_emitted: "emitted demo_state = [(StartGroup, ''^3Match Started ^7- ^2Good Luck, Have Fun!'')]"
  by (simp add: demo_state_def)

text \<open>The same instance without a supported game type.\<close>

lemma demo_silent_run:
  "foldR (match_step (loop_ops demo_script demo_config) ([], demo_config))
     [Event (JObj vote_event), Event (JObj game_event)] (match_init init_world) =
   Inr ((match_init init_world)\<lparr>world := \<lparr>w_time = 1, w_reads = 1, w_sends = 0, w_last_send = 0, w_wire = []\<rparr>\<rparr>)"
  by (simp add: demo_eval match_init_def init_world_def loop_ops_def monotonic_def demo_sel)

end
