(* ===== verification/Match_Claims.thy ===== *)
theory Match_Claims
  imports Match_Demo
begin

section \<open>What the match announcer guarantees\<close>

text \<open>
  The properties of \<open>match-announcer.py\<close>, stated over its step function \<open>match_step\<close> in the world of
  \<open>main\<close>, over its renderer, its loader and its flush loop.
\<close>

subsection \<open>What is written to the game\<close>

text \<open>A line that may be sent: not empty, at most 140 characters, without control characters.\<close>

definition line_ok :: "string \<Rightarrow> bool" where
  "line_ok line \<longleftrightarrow> line \<noteq> [] \<and> length line \<le> max_svsay_line_length \<and> clean line \<and> \<not> is_space (hd line)"

lemma sanitize_text_clean: "clean (sanitize_text s)"
  by (simp add: sanitize_text_def text_simps)

lemma render_message_clean: "render_message ext config key args = Inr s \<Longrightarrow> clean s"
  by (auto simp: render_message_def bindR_eq_Inr Let_def sanitize_text_clean split: option.splits)

lemma lines_of_ok: "clean s \<Longrightarrow> list_all (\<lambda>e. line_ok (snd e)) (lines_of g s)"
  using strip_edges [of s]
  by (auto simp: lines_of_def Let_def line_ok_def max_svsay_line_length_def clean_take clean_strip)

lemma notice_lines_ok: "list_all (\<lambda>e. line_ok (snd e)) (notice_lines ext config n)"
  by (auto simp: notice_lines_def notice_text_def split: sum.splits notice.splits
      intro!: lines_of_ok dest: render_message_clean)

lemma notices_lines_ok: "list_all (\<lambda>e. line_ok (snd e)) (concat (map (notice_lines ext config) ns))"
  by (induction ns) (simp_all add: notice_lines_ok)

interpretation match_out: emitting_machine
    "match_step (loop_ops sc config) cfg" "match_inv (fst cfg)" emitted "\<lambda>e. line_ok (snd e)"
    for sc config cfg
proof
  fix st e st' assume i: "match_inv (fst cfg) st" "match_step (loop_ops sc config) cfg e st = Inr st'"
  note s = mw.step_simulated [OF i(2,1)]
  from s show "match_inv (fst cfg) st'" unfolding simulated_def by blast
  from s show "\<exists>os. emitted st' = emitted st @ os \<and> list_all (\<lambda>e. line_ok (snd e)) os"
    unfolding simulated_def using notices_lines_ok by blast
qed

text \<open>
  C19.  The announcer's lines are safe to send: whatever the operator's templates render to and in every
  reachable state, an emitted line is not empty, has at most 140 characters, contains no control
  character and does not start with white space.
\<close>

theorem match_lines_ok:
  assumes "foldR (match_step (loop_ops sc config) cfg) inps (match_init w) = Inr st"
    and "(g, line) \<in> set (emitted st)"
  shows "line \<noteq> [] \<and> length line \<le> 140 \<and> clean line \<and> \<not> is_space (hd line)"
proof -
  have "list_all (\<lambda>e. line_ok (snd e)) (emitted st)"
    by (rule match_out.run_all_ok [OF match_inv_init _ assms(1)])
       (simp add: match_init_def reset_all_def reset_match_def disarm_def)
  with assms(2) show ?thesis by (auto simp: list_all_iff line_ok_def max_svsay_line_length_def)
qed

theorem match_lines_ok_witness:
  "clean ''^3Match Started ^7- ^2Good Luck, Have Fun!''"
  using match_lines_ok [OF demo_run, of StartGroup "''^3Match Started ^7- ^2Good Luck, Have Fun!''"]
  unfolding demo_emitted by simp

subsection \<open>The state machine\<close>

lemma a_run_length: "a_run ru xs a = (a', nss) \<Longrightarrow> length nss = length xs"
proof (induction xs arbitrary: a nss)
  case (Cons x xs)
  from Cons.prems obtain a1 n ns where "a_run ru xs a1 = (a', ns)" "nss = n # ns" by (rule a_run_Cons)
  with Cons.IH show ?case by simp
qed simp

text \<open>
  C1.  \<open>MatchAnnouncer\<close> implements the abstract match machine: for every sequence of events and ticks it
  survives there are clock readings, in order and within the run, with which the machine of
  \<open>Match_Spec\<close> makes the same steps, ends in the same state, and its notices are the lines emitted.
\<close>

theorem match_refines:
  assumes "foldR (match_step (loop_ops sc config) cfg) inps (match_init w) = Inr st"
  shows "\<exists>xs nss. map fst xs = map classify inps \<and> timed (w_time w) xs (w_time (world st)) \<and>
    a_run (rules_of cfg) xs a_init = (abs_of st, nss) \<and>
    emitted st = concat (map (notice_lines (other_fields sc) (snd cfg)) (concat nss))"
proof -
  have "world (match_init w) = w" "emitted (match_init w) = []"
    by (simp_all add: match_init_def reset_all_def reset_match_def disarm_def)
  with mw.init_refines [OF assms] show ?thesis
    unfolding run_simulated_def abs_of_init loop_ops_def by auto
qed

theorem match_refines_witness:
  "\<exists>xs nss. map fst xs = map classify [Event (JObj vote_event), Event (JObj game_event), Tick, Tick] \<and>
     timed 0 xs 5 \<and> a_run (rules_of ([6], demo_config)) xs a_init = (abs_of demo_state, nss) \<and>
     emitted demo_state = concat (map (notice_lines demo_fields demo_config) (concat nss))"
  using match_refines [OF demo_run] by (simp add: init_world_def demo_state_def demo_sel)

text \<open>
  C16.  The flags of an instance are consistent between events: the vote is armed exactly with its time,
  the deferred start is pending exactly with its due time and only in a match that has not announced
  its start, no summary flag or score outlives its event, and a match runs exactly when its game type
  is known, which is then one of the configured ones.
\<close>

theorem match_flags_consistent:
  assumes "foldR (match_step (loop_ops sc config) cfg) inps (match_init w) = Inr st"
  shows "(armed st \<longleftrightarrow> armed_at st \<noteq> None) \<and> \<not> summary_sent st \<and>
    (pending_match_start st \<longleftrightarrow> pending_match_start_at st \<noteq> None) \<and>
    (match_start_sent st \<longleftrightarrow> match_started st \<and> \<not> pending_match_start st) \<and>
    (pending_match_start st \<or> match_ending st \<longrightarrow> match_started st) \<and>
    final_red_score st = None \<and> final_blue_score st = None \<and>
    (match_started st \<longleftrightarrow> (\<exists>g \<in> set (fst cfg). current_gametype st = Some g))"
proof -
  have "match_inv (fst cfg) st" by (rule match_out.run_inv [OF match_inv_init assms])
  then show ?thesis unfolding match_inv_def by (cases "current_gametype st") auto
qed

theorem match_flags_consistent_witness:
  "match_start_sent demo_state \<longleftrightarrow> match_started demo_state \<and> \<not> pending_match_start demo_state"
  using match_flags_consistent [OF demo_run] by blast

text \<open>
  C18.  Announcements are earned: with a required vote there are at most as many start lines, and at most
  as many end lines, as passed map restart votes, and in any case at most as many as game starts of a
  supported game type.
\<close>

theorem match_announcements_earned:
  assumes "foldR (match_step (loop_ops sc config) cfg) inps (match_init w) = Inr st"
  shows "length (filter (\<lambda>e. fst e = g) (emitted st)) \<le>
      length (filter (is_init (rules_of cfg)) (map classify inps)) \<and>
    (require_vote (snd cfg) \<longrightarrow> length (filter (\<lambda>e. fst e = g) (emitted st)) \<le>
      length (filter is_vote (map classify inps)))"
  using mw.emitted_counts [OF assms] by (cases g) auto

theorem match_announcements_earned_witness:
  "length (filter (\<lambda>e. fst e = StartGroup) (emitted demo_state)) \<le>
     length (filter is_vote (map classify [Event (JObj vote_event), Event (JObj game_event), Tick, Tick]))"
  using match_announcements_earned [OF demo_run, of StartGroup] demo_vote by simp

text \<open>
  Without a supported game type the announcer never speaks.
\<close>

theorem match_silent_without_gametypes:
  assumes "foldR (match_step (loop_ops sc config) ([], conf)) inps (match_init w) = Inr st"
  shows "emitted st = []"
proof -
  have z: "filter (is_init (rules_of ([], conf))) xs = []" for xs
  proof -
    have "\<not> is_init (rules_of ([], conf)) x" for x
      by (cases "(rules_of ([], conf), x)" rule: is_init.cases) (auto simp: rules_of_def)
    then show ?thesis by simp
  qed
  from mw.emitted_counts(1,2) [OF assms] have
    "filter (\<lambda>e. fst e = StartGroup) (emitted st) = []" "filter (\<lambda>e. fst e = EndGroup) (emitted st) = []"
    by (simp_all add: z)
  then have "\<forall>e \<in> set (emitted st). fst e \<noteq> StartGroup \<and> fst e \<noteq> EndGroup"
    unfolding filter_empty_conv by blast
  then have "e \<notin> set (emitted st)" for e by (cases "fst e") auto
  then show ?thesis by (cases "emitted st") auto
qed

theorem match_silent_without_gametypes_witness:
  "\<exists>st. foldR (match_step (loop_ops demo_script demo_config) ([], demo_config))
     [Event (JObj vote_event), Event (JObj game_event)] (match_init init_world) = Inr st \<and> emitted st = []"
  using match_silent_without_gametypes [OF demo_silent_run] demo_silent_run by blast

end
