(* ===== verification/Match_Flush.thy ===== *)
theory Match_Flush
  imports Match_Claims
begin

section \<open>The end of the input, and which runs end early\<close>

text \<open>
  The flush loop of \<open>main\<close> returns and delivers a pending start; and \<open>main\<close> as a whole is not ended by
  anything it reads.
\<close>

subsection \<open>The flush\<close>


lemma read_clock_times:
  assumes "read_clock (loop_ops sc config) st = (t, st1)"
  shows "w_time (world st) \<le> t" "w_time (world st1) = t" "pending_match_start st1 = pending_match_start st"
    "pending_match_start_at st1 = pending_match_start_at st" "match_start_sent st1 = match_start_sent st"
    "t \<le> w_time (world st) + max 0 (elapse sc (w_reads (world st)))" "emitted st1 = emitted st"
  using assms by (auto simp: read_clock_def loop_ops_def monotonic_def Let_def split: prod.splits)

lemma flush_returns:
  "deadline < w_time (world st) + of_nat n * flush_pause \<Longrightarrow>
   \<exists>r. flush (Suc n) (loop_ops sc config) cfg deadline st = Some r"
proof (induction n arbitrary: st)
  case 0
  obtain t st1 where c: "read_clock (loop_ops sc config) st = (t, st1)" by (metis surj_pair)
  from read_clock_times(1) [OF c] 0 c show ?case by simp
next
  case (Suc n)
  obtain t st1 where c: "read_clock (loop_ops sc config) st = (t, st1)" by (metis surj_pair)
  let ?st = "st1\<lparr>world := sleep flush_pause (world st1)\<rparr>"
  show ?case
  proof (cases "\<exists>st2. tick (loop_ops sc config) cfg ?st = Inr st2 \<and> pending_match_start st \<and> t < deadline")
    case True
    then obtain st2 where t: "tick (loop_ops sc config) cfg ?st = Inr st2" "pending_match_start st" "t < deadline" by blast
    from mw.tick_time [OF t(1)] have "w_time (sleep flush_pause (world st1)) \<le> w_time (world st2)" by simp
    with sleep_time(2) [of "world st1" flush_pause] read_clock_times(1,2) [OF c] Suc.prems
    have "deadline < w_time (world st2) + of_nat n * flush_pause" by (simp add: algebra_simps)
    from Suc.IH [OF this] show ?thesis using c t by simp
  next
    case False
    then show ?thesis using c
      by (cases "tick (loop_ops sc config) cfg ?st") auto
  qed
qed

lemma match_flush_ends: "\<exists>r. match_flush (loop_ops sc config) cfg st = Some r"
proof -
  obtain t st1 where c: "read_clock (loop_ops sc config) st = (t, st1)" by (metis surj_pair)
  have "t + match_start_delay_seconds + 1 / 2 < w_time (world st1) + of_nat 51 * flush_pause"
    using read_clock_times(2) [OF c] by (simp add: match_start_delay_seconds_def flush_pause_def)
  from flush_returns [OF this] have "\<exists>r. flush flush_fuel (loop_ops sc config) cfg
      (t + match_start_delay_seconds + 1 / 2) st1 = Some r" by (simp add: flush_fuel_def)
  with c show ?thesis by (simp add: match_flush_def)
qed

text \<open>
  C21.  The flush after the end of the input always ends: within 52 passes, each of which sleeps for a
  twentieth of a second, the start has been sent, has failed, or the deadline of two and a half
  seconds has passed.
\<close>

theorem match_flush_returns: "\<exists>r. match_flush (loop_ops sc config) cfg st = Some r"
  by (rule match_flush_ends)

text \<open>The flush delivers a pending start if no reading of the clock takes half a second.\<close>

lemma send_match_start_pending:
  assumes "send_match_start ops config st = Inr st'"
  shows "pending_match_start st' = pending_match_start st"
proof -
  from assms obtain msg where "emit ops config msg StartGroup st = Inr st'"
    by (auto simp: send_match_start_def bindR_eq_Inr)
  then show ?thesis
    by (auto simp: emit_def call_send_def Let_def bindR_eq_Inr split: if_splits prod.splits sum.splits)
qed

lemma tick_pending:
  assumes "tick ops cfg st = Inr st'" "pending_match_start st'" "read_clock ops st = (t, st1)"
  shows "st' = st1 \<and> (\<exists>d. pending_match_start_at st = Some d \<and> t < d)"
proof (cases "\<exists>d. pending_match_start st \<and> pending_match_start_at st = Some d \<and> t < d")
  case True
  with assms(1,3) show ?thesis by (auto simp: tick_def maybe_send_pending_match_start_def)
next
  case False
  define s where "s = (case pending_match_start_at st of None \<Rightarrow> st | Some _ \<Rightarrow> st1)"
  have "\<not> pending_match_start st'"
  proof (cases "pending_match_start st")
    case p: True
    let ?s = "s\<lparr>pending_match_start := False, pending_match_start_at := None\<rparr>"
    have "tick ops cfg st = (if match_start_sent ?s then Inr ?s
        else send_match_start ops (snd cfg) (?s\<lparr>match_start_sent := True\<rparr>))"
      using p False assms(3)
      by (cases "pending_match_start_at st") (auto simp: tick_def maybe_send_pending_match_start_def s_def)
    with assms(1) show ?thesis by (auto split: if_splits dest: send_match_start_pending)
  next
    case False
    with assms(1) show ?thesis by (simp add: tick_def maybe_send_pending_match_start_def)
  qed
  with assms(2) show ?thesis by simp
qed

lemma tick_fires:
  assumes "tick (loop_ops sc config) cfg st = Inr st'" "match_inv gts st" "pending_match_start st"
    "\<not> pending_match_start st'"
  shows "emitted st' = emitted st @ notice_lines (other_fields sc) (snd cfg) StartNotice"
proof -
  from mw.pump_refines [OF assms(1) [unfolded tick_def] assms(2)] obtain t ns where
    p: "pump t (abs_of st) = (abs_of st', ns)" "match_inv gts st'"
      "emitted st' = emitted st @ concat (map (notice_lines (other_fields sc) (snd cfg)) ns)"
    by (auto simp: loop_ops_def)
  from assms(2,3) obtain d where d: "match_started st" "pending_match_start_at st = Some d"
    by (auto simp: match_inv_def)
  have "\<not> t < d"
  proof
    assume "t < d"
    with p(1) d have "abs_of st' = abs_of st" by (simp add: abs_of_def)
    with d p(2) assms(4) show False by (auto simp: abs_of_def match_inv_def split: if_splits)
  qed
  with p(1,3) d show ?thesis by (auto simp: abs_of_def)
qed

lemma flush_delivers:
  assumes fast: "\<And>n. elapse sc n < 1 / 2"
  shows "flush n (loop_ops sc config) cfg deadline st = Some (Inr st') \<Longrightarrow> match_inv gts st \<Longrightarrow>
     pending_match_start st \<Longrightarrow> w_time (world st) + 1 / 2 \<le> deadline \<Longrightarrow>
     pending_match_start_at st = Some d \<Longrightarrow> d + 1 / 2 \<le> deadline \<Longrightarrow>
     \<not> pending_match_start st' \<and>
     emitted st' = emitted st @ notice_lines (other_fields sc) (snd cfg) StartNotice"
proof (induction n arbitrary: st)
  case (Suc n)
  obtain t st1 where c: "read_clock (loop_ops sc config) st = (t, st1)" by (metis surj_pair)
  let ?st = "st1\<lparr>world := sleep flush_pause (world st1)\<rparr>"
  have "t < deadline" using read_clock_times(6) [OF c] fast [of "w_reads (world st)"] Suc.prems(4) by simp
  with Suc.prems(1,3) c obtain st2 where st2: "tick (loop_ops sc config) cfg ?st = Inr st2"
    "flush n (loop_ops sc config) cfg deadline st2 = Some (Inr st')" by (auto split: sum.splits)
  obtain w where "st1 = st\<lparr>world := w\<rparr>" using c by (rule mw.read_clock_world)
  then have inv: "match_inv gts ?st" using Suc.prems(2) by simp
  show ?case
  proof (cases "pending_match_start st2")
    case False
    with st2(2) have "st' = st2" by (cases n) auto
    with tick_fires [OF st2(1) inv _ False] read_clock_times(3,7) [OF c] Suc.prems(3) False show ?thesis by simp
  next
    case True
    obtain t2 st3 where c2: "read_clock (loop_ops sc config) ?st = (t2, st3)" by (metis surj_pair)
    from tick_pending [OF st2(1) True c2] read_clock_times(4) [OF c] Suc.prems(5)
    have st3: "st2 = st3" "t2 < d" by auto
    obtain w2 where "st3 = ?st\<lparr>world := w2\<rparr>" using c2 by (rule mw.read_clock_world)
    with st3(1) inv have "match_inv gts st2" by simp
    moreover from st3 read_clock_times(2,4,7) [OF c2] read_clock_times(4,7) [OF c] Suc.prems(5,6)
    have "w_time (world st2) + 1 / 2 \<le> deadline" "pending_match_start_at st2 = Some d" "emitted st2 = emitted st"
      by simp_all
    ultimately show ?thesis using Suc.IH [OF st2(2) _ True _ _ Suc.prems(6)] by simp
  qed
qed simp

lemma timed_le: "timed lo xs hi \<Longrightarrow> lo \<le> hi"
  by (induction lo xs hi rule: timed.induct) auto

lemma timed_bound: "timed lo (ps @ (i, t1, t2, t3) # qs) hi \<Longrightarrow> t2 \<le> hi"
proof (induction ps arbitrary: lo)
  case Nil
  with timed_le [of t3 qs hi] show ?case by simp
next
  case (Cons p ps)
  then show ?case by (cases p) auto
qed

lemma due_bound:
  assumes "foldR (match_step (loop_ops sc config) cfg) inps (match_init w) = Inr st"
    and "pending_match_start_at st = Some d"
  shows "match_inv (fst cfg) st \<and> d \<le> w_time (world st) + match_start_delay_seconds"
proof -
  from mw.init_refines [OF assms(1)] obtain xs nss where
    r: "run_simulated w_time (fmt_fields (loop_ops sc config)) cfg inps xs nss (match_init w) st" by blast
  then have run: "a_run (rules_of cfg) xs a_init = (abs_of st, nss)" "match_inv (fst cfg) st"
    and t: "timed (w_time (world (match_init w))) xs (w_time (world st))"
    by (simp_all add: run_simulated_def abs_of_init)
  from run(2) assms(2) have "a_phase (abs_of st) = Running (Some d) (match_ending st)"
    by (auto simp: abs_of_def match_inv_def)
  with explained_run [OF explained_init run(1)] obtain t2 where
    a: "activated (rules_of cfg) xs t2" "d = t2 + match_start_delay_seconds"
    unfolding explained_def append_Nil by blast
  from a(1) t have "t2 \<le> w_time (world st)" unfolding activated_def by (auto dest: timed_bound)
  with a(2) run(2) show ?thesis by simp
qed

text \<open>
  C20.  The end of the input does not lose a start: when the input ends while a start is pending and no
  reading of the clock takes half a second, the flush announces it before it returns.
\<close>

theorem match_flush_delivers:
  assumes "foldR (match_step (loop_ops sc config) cfg) inps (match_init w) = Inr st"
    and "pending_match_start st" and "\<And>n. elapse sc n < 1 / 2"
    and "match_flush (loop_ops sc config) cfg st = Some (Inr st')"
  shows "\<not> pending_match_start st' \<and>
    emitted st' = emitted st @ notice_lines (other_fields sc) (snd cfg) StartNotice"
proof -
  from match_out.run_inv [OF match_inv_init assms(1)] assms(2) obtain d where d: "pending_match_start_at st = Some d"
    by (auto simp: match_inv_def)
  note b = due_bound [OF assms(1) d]
  obtain t st1 where c: "read_clock (loop_ops sc config) st = (t, st1)" by (metis surj_pair)
  obtain w1 where "st1 = st\<lparr>world := w1\<rparr>" using c by (rule mw.read_clock_world)
  with b have inv: "match_inv (fst cfg) st1" by simp
  from c assms(4) have "flush flush_fuel (loop_ops sc config) cfg (t + match_start_delay_seconds + 1 / 2) st1 =
      Some (Inr st')" by (simp add: match_flush_def)
  from flush_delivers [OF assms(3) this inv, of d] read_clock_times [OF c] d b assms(2)
  show ?thesis by (simp add: match_start_delay_seconds_def)
qed



subsection \<open>Which inputs the announcer survives\<close>

text \<open>
  Extended replacement fields fail like plain ones, and the sender does not raise for the commands of
  this configuration.
\<close>

definition steady :: "'w match_ops \<Rightarrow> dict \<Rightarrow> bool" where
  "steady ops config \<longleftrightarrow> quiet_ext (fmt_fields ops) \<and>
     (\<forall>line g w. fst (send ops line (Some (command_for_group config g)) w) = Inr ())"

lemma format_template_total: "quiet_ext ext \<Longrightarrow> \<exists>r. format_template ext t args = Inr r"
  using py_format_errors [of ext args t]
  by (cases "py_format ext args t") (auto simp: format_template_def quiet_def)

lemma render_message_total: "quiet_ext ext \<Longrightarrow> \<exists>s. render_message ext config key args = Inr s"
  using format_template_total [of ext "template_of config key" args]
    format_template_total [of ext "text_or (dict_get default_messages key) []" args]
  by (auto simp: render_message_def Let_def split: option.splits)

lemma emit_total:
  assumes "steady ops config"
  shows "\<exists>st'. emit ops config s g st = Inr st'"
proof (cases "strip s = []")
  case False
  have cut: "(if length l > n then take n l else l) = take n l" for l :: string and n by simp
  let ?line = "take max_svsay_line_length (strip s)"
  let ?st = "st\<lparr>emitted := emitted st @ [(g, ?line)]\<rparr>"
  from assms have "fst (send ops ?line (Some (command_for_group config g)) (world ?st)) = Inr ()"
    by (simp add: steady_def)
  then have "call_send ops ?line (Some (command_for_group config g)) ?st =
      (Inr (), ?st\<lparr>world := snd (send ops ?line (Some (command_for_group config g)) (world ?st))\<rparr>)"
    unfolding call_send_def by (simp only: split_beta Let_def)
  with False show ?thesis unfolding emit_def Let_def cut by simp
qed (simp add: emit_def)

lemma summary_total: "steady ops config \<Longrightarrow> \<exists>st'. send_summary_and_reset ops config st = Inr st'"
proof -
  assume s: "steady ops config"
  then have q: "quiet_ext (fmt_fields ops)" by (simp add: steady_def)
  show ?thesis
  proof (cases "summary_sent st")
    case False
    let ?args = "[(''red_score'', score_value (final_red_score st)), (''blue_score'', score_value (final_blue_score st))]"
    from render_message_total [OF q] obtain msg where
      m: "render_message (fmt_fields ops) config (summary_key (final_red_score st) (final_blue_score st)) ?args = Inr msg"
      by blast
    from emit_total [OF s] obtain st1 where "emit ops config msg EndGroup (st\<lparr>summary_sent := True\<rparr>) = Inr st1" by blast
    with m False show ?thesis by (simp add: send_summary_and_reset_def)
  qed (simp add: send_summary_and_reset_def)
qed

lemma tick_total:
  assumes "steady ops (snd cfg)"
  shows "\<exists>st'. tick ops cfg st = Inr st'"
proof -
  from assms have q: "quiet_ext (fmt_fields ops)" by (simp add: steady_def)
  have start: "\<exists>st'. send_match_start ops (snd cfg) s = Inr st'" for s
  proof -
    from render_message_total [OF q] obtain msg where
      "render_message (fmt_fields ops) (snd cfg) ''tffa_start'' [] = Inr msg" by blast
    with emit_total [OF assms] show ?thesis by (simp add: send_match_start_def)
  qed
  show ?thesis
    using start by (auto simp: tick_def maybe_send_pending_match_start_def Let_def split: prod.splits)
qed

lemma raw_line_total:
  assumes "steady ops config"
  shows "\<exists>st'. on_raw_line ops config raw st = Inr st'"
  using summary_total [OF assms]
  by (auto simp: on_raw_line_def Let_def split: prod.splits option.splits)

lemma step_total:
  assumes "steady ops (snd cfg)"
  shows "\<exists>st'. match_step ops cfg inp st = Inr st'"
proof -
  have d: "\<exists>st'. dispatch ops cfg event st = Inr st'" for event
    using raw_line_total [OF assms] summary_total [OF assms]
    by (auto simp: dispatch_def on_shutdown_game_def Let_def)
  show ?thesis
  proof (cases inp)
    case Tick
    with tick_total [OF assms] show ?thesis by (simp add: match_step_def)
  next
    case (Event e)
    show ?thesis
    proof (cases "\<exists>event. e = JObj event")
      case True
      then obtain event st1 where e: "e = JObj event" "dispatch ops cfg event st = Inr st1" using d by blast
      with Event tick_total [OF assms, of st1] show ?thesis by (simp add: match_step_def handle_event_def tick_def)
    next
      case False
      with Event show ?thesis by (cases e) (simp_all add: match_step_def handle_event_def)
    qed
  qed
qed

lemma flush_total:
  assumes "steady ops (snd cfg)"
  shows "flush n ops cfg deadline st = Some r \<Longrightarrow> \<exists>st'. r = Inr st'"
proof (induction n arbitrary: st)
  case (Suc n)
  obtain t st1 where c: "read_clock ops st = (t, st1)" by (metis surj_pair)
  obtain st2 where "tick ops cfg (st1\<lparr>world := sleep flush_pause (world st1)\<rparr>) = Inr st2"
    using tick_total [OF assms] by blast
  with Suc.prems Suc.IH [of st2] c show ?case by (auto split: if_splits)
qed simp

text \<open>A call of the sender whose surroundings raise nothing that it does not catch.\<close>

definition call_benign :: "os_env \<times> net \<Rightarrow> bool" where
  "call_benign c \<longleftrightarrow>
     match_effective_rcon_password (fst c) (match_runtime_env_path (fst c)) \<in> range Inr \<and>
     match_current_server_port (fst c) (match_runtime_env_path (fst c)) \<in> Inr ` {0..65535} \<and>
     net_benign (snd c)"

definition script_benign :: "match_script \<Rightarrow> bool" where
  "script_benign sc \<longleftrightarrow> quiet_ext (other_fields sc) \<and> (\<forall>n. call_benign (call_env sc n)) \<and>
     (\<forall>t e. loads sc t = Inl e \<longrightarrow> e = JSONDecodeError)"

lemma transmit_total:
  assumes "0 \<le> port" "port \<le> 65535" "timeout_of config \<le> max_timeout_seconds" "net_benign net"
  shows "fst (transmit sc config net port pw c w) = Inr ()"
proof -
  obtain sent out where s: "match_send_rcon_command net (host_of config) port pw (timeout_of config) c = (sent, out)"
    by (metis surj_pair)
  with send_rcon_outcome [OF assms, of "host_of config" pw c] have "out = Inr () \<or> out = Inl OSError"
    by (simp add: match_helper_defs)
  with s show ?thesis by (auto simp: transmit_def Let_def split: prod.splits)
qed

lemma rcon_send_total:
  assumes "call_benign (call_env sc (w_sends w))" "timeout_of config \<le> max_timeout_seconds" "cmd \<noteq> []"
  shows "fst (rcon_send sc config line (Some (JStr cmd)) w) = Inr ()"
proof -
  obtain os net where e: "call_env sc (w_sends w) = (os, net)" by (metis surj_pair)
  from assms(1) e obtain pw port where
    p: "match_effective_rcon_password os (match_runtime_env_path os) = Inr pw"
    and q: "match_current_server_port os (match_runtime_env_path os) = Inr port" "0 \<le> port" "port \<le> 65535"
    and n: "net_benign net" by (auto simp: call_benign_def)
  have "\<exists>c. chosen_command config (Some (JStr cmd)) = Inr c"
    using assms(3) by (simp add: chosen_command_def py_or_def Let_def)
  then obtain c where c: "chosen_command config (Some (JStr cmd)) = Inr c" by blast
  show ?thesis
  proof (cases "pw = None \<or> pw = Some []")
    case True
    with e p show ?thesis by (auto simp: rcon_send_def)
  next
    case False
    then obtain x where "pw = Some x" "x \<noteq> []" by auto
    with e p q(1) c transmit_total [OF q(2,3) assms(2) n] show ?thesis by (simp add: rcon_send_def)
  qed
qed

text \<open>The constructor keeps what the loader validated.\<close>

lemma foldR_gametype_ints: "\<exists>r. foldR gametype_item (map JInt gs) p = Inr r"
  using gametype_loop_raises [of "map JInt gs" p]
  by (cases "foldR gametype_item (map JInt gs) p") auto

lemma init_config_valid:
  assumes "match_valid config"
  shows "\<exists>cfg. init_config config = Inr cfg \<and> fst cfg \<in> {[], [6]} \<and>
    (\<forall>g. \<exists>cmd \<in> set allowed_announce_commands. command_for_group (snd cfg) g = JStr cmd)"
proof -
  from assms obtain gs where "get_none config ''gametypes'' = JList (map JInt gs)"
    unfolding match_valid_def by blast
  then have "gametype_candidates (gametype_raw config) = map JInt gs"
    by (auto simp: get_none_def get_default_def gametype_raw_def gametype_candidates_def split: option.splits)
  with foldR_gametype_ints obtain r where r: "parse_configured_gametypes config = Inr r"
    by (auto simp: parse_configured_gametypes_def)
  then obtain c where c: "init_config config = Inr (r, c)"
    "get_none c ''match_start_command'' = get_none config ''match_start_command''"
    "get_none c ''match_end_command'' = get_none config ''match_end_command''"
    by (simp add: init_config_def Let_def)
  have "\<exists>cmd \<in> set allowed_announce_commands. command_for_group c g = JStr cmd" for g
    using assms by (cases g) (auto simp: match_valid_def command_for_group_def c py_or_def allowed_announce_commands_def)
  with c(1) parse_configured_gametypes_six [OF r] show ?thesis by simp
qed

lemma steady_loop:
  assumes "script_benign sc" "timeout_of config \<le> max_timeout_seconds"
    and "\<forall>g. \<exists>cmd \<in> set allowed_announce_commands. command_for_group conf g = JStr cmd"
  shows "steady (loop_ops sc config) conf"
proof -
  have "fst (rcon_send sc config line (Some (command_for_group conf g)) w) = Inr ()" for line g w
  proof -
    from assms(3) obtain cmd where cmd: "cmd \<in> set allowed_announce_commands" "command_for_group conf g = JStr cmd"
      by blast
    from cmd(1) have "cmd \<noteq> []" by (auto simp: allowed_announce_commands_def)
    with rcon_send_total [OF _ assms(2)] assms(1) cmd(2) show ?thesis by (simp add: script_benign_def)
  qed
  with assms(1) show ?thesis by (simp add: steady_def loop_ops_def script_benign_def)
qed

lemma poll_loop_total:
  assumes "steady ops (snd cfg)" "script_benign sc"
  shows "\<exists>st'. poll_loop sc ops cfg ps st = Inr st'"
proof (induction ps arbitrary: st)
  case (Cons p ps)
  have h: "\<exists>st'. handle_event ops cfg v s = Inr st'" for v s
    using step_total [OF assms(1), of "Event v" s] by (simp add: match_step_def)
  have l: "\<exists>ev. line_event sc raw = Inr ev" for raw
    using assms(2) by (cases "loads sc (strip raw)") (auto simp: line_event_def script_benign_def Let_def)
  show ?case
  proof (cases p)
    case PollIdle
    from tick_total [OF assms(1), of st] obtain s where "tick ops cfg st = Inr s" by blast
    with PollIdle Cons.IH show ?thesis by simp
  next
    case (PollLine raw)
    from l obtain ev where ev: "line_event sc raw = Inr ev" by blast
    have "\<exists>s. (case ev of None \<Rightarrow> Inr st | Some v \<Rightarrow> handle_event ops cfg v st) = Inr s"
      using h by (cases ev) auto
    with PollLine ev Cons.IH show ?thesis by auto
  qed simp_all
qed simp

text \<open>
  \<open>main\<close> returns: with an environment in which the runtime environment can be read, the port fits a
  socket and the network fails with \<open>OSError\<close> only, no input line, template or network failure ends
  the addon early, and after the input it leaves its flush loop.
\<close>

theorem match_main_returns:
  assumes "script_benign sc" and "match_load_config os = Inr config"
    and "timeout_of config \<le> max_timeout_seconds" and "log_benign io (get_none config ''log_file'')"
  shows "\<exists>st. match_main sc os io polls = Some (Inr st)"
proof -
  from init_config_valid [OF match_load_config_valid [OF assms(2)]] obtain cfg where
    cfg: "init_config config = Inr cfg"
      "\<forall>g. \<exists>cmd \<in> set allowed_announce_commands. command_for_group (snd cfg) g = JStr cmd" by blast
  note s = steady_loop [OF assms(1,3) cfg(2)]
  from poll_loop_total [OF s assms(1)] obtain st where
    st: "poll_loop sc (loop_ops sc config) cfg polls (match_init init_world) = Inr st" by blast
  obtain t st1 where c: "read_clock (loop_ops sc config) st = (t, st1)" by (metis surj_pair)
  from match_flush_ends [of sc config cfg st] obtain r where r: "match_flush (loop_ops sc config) cfg st = Some r" by blast
  with c have "flush flush_fuel (loop_ops sc config) cfg (t + match_start_delay_seconds + 1 / 2) st1 = Some r"
    by (simp add: match_flush_def)
  from flush_total [OF s this] obtain st' where "r = Inr st'" by blast
  with st r cfg(1) assms(2) open_log_benign [OF assms(4)] show ?thesis by (simp add: match_main_def)
qed

subsection \<open>Concrete runs\<close>

definition fast_script :: match_script where
  "fast_script = demo_script\<lparr>elapse := (\<lambda>_. 1 / 4)\<rparr>"

lemma fast_sel: "elapse fast_script n = 1 / 4" "other_fields fast_script = demo_fields"
  by (simp_all add: fast_script_def demo_sel)

lemma fast_send: "rcon_send fast_script c line cmd w = (Inr (), w\<lparr>w_sends := w_sends w + 1\<rparr>)"
  by (simp add: rcon_send_def fast_script_def demo_script_def demo_password)

definition pending_state :: "loop_world match_state" where
  "pending_state = \<lparr>armed = False, armed_at = None, match_started = True, match_ending = False,
     summary_sent = False, match_start_sent = False, pending_match_start = True,
     pending_match_start_at = Some (11 / 4), final_red_score = None, final_blue_score = None,
     current_gametype = Some 6, world = \<lparr>w_time = 1, w_reads = 4, w_sends = 0, w_last_send = 0, w_wire = []\<rparr>,
     emitted = []\<rparr>"

lemma pending_run:
  "foldR (match_step (loop_ops fast_script demo_config) ([6], demo_config))
     [Event (JObj vote_event), Event (JObj game_event)] (match_init init_world) = Inr pending_state"
  by (simp add: demo_eval match_init_def init_world_def loop_ops_def demo_vote monotonic_def
     pending_state_def fast_sel Let_def match_start_delay_seconds_def map_restart_arm_seconds_def)

lemma fast_steady: "steady (loop_ops fast_script demo_config) conf"
  by (simp add: steady_def loop_ops_def fast_send fast_sel quiet_ext_def demo_fields_def is_value_error_def)

lemma pending_flush:
  "\<exists>st'. match_flush (loop_ops fast_script demo_config) ([6], demo_config) pending_state = Some (Inr st')"
proof -
  obtain t st1 where c: "read_clock (loop_ops fast_script demo_config) pending_state = (t, st1)" by (metis surj_pair)
  obtain r where r: "match_flush (loop_ops fast_script demo_config) ([6], demo_config) pending_state = Some r"
    using match_flush_ends by blast
  with c have "flush flush_fuel (loop_ops fast_script demo_config) ([6], demo_config)
      (t + match_start_delay_seconds + 1 / 2) st1 = Some r" by (simp add: match_flush_def)
  from flush_total [OF _ this] fast_steady r show ?thesis by auto
qed

theorem match_flush_delivers_witness:
  "\<exists>st'. match_flush (loop_ops fast_script demo_config) ([6], demo_config) pending_state = Some (Inr st') \<and>
     emitted st' = notice_lines demo_fields demo_config StartNotice"
proof -
  obtain st' where f: "match_flush (loop_ops fast_script demo_config) ([6], demo_config) pending_state = Some (Inr st')"
    using pending_flush by blast
  have p: "pending_match_start pending_state" "emitted pending_state = []" by (simp_all add: pending_state_def)
  have "elapse fast_script n < 1 / 2" for n by (simp add: fast_sel)
  from match_flush_delivers [OF pending_run p(1) this f] f p(2) show ?thesis by (simp add: fast_sel)
qed

definition enabled_os :: os_env where
  "enabled_os = \<lparr>environ = (\<lambda>k. if k = ''JKA_ADDON_CONFIG_JSON'' then Some ''{}'' else None),
     file_at = (\<lambda>p. Missing), json_loads = (\<lambda>t. Inr (JObj [(''enabled'', JBool True)]))\<rparr>"

definition is_Inr_and :: "('a \<Rightarrow> bool) \<Rightarrow> 'a res \<Rightarrow> bool" where
  "is_Inr_and P r = (case r of Inr a \<Rightarrow> P a | Inl _ \<Rightarrow> False)"

lemma enabled_config:
  "is_Inr_and (\<lambda>c. timeout_of c = 3 \<and> get_none c ''enabled'' = JBool True \<and>
     get_none c ''log_file'' = JStr ''/home/container/logs/bundled-match-announcer.log'')
     (match_load_config enabled_os)"
  by code_simp

definition read_only_disk :: log_io where
  "read_only_disk = \<lparr>mkdir_answer = Inr (), open_answer = Inl OSError\<rparr>"

lemma demo_port: "match_current_server_port (sample_env []) (match_runtime_env_path (sample_env [])) = Inr 29070"
  by code_simp

lemma demo_benign: "script_benign demo_script"
  by (simp add: script_benign_def demo_script_def call_benign_def demo_password demo_port net_benign_def
      quiet_ext_def demo_fields_def is_value_error_def)

theorem match_main_returns_witness:
  "\<exists>st. match_main demo_script enabled_os read_only_disk [PollLine ''junk'', PollIdle, PollEof] = Some (Inr st)"
proof -
  from enabled_config obtain c where c: "match_load_config enabled_os = Inr c" "timeout_of c = 3"
    "get_none c ''log_file'' = JStr ''/home/container/logs/bundled-match-announcer.log''"
    by (auto simp: is_Inr_and_def split: sum.splits)
  then have "log_benign read_only_disk (get_none c ''log_file'')" by (simp add: log_benign_def read_only_disk_def)
  from match_main_returns [OF demo_benign c(1) _ this] c(2) show ?thesis by (simp add: max_timeout_seconds_def)
qed

end
