(* ===== verification/Match_Outcome.thy ===== *)
theory Match_Outcome
  imports Match_Flush Live_Team
begin

section \<open>The result line, the rendering and the wire\<close>

subsection \<open>Rendering\<close>

definition default_text :: "string \<Rightarrow> string" where
  "default_text key = text_or (dict_get default_messages key) []"

lemma default_texts_plain:
  "list_all (\<lambda>kv. no_braces (snd kv) \<and> sanitize_text (snd kv) = snd kv) default_messages"
  by code_simp

lemma default_text_plain: "no_braces (default_text key) \<and> sanitize_text (default_text key) = default_text key"
proof (cases "dict_get default_messages key")
  case None
  then show ?thesis by (simp add: default_text_def text_or_def no_braces_def sanitize_text_def control_char_re_def re_sub_chr_delete)
next
  case (Some v)
  from map_of_SomeD [OF Some] default_texts_plain have "no_braces v \<and> sanitize_text v = v"
    unfolding list_all_iff by fastforce
  with Some show ?thesis by (simp add: default_text_def text_or_def)
qed

text \<open>
  Rendering a message: the operator's template, cleaned, if \<open>str.format\<close> accepts it; the shipped text
  unchanged if the template is malformed or names an unknown field; and only an exception of another
  class is raised.
\<close>

theorem match_render_falls_back:
  "render_message ext config key args =
     (case py_format ext args (template_of config key) of
        Inr s \<Rightarrow> Inr (sanitize_text s)
      | Inl e \<Rightarrow> if e = KeyError \<or> e = IndexError \<or> is_value_error e then Inr (default_text key) else Inl e)"
  using default_text_plain [of key]
  by (cases "py_format ext args (template_of config key)")
     (auto simp: render_message_def format_template_def default_text_def py_format_no_braces text_or_def Let_def)

subsection \<open>The result line\<close>

text \<open>
  C5.  The score line decides the match: while a match runs, a \<open>red:R blue:B\<close> line makes the instance
  send exactly the rendering of the red, blue or draw message, whichever side has the higher score, and
  leaves it passive, with nothing pending.
\<close>

theorem match_score_line:
  assumes "foldR (match_step (loop_ops sc config) cfg) inps (match_init w) = Inr st" and "match_started st"
    and "get_none d ''type'' = JStr ''raw_line''" and "classify_raw (event_raw d) = ObsScore (Some r) (Some b)"
    and "match_step (loop_ops sc config) cfg (Event (JObj d)) st = Inr st'"
  shows "\<not> match_started st' \<and> \<not> pending_match_start st' \<and> armed st' = armed st \<and>
    emitted st' = emitted st @
      (case render_message (other_fields sc) (snd cfg)
              (if r > b then ''tffa_end_red'' else if b > r then ''tffa_end_blue'' else ''tffa_end_draw'')
              [(''red_score'', JInt r), (''blue_score'', JInt b)] of
         Inr msg \<Rightarrow> lines_of EndGroup msg
       | Inl _ \<Rightarrow> [])"
proof -
  have inv: "match_inv (fst cfg) st" by (rule match_out.run_inv [OF match_inv_init assms(1)])
  from mw.step_simulated [OF assms(5) inv] obtain t1 t2 t3 ns where
    s: "a_step (rules_of cfg) (classify (Event (JObj d)), t1, t2, t3) (abs_of st) = (abs_of st', ns)"
      "match_inv (fst cfg) st'" "emitted st' = emitted st @ concat (map (notice_lines (other_fields sc) (snd cfg)) ns)"
    unfolding simulated_def by (auto simp: loop_ops_def)
  have "classify (Event (JObj d)) = Pump (ObsScore (Some r) (Some b))"
    using assms(3,4) by (simp add: classify_event_def)
  with s(1) assms(2) have a: "abs_of st' = (abs_of st)\<lparr>a_phase := Passive\<rparr>" "ns = [EndNotice (Some r) (Some b)]"
    by (auto simp: abs_of_def)
  have "\<not> match_started st'" "armed_at st' = armed_at st" using a(1) by (auto simp: abs_of_def split: if_splits)
  moreover have "armed st' = armed st" "\<not> pending_match_start st'"
    using inv s(2) calculation by (auto simp: match_inv_def)
  ultimately show ?thesis
    using s(3) a(2) by (simp add: notice_lines_def notice_text_def summary_key_def score_value_def)
qed

lemma demo_classified: "classify_raw score_raw = ObsScore (Some 5) (Some 3)"
  by (simp add: classify_raw_def demo_recognised score_obs_def group_text_def group_def)

lemma demo_steady: "steady (loop_ops demo_script demo_config) conf"
  by (simp add: steady_def loop_ops_def demo_send demo_sel quiet_ext_def demo_fields_def is_value_error_def)

theorem match_score_line_witness:
  "\<exists>st'. match_step (loop_ops demo_script demo_config) ([6], demo_config) (Event (JObj score_event)) demo_state = Inr st' \<and>
     \<not> match_started st' \<and>
     emitted st' = emitted demo_state @ lines_of EndGroup ''^3Match Ended ^7- ^1RED TEAM wins.''"
proof -
  obtain st' where st': "match_step (loop_ops demo_script demo_config) ([6], demo_config)
      (Event (JObj score_event)) demo_state = Inr st'"
    using step_total [of "loop_ops demo_script demo_config" "([6], demo_config)" "Event (JObj score_event)" demo_state]
      demo_steady by blast
  have started: "match_started demo_state" by (simp add: demo_state_def)
  from match_score_line [OF demo_run started _ _ st', of 5 3] demo_classified
  show ?thesis using st' by (simp add: raw_event_get demo_texts demo_sel)
qed

subsection \<open>A usable configuration\<close>

definition match_commands_of :: "dict \<Rightarrow> string list" where
  "match_commands_of c = map (\<lambda>k. py_str (get_none c k))
     [''announce_command'', ''match_start_command'', ''match_end_command'']"

interpretation match_rcon: rcon_config match_load_config match_commands_of host_of timeout_of
  by unfold_locales
     (auto simp: match_commands_of_def host_of_def timeout_of_def match_valid_def dest!: match_load_config_valid)

text \<open>
  Whatever the operator configured, a loaded configuration builds an instance: its game types are
  none or TFFA, and the command line of each message group is \<open>svsay\<close> or \<open>say\<close> with the quoted text;
  the sender has a host and a timeout of at least a second.
\<close>

theorem match_config_usable:
  assumes "match_load_config os = Inr config"
  shows "1 \<le> timeout_of config \<and> host_of config \<noteq> [] \<and>
    (\<exists>cfg. init_config config = Inr cfg \<and> fst cfg \<in> {[], [6]} \<and>
      (\<forall>g. \<exists>cmd. command_for_group (snd cfg) g = JStr cmd \<and> chosen_command config (Some (JStr cmd)) = Inr cmd \<and>
         (command_line cmd m = ''svsay '' @ quote_rcon_arg m \<or> command_line cmd m = ''say '' @ quote_rcon_arg m)))"
proof -
  have c: "chosen_command config (Some (JStr cmd)) = Inr cmd" "command_line cmd m = ''svsay '' @ quote_rcon_arg m \<or>
      command_line cmd m = ''say '' @ quote_rcon_arg m" if "cmd \<in> set allowed_announce_commands" for cmd
  proof -
    have "list_all (\<lambda>c. c \<noteq> [] \<and> lower (strip c) = c) allowed_announce_commands" by code_simp
    with that have "cmd \<noteq> []" "lower (strip cmd) = cmd" by (auto simp: list_all_iff)
    with that show "chosen_command config (Some (JStr cmd)) = Inr cmd"
      by (simp add: chosen_command_def py_or_def match_helper_defs Let_def)
    from that show "command_line cmd m = ''svsay '' @ quote_rcon_arg m \<or>
      command_line cmd m = ''say '' @ quote_rcon_arg m" by (auto simp: command_line_def allowed_announce_commands_def)
  qed
  from init_config_valid [OF match_load_config_valid [OF assms]] c match_rcon.timeout_positive [OF assms]
    match_rcon.host_nonempty [OF assms] show ?thesis by meson
qed

theorem match_config_usable_witness:
  "\<exists>config. match_load_config enabled_os = Inr config \<and> 1 \<le> timeout_of config \<and> host_of config \<noteq> []"
proof -
  from enabled_config obtain c where "match_load_config enabled_os = Inr c"
    by (auto simp: is_Inr_and_def split: sum.splits)
  with match_config_usable [OF this] show ?thesis by blast
qed

subsection \<open>The wire\<close>

text \<open>
  A relation between the world and the emitted lines that the clock, a new line, and the sending of an
  emitted line keep; every step of the class then keeps it.
\<close>

locale world_invariant =
  fixes ops :: "'w match_ops"
    and P :: "'w \<Rightarrow> (msg_group \<times> string) list \<Rightarrow> bool"
  assumes clock_P: "P w es \<Longrightarrow> clock ops w = (t, w') \<Longrightarrow> P w' es"
    and line_P: "P w es \<Longrightarrow> P w (es @ [e])"
    and send_P: "P w es \<Longrightarrow> (g, line) \<in> set es \<Longrightarrow> send ops line cmd w = (r, w') \<Longrightarrow> P w' es"
begin

abbreviation holds :: "'w match_state \<Rightarrow> bool" where
  "holds st \<equiv> P (world st) (emitted st)"

lemma read_clock_holds: "read_clock ops st = (t, st') \<Longrightarrow> holds st \<Longrightarrow> holds st'"
  using clock_P by (auto simp: read_clock_def split: prod.splits)

lemma call_send_holds:
  "call_send ops line cmd st = (r, st') \<Longrightarrow> (g, line) \<in> set (emitted st) \<Longrightarrow> holds st \<Longrightarrow>
   holds st' \<and> emitted st' = emitted st"
  using send_P by (auto simp: call_send_def split: prod.splits)

lemma emit_holds:
  assumes "emit ops config msg g st = Inr st'" "holds st"
  shows "holds st'"
proof (cases "strip msg = []")
  case True
  with assms show ?thesis by (simp add: emit_def)
next
  case False
  let ?line = "take max_svsay_line_length (strip msg)"
  let ?st = "st\<lparr>emitted := emitted st @ [(g, ?line)]\<rparr>"
  have cut: "(if length l > n then take n l else l) = take n l" for l :: string and n by simp
  obtain r st1 where c: "call_send ops ?line (Some (command_for_group config g)) ?st = (r, st1)" by (metis surj_pair)
  obtain r' st2 where c': "call_send ops ?line None st1 = (r', st2)" by (metis surj_pair)
  have hst: "holds ?st" using assms(2) line_P by simp
  have mem: "(g, ?line) \<in> set (emitted ?st)" by simp
  from call_send_holds [OF c mem hst] have h1: "holds st1" "emitted st1 = emitted ?st" by blast+
  from mem h1(2) have "(g, ?line) \<in> set (emitted st1)" by simp
  from call_send_holds [OF c' this h1(1)] have h2: "holds st2" by blast
  from assms(1) False c c' have "st' = st1 \<or> st' = st2"
    unfolding emit_def Let_def cut by (auto simp: bindR_eq_Inr split: sum.splits if_splits)
  with h1(1) h2 show ?thesis by blast
qed

lemma summary_holds:
  assumes "send_summary_and_reset ops config st = Inr st'" "holds st"
  shows "holds st'"
proof (cases "summary_sent st")
  case True
  with assms show ?thesis by (simp add: send_summary_and_reset_def)
next
  case False
  with assms(1) obtain msg st1 where
    "emit ops config msg EndGroup (st\<lparr>summary_sent := True\<rparr>) = Inr st1" "st' = reset_match st1"
    by (auto simp: send_summary_and_reset_def bindR_eq_Inr Let_def)
  with emit_holds [OF this(1)] assms(2) show ?thesis by (simp add: reset_match_def)
qed

lemma tick_holds:
  assumes "tick ops cfg st = Inr st'" "holds st"
  shows "holds st'"
proof -
  obtain t st1 where c: "read_clock ops st = (t, st1)" by (metis surj_pair)
  have h1: "holds st1" using c assms(2) by (rule read_clock_holds)
  have start: "holds s'" if "send_match_start ops (snd cfg) s = Inr s'" "holds s" for s s'
    using that emit_holds by (auto simp: send_match_start_def bindR_eq_Inr)
  from assms c h1 show ?thesis
    unfolding tick_def maybe_send_pending_match_start_def Let_def
    by (auto split: if_splits option.splits elim!: start)
qed

lemma raw_line_holds:
  assumes "on_raw_line ops config raw st = Inr st'" "holds st"
  shows "holds st'"
proof -
  have scores: "world (read_scores cs s) = world s \<and> emitted (read_scores cs s) = emitted s" for cs and s :: "'w match_state"
    by (simp add: read_scores_def split: sum.splits)
  obtain t st1 where c: "read_clock ops (st\<lparr>armed := True\<rparr>) = (t, st1)" by (metis surj_pair)
  have h1: "holds st1" using c by (rule read_clock_holds) (use assms(2) in simp)
  from assms c h1 show ?thesis
    unfolding on_raw_line_def Let_def
    by (auto split: if_splits option.splits elim!: summary_holds simp: scores)
qed

lemma init_game_holds:
  assumes "holds st"
  shows "holds (on_init_game ops config gts raw st)"
proof -
  have disarm: "holds (disarm s) = holds s" for s by (simp add: disarm_def)
  have activate: "holds (activate ops gt s)" if "holds s" for gt s
  proof -
    let ?s = "(disarm ((reset_match s)\<lparr>current_gametype := Some gt, match_started := True\<rparr>))
      \<lparr>pending_match_start := True\<rparr>"
    obtain t s1 where c: "read_clock ops ?s = (t, s1)" by (metis surj_pair)
    have "holds ?s" using that by (simp add: disarm_def reset_match_def)
    with read_clock_holds [OF c] have "holds s1" by blast
    with c show ?thesis by (simp add: activate_def Let_def)
  qed
  have armed: "holds s'" if "is_armed_now ops st = (b, s')" for b s'
    using that assms read_clock_holds by (auto simp: is_armed_now_def split: if_splits option.splits prod.splits)
  show ?thesis using assms disarm activate armed
    by (auto simp: on_init_game_def split: option.splits prod.splits)
qed

lemma step_holds:
  assumes "match_step ops cfg inp st = Inr st'" "holds st"
  shows "holds st'"
proof -
  have d: "holds s'" if "dispatch ops cfg event st = Inr s'" for event s'
    using that assms(2) init_game_holds raw_line_holds summary_holds
    by (auto simp: dispatch_def Let_def on_team_change_def on_shutdown_game_def reset_match_def split: if_splits)
  show ?thesis
  proof (cases inp)
    case Tick
    with assms tick_holds [of cfg st st'] show ?thesis by (simp add: match_step_def)
  next
    case (Event e)
    with assms d tick_holds [unfolded tick_def] show ?thesis
      by (cases e) (auto simp: match_step_def handle_event_def bindR_eq_Inr)
  qed
qed

lemma run_holds: "foldR (match_step ops cfg) inps st = Inr st' \<Longrightarrow> holds st \<Longrightarrow> holds st'"
  by (rule foldR_invariant [where P = holds and f = "match_step ops cfg"]) (auto intro: step_holds)

end

text \<open>A datagram for one of the emitted lines.\<close>

definition line_datagram :: "dict \<Rightarrow> string \<Rightarrow> datagram \<Rightarrow> bool" where
  "line_datagram config line d \<longleftrightarrow> d_host d = host_of config \<and>
     (\<exists>pw cmd. pw \<noteq> [] \<and> cmd \<in> set allowed_announce_commands \<and> d_payload d = rcon_payload pw (command_line cmd line))"

definition wire_explained :: "dict \<Rightarrow> loop_world \<Rightarrow> (msg_group \<times> string) list \<Rightarrow> bool" where
  "wire_explained config w es \<longleftrightarrow> (\<forall>d \<in> set (w_wire w). \<exists>e \<in> set es. line_datagram config (snd e) d)"

lemma monotonic_wire: "monotonic sc w = (t, w') \<Longrightarrow> w_wire w' = w_wire w"
  by (auto simp: monotonic_def Let_def)

lemma transmit_wire:
  assumes "transmit sc config net port pw c w = (r, w')"
  shows "\<exists>sent. w_wire w' = w_wire w @ sent \<and>
    (sent = [] \<or> (\<exists>d. sent = [d] \<and> d_host d = host_of config \<and> d_payload d = rcon_payload pw c))"
proof -
  obtain now w1 where m: "monotonic sc w = (now, w1)" by (metis surj_pair)
  define w2 where "w2 = (if now - w_last_send w1 < line_delay_seconds
    then sleep (line_delay_seconds - (now - w_last_send w1)) w1 else w1)"
  obtain sent out where s: "match_send_rcon_command net (host_of config) port pw (timeout_of config) c =
    (sent, out)" by (metis surj_pair)
  obtain t w3 where m3: "monotonic sc (w2\<lparr>w_wire := w_wire w2 @ sent\<rparr>) = (t, w3)" by (metis surj_pair)
  from assms m s m3 have "w' = w3\<lparr>w_last_send := t\<rparr> \<or> w' = w2\<lparr>w_wire := w_wire w2 @ sent\<rparr>"
    unfolding transmit_def Let_def w2_def by (auto split: sum.splits if_splits)
  moreover have "w_wire w2 = w_wire w" using monotonic_wire [OF m] by (simp add: w2_def sleep_def)
  ultimately have "w_wire w' = w_wire w @ sent" using monotonic_wire [OF m3] by auto
  with send_rcon_sent [OF s [unfolded match_helper_defs]] show ?thesis by blast
qed

lemma chosen_command_allowed: "chosen_command config cmd = Inr c \<Longrightarrow> c \<in> set allowed_announce_commands"
  by (auto simp: chosen_command_def match_helper_defs Let_def svsay_allowed split: json.splits if_splits)

lemma rcon_send_wire:
  assumes "rcon_send sc config line cmd w = (r, w')"
  shows "\<exists>sent. w_wire w' = w_wire w @ sent \<and> (\<forall>d \<in> set sent. line_datagram config line d)"
proof -
  obtain os net where e: "call_env sc (w_sends w) = (os, net)" by (metis surj_pair)
  let ?w = "w\<lparr>w_sends := w_sends w + 1\<rparr>"
  from assms e consider "w' = ?w"
    | port pw c where "pw \<noteq> []" "chosen_command config cmd = Inr c"
        "transmit sc config net port pw (command_line c line) ?w = (r, w')"
    by (auto simp: rcon_send_def Let_def command_line_def match_helper_defs
        split: sum.splits option.splits if_splits)
  then show ?thesis
  proof cases
    case 1
    then show ?thesis by (intro exI [of _ "[]"]) simp
  next
    case 2
    have d: "line_datagram config line d"
      if "d_host d = host_of config" "d_payload d = rcon_payload pw (command_line c line)" for d
      unfolding line_datagram_def using that 2(1) chosen_command_allowed [OF 2(2)] by blast
    from transmit_wire [OF 2(3)] obtain sent where "w_wire w' = w_wire ?w @ sent"
      "sent = [] \<or> (\<exists>d. sent = [d] \<and> d_host d = host_of config \<and> d_payload d = rcon_payload pw (command_line c line))"
      by blast
    with d show ?thesis by (intro exI [of _ sent]) auto
  qed
qed

interpretation match_wire: world_invariant "loop_ops sc config" "wire_explained config" for sc config
proof
  show "wire_explained config w' es" if "wire_explained config w es" "clock (loop_ops sc config) w = (t, w')"
    for w es t w' using that by (auto simp: loop_ops_def wire_explained_def dest: monotonic_wire)
  show "wire_explained config w (es @ [e])" if "wire_explained config w es" for w es e
    using that by (auto simp: wire_explained_def)
  show "wire_explained config w' es" if "wire_explained config w es" "(g, line) \<in> set es"
    "send (loop_ops sc config) line cmd w = (r, w')" for w es g line cmd r w'
  proof -
    from that(3) have "rcon_send sc config line cmd w = (r, w')" by (simp add: loop_ops_def)
    from rcon_send_wire [OF this] obtain sent where sent: "w_wire w' = w_wire w @ sent"
      "\<forall>d \<in> set sent. line_datagram config line d" by blast
    with that(1,2) show ?thesis by (simp add: wire_explained_def ball_Un) (metis snd_conv)
  qed
qed

text \<open>
  Nothing else reaches the wire: every datagram goes to the configured host and carries, behind a
  non-empty password, \<open>svsay\<close> or \<open>say\<close> with the quoted text of a line the instance emitted.
\<close>

theorem match_datagrams:
  assumes "foldR (match_step (loop_ops sc config) cfg) inps (match_init init_world) = Inr st"
    and "d \<in> set (w_wire (world st))"
  shows "\<exists>g line pw cmd. (g, line) \<in> set (emitted st) \<and> cmd \<in> {''svsay'', ''say''} \<and> pw \<noteq> [] \<and>
    d_host d = host_of config \<and> d_payload d = rcon_payload pw (cmd @ '' '' @ quote_rcon_arg line)"
proof -
  have "wire_explained config (world (match_init init_world)) (emitted (match_init init_world))"
    by (simp add: match_init_def reset_all_def reset_match_def disarm_def wire_explained_def init_world_def)
  with match_wire.run_holds [OF assms(1)] have "wire_explained config (world st) (emitted st)" by blast
  with assms(2) obtain e where "e \<in> set (emitted st)" "line_datagram config (snd e) d"
    unfolding wire_explained_def by blast
  moreover obtain g line where "e = (g, line)" by (cases e)
  ultimately obtain pw cmd where "(g, line) \<in> set (emitted st)" "d_host d = host_of config" "pw \<noteq> []"
    "cmd \<in> set allowed_announce_commands" "d_payload d = rcon_payload pw (command_line cmd line)"
    by (auto simp: line_datagram_def)
  moreover from this(4) have "cmd \<in> {''svsay'', ''say''}" by (simp add: allowed_announce_commands_def)
  ultimately show ?thesis unfolding command_line_def by blast
qed

definition wire_script :: match_script where
  "wire_script = demo_script\<lparr>call_env := (\<lambda>_. (sample_os ''29070'', TimesOut))\<rparr>"

definition wire_config :: dict where
  "wire_config = (''rcon_host'', JStr ''127.0.0.1'') # (''rcon_timeout_seconds'', JInt 3) # demo_config"

lemma wire_config_facts:
  "match_effective_rcon_password (sample_os ''29070'') (match_runtime_env_path (sample_os ''29070'')) = Inr (Some ''pw'')"
  "match_current_server_port (sample_os ''29070'') (match_runtime_env_path (sample_os ''29070'')) = Inr 29070"
  "chosen_command wire_config (Some (command_for_group wire_config StartGroup)) = Inr ''svsay''"
  "host_of wire_config = ''127.0.0.1''" "timeout_of wire_config = 3" "require_vote wire_config"
  "render_message demo_fields wire_config ''tffa_start'' [] = Inr ''^3Match Started ^7- ^2Good Luck, Have Fun!''"
  by code_simp+

lemma wire_sel:
  "elapse wire_script n = 1" "other_fields wire_script = demo_fields"
  "call_env wire_script n = (sample_os ''29070'', TimesOut)"
  by (simp_all add: wire_script_def demo_sel)

definition start_datagram :: datagram where
  "start_datagram = \<lparr>d_host = ''127.0.0.1'', d_port = 29070, d_payload = rcon_payload ''pw''
     (''svsay '' @ quote_rcon_arg ''^3Match Started ^7- ^2Good Luck, Have Fun!'')\<rparr>"

lemma wire_transmit:
  "fst (transmit wire_script wire_config TimesOut 29070 ''pw'' c w) = Inr ()"
  "w_wire (snd (transmit wire_script wire_config TimesOut 29070 ''pw'' c w)) =
     w_wire w @ [\<lparr>d_host = ''127.0.0.1'', d_port = 29070, d_payload = rcon_payload ''pw'' c\<rparr>]"
  by (simp_all add: wire_sel wire_config_facts transmit_def monotonic_def match_send_rcon_command_def
      send_rcon_command_def socket_check_def max_timeout_seconds_def Let_def sleep_def)

lemma wire_send:
  "rcon_send wire_script wire_config line (Some (command_for_group wire_config StartGroup)) w =
     (Inr (), snd (transmit wire_script wire_config TimesOut 29070 ''pw'' (''svsay'' @ '' '' @ quote_rcon_arg line)
       (w\<lparr>w_sends := w_sends w + 1\<rparr>)))"
  using wire_transmit(1) [of "''svsay'' @ '' '' @ quote_rcon_arg line" "w\<lparr>w_sends := w_sends w + 1\<rparr>"]
  by (simp add: rcon_send_def wire_sel wire_config_facts match_quote_rcon_arg_def prod_eq_iff)

lemma wire_run:
  "\<exists>st. foldR (match_step (loop_ops wire_script wire_config) ([6], wire_config))
     [Event (JObj vote_event), Event (JObj game_event), Tick] (match_init init_world) = Inr st \<and>
     start_datagram \<in> set (w_wire (world st))"
  by (simp add: demo_eval match_init_def init_world_def loop_ops_def wire_send wire_transmit wire_config_facts demo_texts
     monotonic_def wire_sel max_svsay_line_length_def match_start_delay_seconds_def map_restart_arm_seconds_def
     start_datagram_def Let_def)

theorem match_datagrams_witness:
  "\<exists>st g line pw cmd. foldR (match_step (loop_ops wire_script wire_config) ([6], wire_config))
     [Event (JObj vote_event), Event (JObj game_event), Tick] (match_init init_world) = Inr st \<and>
     (g, line) \<in> set (emitted st) \<and> cmd \<in> {''svsay'', ''say''} \<and>
     d_payload start_datagram = rcon_payload pw (cmd @ '' '' @ quote_rcon_arg line)"
proof -
  from wire_run obtain st where st: "foldR (match_step (loop_ops wire_script wire_config) ([6], wire_config))
     [Event (JObj vote_event), Event (JObj game_event), Tick] (match_init init_world) = Inr st"
    "start_datagram \<in> set (w_wire (world st))" by blast
  from match_datagrams [OF st] st(1) show ?thesis by blast
qed

end
