(* ===== verification/Match_Stdin.thy ===== *)
theory Match_Stdin
  imports Match_Outcome
begin

section \<open>\<open>match-announcer.py\<close>: how the loop reads its standard input\<close>

text \<open>
  The loop of \<open>main\<close> asks \<open>select\<close> about the pipe and then reads one line with \<open>sys.stdin.readline()\<close>,
  which has a buffer of its own: a read takes everything the pipe holds, and \<open>select\<close> does not see what is
  left in that buffer.  The environment is a list of arrivals: a quarter of a second in which nothing comes, a
  chunk of text as one read of the pipe gives it (decoded, newlines translated), the end of the stream, a
  failure of \<open>select\<close>.  An empty list is the moment the observation stops, with the stream still open.
\<close>

datatype arrival = Quiet | Data string | Closed | SelectFails

definition nl :: char where "nl = CHR 0x0A"

definition line_of :: "string \<Rightarrow> string" where
  "line_of buf = takeWhile (\<lambda>c. c \<noteq> nl) buf @ [nl]"

definition rest_of :: "string \<Rightarrow> string" where
  "rest_of buf = tl (dropWhile (\<lambda>c. c \<noteq> nl) buf)"

text \<open>\<open>readline\<close> blocks until the buffer has a line or the stream ends; \<open>None\<close>: it is still waiting.\<close>

fun readline :: "string \<Rightarrow> arrival list \<Rightarrow> (string \<times> string \<times> arrival list) option" where
  "readline buf [] = (if nl \<in> set buf then Some (line_of buf, rest_of buf, []) else None)"
| "readline buf (a # arr) =
     (if nl \<in> set buf then Some (line_of buf, rest_of buf, a # arr)
      else case a of
             Data s \<Rightarrow> readline (buf @ s) arr
           | Closed \<Rightarrow> Some (buf, [], a # arr)
           | _ \<Rightarrow> readline buf arr)"

definition arrival_size :: "arrival \<Rightarrow> nat" where
  "arrival_size a = (case a of Data s \<Rightarrow> Suc (length s) | _ \<Rightarrow> 1)"

lemma take_drop_line:
  assumes "nl \<in> set buf"
  shows "buf = line_of buf @ rest_of buf" and "length buf = length (line_of buf) + length (rest_of buf)"
proof -
  from assms show "buf = line_of buf @ rest_of buf"
    by (induction buf) (auto simp: line_of_def rest_of_def)
  then show "length buf = length (line_of buf) + length (rest_of buf)" by (metis length_append)
qed

lemma readline_size:
  "readline buf arr = Some (raw, buf', arr') \<Longrightarrow>
   length raw + length buf' + sum_list (map arrival_size arr') \<le> length buf + sum_list (map arrival_size arr)"
proof (induction buf arr rule: readline.induct)
  case (1 buf)
  then show ?case by (auto simp: take_drop_line(2) split: if_splits)
next
  case (2 buf a arr)
  show ?case
  proof (cases "nl \<in> set buf")
    case True
    with "2.prems" have "raw = line_of buf" "buf' = rest_of buf" "arr' = a # arr" by simp_all
    with take_drop_line(2) [OF True] show ?thesis by simp
  next
    case False
    then show ?thesis using "2.prems" "2.IH" [OF False]
      by (cases a) (auto simp: arrival_size_def)
  qed
qed

text \<open>The passes of the loop: what \<open>select\<close> and \<open>readline\<close> give, one after the other.\<close>

function stdin_polls :: "string \<Rightarrow> arrival list \<Rightarrow> poll list" where
  "stdin_polls buf [] = []"
| "stdin_polls buf (a # arr) =
     (case a of
        SelectFails \<Rightarrow> [PollFails]
      | Quiet \<Rightarrow> PollIdle # stdin_polls buf arr
      | _ \<Rightarrow> (case readline buf (a # arr) of
                None \<Rightarrow> []
              | Some (raw, buf', arr') \<Rightarrow>
                  if raw = [] then [PollEof] else PollLine raw # stdin_polls buf' arr'))"
  by pat_completeness auto
termination
proof (relation "measure (\<lambda>(buf, arr). length buf + sum_list (map arrival_size arr))", goal_cases)
  case 1
  show ?case by simp
next
  case 2
  show ?case by (simp add: arrival_size_def split: arrival.split)
next
  case (3 buf a arr s x raw y buf' arr')
  then show ?case using readline_size [of buf "a # arr" raw buf' arr'] by (cases raw) auto
next
  case (4 buf a arr x raw y buf' arr')
  then show ?case using readline_size [of buf "a # arr" raw buf' arr'] by (cases raw) auto
qed

text \<open>\<open>main\<close> on the arrivals.\<close>

definition match_program ::
  "match_script \<Rightarrow> os_env \<Rightarrow> log_io \<Rightarrow> arrival list \<Rightarrow> loop_world match_state res option" where
  "match_program sc os io arrivals = match_main sc os io (stdin_polls [] arrivals)"

subsection \<open>Every line of the input is handled once, in order\<close>

text \<open>The lines of a text with their ends, the last one possibly without.\<close>

function input_lines :: "string \<Rightarrow> string list" where
  "input_lines t =
     (if t = [] then [] else if nl \<in> set t then line_of t # input_lines (rest_of t) else [t])"
  by pat_completeness auto
termination
proof (relation "measure length", goal_cases)
  case 1
  show ?case by simp
next
  case (2 t)
  then have "length t = length (line_of t) + length (rest_of t)" by (simp add: take_drop_line(2))
  then show ?case by (simp add: line_of_def)
qed

declare input_lines.simps [simp del]

definition stream_text :: "arrival list \<Rightarrow> string" where
  "stream_text arr = concat (map (\<lambda>a. case a of Data s \<Rightarrow> s | _ \<Rightarrow> []) arr)"

definition open_stream :: "arrival list \<Rightarrow> bool" where
  "open_stream arr \<longleftrightarrow> list_all (\<lambda>a. a \<noteq> Closed \<and> a \<noteq> SelectFails) arr"

lemma stream_simps [simp]:
  "stream_text [] = []" "stream_text (Quiet # arr) = stream_text arr" "stream_text (Data s # arr) = s @ stream_text arr"
  "stream_text (Closed # arr) = stream_text arr" "stream_text (arr @ [Closed]) = stream_text arr"
  "open_stream []" "open_stream (Quiet # arr) = open_stream arr" "open_stream (Data s # arr) = open_stream arr"
  "\<not> open_stream (Closed # arr)" "\<not> open_stream (SelectFails # arr)"
  by (simp_all add: stream_text_def open_stream_def)

lemma line_of_append: "nl \<in> set buf \<Longrightarrow> line_of (buf @ t) = line_of buf \<and> rest_of (buf @ t) = rest_of buf @ t"
  by (induction buf) (auto simp: line_of_def rest_of_def)

lemma line_of_nonempty [simp]: "line_of buf \<noteq> []"
  by (simp add: line_of_def)

lemma readline_line:
  assumes "open_stream arr"
  shows "\<exists>raw buf' arr'. readline buf (arr @ [Closed]) = Some (raw, buf', arr' @ [Closed]) \<and> open_stream arr' \<and>
    input_lines (buf @ stream_text arr) = (if raw = [] then [] else raw # input_lines (buf' @ stream_text arr'))"
  using assms
proof (induction arr arbitrary: buf)
  case Nil
  show ?case
  proof (cases "nl \<in> set buf")
    case True
    then show ?thesis using input_lines.simps [of buf]
      by (intro exI [of _ "line_of buf"] exI [of _ "rest_of buf"] exI [of _ "[]"]) auto
  next
    case False
    then show ?thesis using input_lines.simps [of buf] input_lines.simps [of "[]"]
      by (intro exI [of _ buf] exI [of _ "[]"]) auto
  qed
next
  case (Cons a arr)
  show ?case
  proof (cases "nl \<in> set buf")
    case True
    have "input_lines (buf @ stream_text (a # arr)) = line_of buf # input_lines (rest_of buf @ stream_text (a # arr))"
      using input_lines.simps [of "buf @ stream_text (a # arr)"] line_of_append [OF True, of "stream_text (a # arr)"] True
      by auto
    with True Cons.prems show ?thesis
      by (intro exI [of _ "line_of buf"] exI [of _ "rest_of buf"] exI [of _ "a # arr"]) simp
  next
    case False
    with Cons show ?thesis by (cases a) (simp_all add: append_assoc [symmetric] del: append_assoc)
  qed
qed

lemma polls_step:
  assumes "a \<noteq> Quiet" "a \<noteq> SelectFails"
  shows "stdin_polls buf (a # arr) =
     (case readline buf (a # arr) of
        None \<Rightarrow> []
      | Some (raw, buf', arr') \<Rightarrow> if raw = [] then [PollEof] else PollLine raw # stdin_polls buf' arr')"
  using assms by (cases a) simp_all

lemma polls_lines:
  assumes "open_stream arr"
  shows "filter (\<lambda>p. p \<noteq> PollIdle) (stdin_polls buf (arr @ [Closed])) =
    map PollLine (input_lines (buf @ stream_text arr)) @ [PollEof]"
  using assms
proof (induction "length buf + sum_list (map arrival_size arr)" arbitrary: buf arr rule: less_induct)
  case less
  show ?case
  proof (cases "\<exists>arr'. arr = Quiet # arr'")
    case True
    then obtain arr' where q: "arr = Quiet # arr'" by blast
    have "length buf + sum_list (map arrival_size arr') < length buf + sum_list (map arrival_size arr)"
      by (simp add: q arrival_size_def)
    from less.hyps [OF this] less.prems show ?thesis by (simp add: q)
  next
    case False
    from readline_line [OF less.prems] obtain raw buf' arr' where
      r: "readline buf (arr @ [Closed]) = Some (raw, buf', arr' @ [Closed])" "open_stream arr'"
      "input_lines (buf @ stream_text arr) = (if raw = [] then [] else raw # input_lines (buf' @ stream_text arr'))"
      by blast
    obtain a rest where a: "arr @ [Closed] = a # rest" "a \<noteq> Quiet" "a \<noteq> SelectFails"
    proof (cases arr)
      case (Cons b list)
      with False less.prems show ?thesis by (cases b) (auto intro: that)
    qed (auto intro: that)
    have p: "stdin_polls buf (arr @ [Closed]) =
        (if raw = [] then [PollEof] else PollLine raw # stdin_polls buf' (arr' @ [Closed]))"
      using r(1) polls_step [OF a(2,3), of buf rest] by (simp add: a(1))
    have "filter (\<lambda>p. p \<noteq> PollIdle) (stdin_polls buf' (arr' @ [Closed])) =
        map PollLine (input_lines (buf' @ stream_text arr')) @ [PollEof]" if "raw \<noteq> []"
      using less.hyps [OF _ r(2)] readline_size [OF r(1)] that by (cases raw) auto
    with p r(3) show ?thesis by simp
  qed
qed

text \<open>
  C33.  However the supervisor's writes are cut into chunks and whatever pauses lie between them, the loop
  handles exactly the lines of the text that was written, in order, and then sees the end of the stream.
\<close>

theorem match_input_complete:
  assumes "open_stream arr"
  shows "filter (\<lambda>p. p \<noteq> PollIdle) (stdin_polls [] (arr @ [Closed])) =
    map PollLine (input_lines (stream_text arr)) @ [PollEof]"
  using polls_lines [OF assms, of "[]"] by simp

theorem match_input_complete_witness:
  "filter (\<lambda>p. p \<noteq> PollIdle) (stdin_polls [] ([Data ''a'', Quiet, Data (CHR ''b'' # nl # ''c'')] @ [Closed])) =
    map PollLine [''ab'' @ [nl], ''c''] @ [PollEof]"
proof -
  have "input_lines (''ab'' @ nl # ''c'') = line_of (''ab'' @ nl # ''c'') # input_lines (rest_of (''ab'' @ nl # ''c''))"
    by (subst input_lines.simps) simp
  moreover have "line_of (''ab'' @ nl # ''c'') = ''ab'' @ [nl]" "rest_of (''ab'' @ nl # ''c'') = ''c''"
    by (simp_all add: line_of_def rest_of_def nl_def)
  moreover have "input_lines ''c'' = [''c'']"
    by (subst input_lines.simps) (simp add: nl_def)
  ultimately have i: "input_lines (''ab'' @ nl # ''c'') = [''ab'' @ [nl], ''c'']" by simp
  have t: "open_stream [Data ''a'', Quiet, Data (CHR ''b'' # nl # ''c'')]"
    "stream_text [Data ''a'', Quiet, Data (CHR ''b'' # nl # ''c'')] = ''ab'' @ nl # ''c''" by simp_all
  show ?thesis by (simp only: match_input_complete [OF t(1)] t(2) i)
qed

text \<open>
  But the rest of a chunk waits: after a line that came together with others, \<open>select\<close> looks at the empty
  pipe and times out, as often as nothing new is written; only ticks happen, and the waiting line is not
  handled.  With a passed vote and the game start that follows it in one write, the start is not seen.
\<close>

lemma polls_burst:
  assumes "nl \<notin> set v"
  shows "stdin_polls [] (Data (v @ nl # g @ [nl]) # replicate n Quiet) = PollLine (v @ [nl]) # replicate n PollIdle"
proof -
  have l: "line_of (v @ nl # g @ [nl]) = v @ [nl]" "rest_of (v @ nl # g @ [nl]) = g @ [nl]"
    using assms by (simp_all add: line_of_def rest_of_def takeWhile_append dropWhile_append)
  have q: "stdin_polls buf (replicate n Quiet) = replicate n PollIdle" for buf n
    by (induction n) simp_all
  have "readline [] (Data t # arr) = Some (line_of t, rest_of t, arr)" if "nl \<in> set t" for t arr
    using that by (cases arr) simp_all
  with l q show ?thesis by (simp add: polls_step)
qed

theorem match_burst_waits:
  assumes "nl \<notin> set v" "line_event sc (v @ [nl]) = Inr (Some e)"
    and "handle_event ops cfg e st = Inr st'" "\<not> pending_match_start st'"
  shows "poll_loop sc ops cfg (stdin_polls [] (Data (v @ nl # g @ [nl]) # replicate n Quiet)) st = Inr st'"
proof -
  have "poll_loop sc ops cfg (replicate n PollIdle) st' = Inr st'"
    using assms(4) by (induction n) (simp_all add: tick_def maybe_send_pending_match_start_def)
  with assms(2,3) show ?thesis unfolding polls_burst [OF assms(1)] by simp
qed

definition burst_state :: "loop_world match_state" where
  "burst_state = (match_init init_world)\<lparr>armed := True, armed_at := Some 1,
     world := \<lparr>w_time = 1, w_reads = 1, w_sends = 0, w_last_send = 0, w_wire = []\<rparr>\<rparr>"

lemma burst_vote:
  "handle_event (loop_ops demo_script demo_config) ([6], demo_config) (JObj vote_event) (match_init init_world) =
     Inr burst_state"
  by (simp add: demo_eval burst_state_def match_init_def init_world_def loop_ops_def monotonic_def demo_sel)

definition burst_script :: match_script where
  "burst_script = demo_script\<lparr>loads := (\<lambda>t. if t = ''v'' then Inr (JObj vote_event) else Inr (JObj game_event))\<rparr>"

theorem match_burst_waits_witness:
  "poll_loop burst_script (loop_ops demo_script demo_config) ([6], demo_config)
     (stdin_polls [] (Data (''v'' @ nl # ''g'' @ [nl]) # replicate 1000 Quiet)) (match_init init_world) =
   Inr burst_state"
proof (rule match_burst_waits [OF _ _ burst_vote])
  have "strip (''v'' @ [nl]) = ''v''" unfolding nl_def by code_simp
  then show "line_event burst_script (''v'' @ [nl]) = Inr (Some (JObj vote_event))"
    by (simp add: line_event_def burst_script_def)
qed (simp_all add: nl_def burst_state_def match_init_def reset_all_def reset_match_def disarm_def)

end
