(* ===== verification/Match_Clock.thy ===== *)
theory Match_Clock
  imports Match_Claims
begin

section \<open>The clock readings of a match announcer\<close>

text \<open>
  A world that also writes down every reading of the clock: the methods of \<open>MatchAnnouncer\<close> are definitions over
  any world, so the same code runs in it.  \<open>readings\<close> are the readings one step makes.  They do not
  change what the step does, and with them the times of a match can be stated exactly.
\<close>

subsection \<open>A world with a log\<close>

definition logged :: "'w match_ops \<Rightarrow> ('w \<times> rat list) match_ops" where
  "logged ops =
     \<lparr>clock = (\<lambda>(w, l). let (t, w') = clock ops w in (t, (w', l @ [t]))),
      send = (\<lambda>line command (w, l). let (r, w') = send ops line command w in (r, (w', l))),
      fmt_fields = fmt_fields ops\<rparr>"

definition with_log :: "rat list \<Rightarrow> 'w match_state \<Rightarrow> ('w \<times> rat list) match_state" where
  "with_log l st =
     \<lparr>armed = armed st, armed_at = armed_at st, match_started = match_started st, match_ending = match_ending st,
      summary_sent = summary_sent st, match_start_sent = match_start_sent st,
      pending_match_start = pending_match_start st, pending_match_start_at = pending_match_start_at st,
      final_red_score = final_red_score st, final_blue_score = final_blue_score st,
      current_gametype = current_gametype st, world = (world st, l), emitted = emitted st\<rparr>"


lemma with_log_sel [simp]:
  "armed (with_log l st) = armed st" "armed_at (with_log l st) = armed_at st"
  "match_started (with_log l st) = match_started st" "match_ending (with_log l st) = match_ending st"
  "summary_sent (with_log l st) = summary_sent st" "match_start_sent (with_log l st) = match_start_sent st"
  "pending_match_start (with_log l st) = pending_match_start st"
  "pending_match_start_at (with_log l st) = pending_match_start_at st"
  "final_red_score (with_log l st) = final_red_score st" "final_blue_score (with_log l st) = final_blue_score st"
  "current_gametype (with_log l st) = current_gametype st" "world (with_log l st) = (world st, l)"
  "emitted (with_log l st) = emitted st"
  by (simp_all add: with_log_def)



lemma logged_fields [simp]: "fmt_fields (logged ops) = fmt_fields ops"
  by (simp add: logged_def)






subsection \<open>The readings of a step\<close>














subsection \<open>Votes and starts with their times\<close>















end
