(* ===== verification/Chat_Classify.thy ===== *)
theory Chat_Classify
  imports Addon_Runtime Event_Machine
begin

section \<open>\<open>chatlogger.py\<close>: from an event to a log entry\<close>

text \<open>
  The recogniser of chat lines: normalisation of names and messages, the timestamp prefix, the verb
  patterns, and \<open>event_to_entry\<close>.  A value that is no text raises \<open>TypeError\<close> where the code hands it to
  a pattern, and an event that is no object raises \<open>AttributeError\<close>.
\<close>

subsection \<open>Normalisation\<close>

definition alnum_char :: "char \<Rightarrow> bool" where
  "alnum_char c \<longleftrightarrow> in_range 48 57 c \<or> in_range 65 90 c \<or> in_range 97 122 c"

definition quake_color_re :: re where
  "quake_color_re = seqs [lit ''^'', Chr alnum_char]"

text \<open>\<open>\x1b\[[0-?]*[ -/]*[@-~]\<close>\<close>

definition ansi_re :: re where
  "ansi_re = seqs [lit [CHR 0x1B, CHR ''['' ], star (Chr (in_range 48 63)), star (Chr (in_range 32 47)),
                   Chr (in_range 64 126)]"

definition strip_quake_colors :: "string \<Rightarrow> string" where
  "strip_quake_colors v = re_sub quake_color_re [] v"

definition strip_ansi :: "string \<Rightarrow> string" where
  "strip_ansi v = re_sub ansi_re [] v"

definition normalize_text :: "string \<Rightarrow> string" where
  "normalize_text v = strip (strip_quake_colors (strip_ansi v))"

subsection \<open>The timestamp prefix\<close>

definition timestamp_prefix_re :: re where
  "timestamp_prefix_re = seqs
     [Bol,
      opt (seqs [star ws,
                 Alt (seqs [times 4 digit, lit ''-'', times 2 digit, lit ''-'', times 2 digit, lit '' '',
                            times 2 digit, lit '':'', times 2 digit, lit '':'', times 2 digit])
                     (seqs [digits_1_3, lit '':'', times 2 digit, opt (seqs [lit '':'', times 2 digit])]),
                 plus ws]),
      Grp ''body'' (star dot), Eol]"

definition split_log_prefix :: "string \<Rightarrow> string" where
  "split_log_prefix raw_line =
     (case re_match timestamp_prefix_re raw_line of
        None \<Rightarrow> strip raw_line
      | Some cs \<Rightarrow> strip (case group cs ''body'' of Some b \<Rightarrow> b | None \<Rightarrow> []))"

subsection \<open>The verbs\<close>

datatype channel = PUBLIC | TEAM | WHISPER | ADMIN | ADMIN_WHISPER

fun channel_name :: "channel \<Rightarrow> string" where
  "channel_name PUBLIC = ''PUBLIC''"
| "channel_name TEAM = ''TEAM''"
| "channel_name WHISPER = ''WHISPER''"
| "channel_name ADMIN = ''ADMIN''"
| "channel_name ADMIN_WHISPER = ''ADMIN_WHISPER''"

definition public_verbs :: "string list" where
  "public_verbs = [''say'', ''chat'', ''globalchat'']"
definition team_verbs :: "string list" where
  "team_verbs = [''sayteam'', ''teamsay'', ''team'', ''teamchat'']"
definition whisper_verbs :: "string list" where
  "whisper_verbs = [''tell'', ''whisper'', ''privmsg'', ''pm'']"
definition admin_verbs :: "string list" where
  "admin_verbs = [''amsay'', ''smsay'', ''amchat'', ''smchat'', ''tsay'', ''csay'', ''vsay'', ''vchat'']"
definition admin_tell_verbs :: "string list" where
  "admin_tell_verbs = [''amtell'', ''smtell'', ''ampm'']"

definition verb_head :: "string list \<Rightarrow> re" where
  "verb_head verbs = seqs [Bol, alts (map ilit verbs), star ws, lit '':'', star ws]"

text \<open>A verb with a sender and a message, and one with a target between them.\<close>

definition say_re :: "string list \<Rightarrow> re" where
  "say_re verbs = seqs [verb_head verbs, Grp ''sender'' (lazy_plus dot), star ws, lit '':'', star ws,
                        Grp ''message'' (plus dot), Eol]"

definition tell_re :: "string list \<Rightarrow> re" where
  "tell_re verbs = seqs [verb_head verbs, Grp ''sender'' (lazy_plus dot), star ws, Alt (lit ''->'') (ilit ''to''),
                         star ws, Grp ''target'' (lazy_plus dot), star ws, lit '':'', star ws,
                         Grp ''message'' (plus dot), Eol]"

definition raw_verb_patterns :: "(channel \<times> bool \<times> re) list" where
  "raw_verb_patterns =
     [(WHISPER, True, tell_re whisper_verbs),
      (ADMIN_WHISPER, True, tell_re admin_tell_verbs),
      (TEAM, False, say_re team_verbs),
      (ADMIN, False, say_re admin_verbs),
      (PUBLIC, False, say_re public_verbs)]"

definition sender_blocklist :: "string list" where
  "sender_blocklist = [''server'', ''taystjk'', ''openjk'']"

record entry =
  e_channel :: channel
  e_sender :: string
  e_message :: string
  e_target :: "string option"

definition named_group :: "caps \<Rightarrow> string \<Rightarrow> string" where
  "named_group cs n = (case group cs n of Some t \<Rightarrow> t | None \<Rightarrow> [])"

text \<open>The loop body for one pattern that matched, and the loop over the patterns.\<close>

definition matched_entry :: "channel \<Rightarrow> bool \<Rightarrow> caps \<Rightarrow> entry option" where
  "matched_entry ch has_target cs =
     (let sender = normalize_text (named_group cs ''sender'');
          message = normalize_text (named_group cs ''message'')
      in if sender = [] \<or> message = [] then None
         else if lower sender \<in> set sender_blocklist then None
         else Some \<lparr>e_channel = ch, e_sender = sender, e_message = message,
                    e_target = (if has_target then Some (normalize_text (named_group cs ''target'')) else None)\<rparr>)"

fun classify_body :: "(channel \<times> bool \<times> re) list \<Rightarrow> string \<Rightarrow> entry option" where
  "classify_body [] body = None"
| "classify_body ((ch, has_target, r) # ps) body =
     (case re_match r body of
        None \<Rightarrow> classify_body ps body
      | Some cs \<Rightarrow> matched_entry ch has_target cs)"

definition classify_raw_line :: "string \<Rightarrow> entry option" where
  "classify_raw_line raw_line =
     (let body = split_log_prefix raw_line
      in if body = [] then None else classify_body raw_verb_patterns body)"

subsection \<open>Events\<close>

text \<open>A value handed to a pattern.\<close>

definition text_arg :: "json \<Rightarrow> string res" where
  "text_arg v = (case v of JStr s \<Rightarrow> Inr s | _ \<Rightarrow> Inl TypeError)"

definition chat_channel :: "string \<Rightarrow> channel" where
  "chat_channel body =
     (if startswith body ''sayteam'' \<or> startswith body ''teamsay'' then TEAM
      else if startswith body ''tell'' \<or> startswith body ''whisper'' then WHISPER
      else PUBLIC)"

definition chat_message_entry :: "dict \<Rightarrow> entry option res" where
  "chat_message_entry event =
     bindR (text_arg (get_default event ''name'' (JStr []))) (\<lambda>name.
     bindR (text_arg (get_default event ''message'' (JStr []))) (\<lambda>msg.
       let sender = normalize_text name;
           message = normalize_text msg
       in if sender = [] \<or> message = [] then Inr None
          else if lower sender \<in> set sender_blocklist then Inr None
          else bindR (text_arg (py_or (get_default event ''raw'' (JStr [])) (JStr []))) (\<lambda>raw.
                 Inr (Some \<lparr>e_channel = chat_channel (lower (split_log_prefix raw)), e_sender = sender,
                            e_message = message, e_target = None\<rparr>))))"

definition event_to_entry :: "json \<Rightarrow> entry option res" where
  "event_to_entry event =
     (case event of
        JObj d \<Rightarrow>
          (let event_type = get_none d ''type''
           in if event_type = JStr ''chat_message'' then chat_message_entry d
              else if event_type = JStr ''raw_line''
              then bindR (text_arg (py_or (get_default d ''raw'' (JStr [])) (JStr []))) (\<lambda>raw.
                     Inr (classify_raw_line raw))
              else Inr None)
      | _ \<Rightarrow> Inl AttributeError)"

subsection \<open>Facts\<close>

lemma set_normalize_text: "set (normalize_text v) \<subseteq> set v"
proof -
  have "set (strip_quake_colors (strip_ansi v)) \<subseteq> set v"
    using set_re_sub [of quake_color_re "[]" "strip_ansi v"] set_re_sub [of ansi_re "[]" v]
    unfolding strip_quake_colors_def strip_ansi_def by auto
  then show ?thesis using set_strip [of "strip_quake_colors (strip_ansi v)"] unfolding normalize_text_def by blast
qed

lemma accepts_star_chr: "accepts (Star g (Chr p)) u \<Longrightarrow> list_all p u"
  by (induction "Star g (Chr p)" u rule: accepts.induct) auto

lemma accepts_dots: "accepts (lazy_plus dot) u \<or> accepts (plus dot) u \<Longrightarrow> CHR 0x0A \<notin> set u"
  unfolding lazy_plus_def plus_def dot_def
  by (auto simp: regex_simps list_all_iff dest!: accepts_star_chr)

text \<open>What each pattern captures.\<close>

lemma subgroups_lit [simp]: "subgroups (lit t) = {}" "subgroups (ilit t) = {}"
  by (induction t) (simp_all add: lit_def ilit_def)

lemma subgroups_alts_ilit: "subgroups (alts (map ilit ts)) = {}"
proof -
  have "(\<forall>r \<in> set rs. subgroups r = {}) \<Longrightarrow> subgroups (alts rs) = {}" for rs
    by (induction rs rule: alts.induct) auto
  then show ?thesis by simp
qed

lemma subgroups_verb:
  "subgroups (verb_head verbs) = {}"
  "(n, q) \<in> subgroups (say_re verbs) \<Longrightarrow> q \<in> {lazy_plus dot, plus dot}"
  "(n, q) \<in> subgroups (tell_re verbs) \<Longrightarrow> q \<in> {lazy_plus dot, plus dot}"
  by (auto simp: verb_head_def say_re_def tell_re_def seqs_def star_def ws_def subgroups_alts_ilit
      lazy_plus_def plus_def dot_def)

definition single_line :: "string \<Rightarrow> bool" where
  "single_line t \<longleftrightarrow> CHR 0x0A \<notin> set t"

lemma named_group_single:
  assumes "re_match r body = Some cs" "r = say_re verbs \<or> r = tell_re verbs"
  shows "single_line (normalize_text (named_group cs n))"
proof (cases "group cs n")
  case None
  have "set (normalize_text []) = {}" using set_normalize_text [of "[]"] by simp
  with None show ?thesis by (simp add: named_group_def single_line_def)
next
  case (Some t)
  from good_caps_group [OF match_sound [OF assms(1)] Some] obtain q where
    "(n, q) \<in> subgroups r" "accepts q t" by blast
  with assms(2) have "CHR 0x0A \<notin> set t" using subgroups_verb(2,3) accepts_dots by blast
  with Some set_normalize_text [of t] show ?thesis by (auto simp: named_group_def single_line_def)
qed

text \<open>A recordable entry; the blocklist and the emptiness checks hold for both kinds of events.\<close>

definition entry_ok :: "entry \<Rightarrow> bool" where
  "entry_ok e \<longleftrightarrow> e_sender e \<noteq> [] \<and> e_message e \<noteq> [] \<and> lower (e_sender e) \<notin> set sender_blocklist \<and>
     strip (e_sender e) = e_sender e \<and> strip (e_message e) = e_message e"

definition entry_single :: "entry \<Rightarrow> bool" where
  "entry_single e \<longleftrightarrow> single_line (e_sender e) \<and> single_line (e_message e) \<and>
     (\<forall>t. e_target e = Some t \<longrightarrow> single_line t)"

lemma strip_normalize [simp]: "strip (normalize_text t) = normalize_text t"
  by (simp add: normalize_text_def)

lemma matched_entry_ok: "matched_entry ch b cs = Some e \<Longrightarrow> entry_ok e"
  by (auto simp: matched_entry_def Let_def entry_ok_def split: if_splits)

lemma matched_entry_single:
  assumes "matched_entry ch b cs = Some e" "re_match r body = Some cs" "r = say_re verbs \<or> r = tell_re verbs"
  shows "entry_single e"
  using assms(1) named_group_single [OF assms(2,3)]
  by (auto simp: matched_entry_def Let_def entry_single_def split: if_splits)

lemma classify_body_ok:
  assumes "classify_body ps body = Some e"
    and "\<forall>p \<in> set ps. \<exists>verbs. snd (snd p) = say_re verbs \<or> snd (snd p) = tell_re verbs"
  shows "entry_ok e \<and> entry_single e"
  using assms
proof (induction ps body rule: classify_body.induct)
  case (2 ch b r ps body)
  show ?case
  proof (cases "re_match r body")
    case None
    with 2 show ?thesis by simp
  next
    case (Some cs)
    with 2(2,3) matched_entry_ok [of ch b cs e] matched_entry_single [of ch b cs e r body] show ?thesis by auto
  qed
qed simp

lemma classify_raw_line_ok: "classify_raw_line raw = Some e \<Longrightarrow> entry_ok e \<and> entry_single e"
  by (auto simp: classify_raw_line_def Let_def raw_verb_patterns_def intro!: classify_body_ok [of raw_verb_patterns]
      split: if_splits)

lemma chat_message_entry_ok:
  assumes "chat_message_entry d = Inr (Some e)"
  shows "entry_ok e"
proof -
  from assms obtain n m where nm: "text_arg (get_default d ''name'' (JStr [])) = Inr n"
    "text_arg (get_default d ''message'' (JStr [])) = Inr m"
    unfolding chat_message_entry_def bindR_eq_Inr by blast
  with assms show ?thesis
    by (auto simp: chat_message_entry_def Let_def entry_ok_def bindR_eq_Inr split: if_splits)
qed

lemma event_to_entry_ok: "event_to_entry v = Inr (Some e) \<Longrightarrow> entry_ok e"
  by (cases v) (auto simp: event_to_entry_def Let_def bindR_eq_Inr chat_message_entry_ok
      dest: classify_raw_line_ok split: if_splits)

text \<open>
  C31.  What is recorded: an entry has a non-empty, trimmed sender and message, the sender is not one of
  the engine's own names, and an entry classified from a raw line has no line feed in its sender, its message or its
  target, so that it is printed on one line.
\<close>

theorem chat_entry_ok:
  assumes "event_to_entry v = Inr (Some e)"
  shows "e_sender e \<noteq> [] \<and> e_message e \<noteq> [] \<and> strip (e_sender e) = e_sender e \<and>
    strip (e_message e) = e_message e \<and> lower (e_sender e) \<notin> {''server'', ''taystjk'', ''openjk''} \<and>
    (\<forall>d. v = JObj d \<and> get_none d ''type'' = JStr ''raw_line'' \<longrightarrow>
       CHR 0x0A \<notin> set (e_sender e) \<and> CHR 0x0A \<notin> set (e_message e) \<and>
       (\<forall>t. e_target e = Some t \<longrightarrow> CHR 0x0A \<notin> set t))"
proof -
  have "CHR 0x0A \<notin> set (e_sender e) \<and> CHR 0x0A \<notin> set (e_message e) \<and> (\<forall>t. e_target e = Some t \<longrightarrow> CHR 0x0A \<notin> set t)"
    if "v = JObj d" "get_none d ''type'' = JStr ''raw_line''" for d
  proof -
    from assms that obtain raw where "classify_raw_line raw = Some e"
      by (auto simp: event_to_entry_def bindR_eq_Inr)
    from classify_raw_line_ok [OF this] show ?thesis by (simp add: entry_single_def single_line_def)
  qed
  with event_to_entry_ok [OF assms] show ?thesis by (auto simp: entry_ok_def sender_blocklist_def)
qed

definition sample_chat :: json where
  "sample_chat = JObj [(''type'', JStr ''raw_line''), (''raw'', JStr ''12:34 tell: ^1Bob -> Al: hi there'')]"

lemma sample_chat_entry:
  "event_to_entry sample_chat = Inr (Some \<lparr>e_channel = WHISPER, e_sender = ''Bob'', e_message = ''hi there'',
     e_target = Some ''Al''\<rparr>)"
  by code_simp

theorem chat_entry_ok_witness:
  "lower ''Bob'' \<notin> {''server'', ''taystjk'', ''openjk''} \<and> CHR 0x0A \<notin> set ''hi there'' \<and> CHR 0x0A \<notin> set ''Al''"
  using chat_entry_ok [OF sample_chat_entry]
  by (auto simp: sample_chat_def get_none_def get_default_def)

text \<open>
  Events the chat logger does not survive: an event that is no JSON object, and a chat message whose
  name is \<open>null\<close> or any other value that is no text.
\<close>

theorem chat_event_raises:
  "(\<not> is_dict v \<longrightarrow> event_to_entry v = Inl AttributeError) \<and>
   (\<forall>d x. v = JObj d \<and> get_none d ''type'' = JStr ''chat_message'' \<and> dict_get d ''name'' = Some x \<and>
      (\<forall>s. x \<noteq> JStr s) \<longrightarrow> event_to_entry v = Inl TypeError)"
proof -
  have "text_arg x = Inl TypeError" if "\<forall>s. x \<noteq> JStr s" for x
    using that by (cases x) (simp_all add: text_arg_def)
  then show ?thesis
    by (cases v) (auto simp: event_to_entry_def chat_message_entry_def get_default_def)
qed

theorem chat_event_raises_witness:
  "event_to_entry JNull = Inl AttributeError \<and>
   event_to_entry (JObj [(''type'', JStr ''chat_message''), (''name'', JNull)]) = Inl TypeError"
  using chat_event_raises [of JNull]
    chat_event_raises [of "JObj [(''type'', JStr ''chat_message''), (''name'', JNull)]"]
  by (auto simp: get_none_def get_default_def)

end
