(* ===== verification/Py_Date.thy ===== *)
theory Py_Date
  imports Py_Regex
begin

section \<open>Dates\<close>

text \<open>
  What the addons use of \<open>datetime\<close>: the proleptic Gregorian calendar with its ordinal numbers, the order
  of dates, \<open>strftime\<close> with \<open>%Y-%m-%d\<close> and \<open>%H:%M:%S\<close>, and \<open>strptime\<close> with \<open>%Y-%m-%d\<close>.  \<open>%Y\<close> does not pad
  (as glibc prints it), so years below 1000 are written with fewer than four digits.
\<close>

datatype date = Date (d_year: int) (d_month: int) (d_day: int)

record datetime =
  dt_date :: date
  dt_hour :: int
  dt_minute :: int
  dt_second :: int
  dt_micro :: int

definition is_leap :: "int \<Rightarrow> bool" where
  "is_leap y \<longleftrightarrow> y mod 4 = 0 \<and> (y mod 100 \<noteq> 0 \<or> y mod 400 = 0)"

definition days_in_month :: "int \<Rightarrow> int \<Rightarrow> int" where
  "days_in_month y m =
     (if m = 2 then if is_leap y then 29 else 28 else if m \<in> {4, 6, 9, 11} then 30 else 31)"

definition days_before_year :: "int \<Rightarrow> int" where
  "days_before_year y = (let k = y - 1 in k * 365 + k div 4 - k div 100 + k div 400)"

definition days_before_month :: "int \<Rightarrow> int \<Rightarrow> int" where
  "days_before_month y m =
     (if m \<le> 1 then 0 else if m = 2 then 31
      else (if m = 3 then 59 else if m = 4 then 90 else if m = 5 then 120 else if m = 6 then 151
            else if m = 7 then 181 else if m = 8 then 212 else if m = 9 then 243 else if m = 10 then 273
            else if m = 11 then 304 else 334) + (if is_leap y then 1 else 0))"

text \<open>\<open>date.toordinal()\<close>: day 1 is the first of January of the year 1.\<close>

fun ordinal :: "date \<Rightarrow> int" where
  "ordinal (Date y m d) = days_before_year y + days_before_month y m + d"

fun valid_date :: "date \<Rightarrow> bool" where
  "valid_date (Date y m d) \<longleftrightarrow>
     1 \<le> y \<and> y \<le> 9999 \<and> 1 \<le> m \<and> m \<le> 12 \<and> 1 \<le> d \<and> d \<le> days_in_month y m"

subsection \<open>The order of dates\<close>

instantiation date :: linorder
begin

definition less_date :: "date \<Rightarrow> date \<Rightarrow> bool" where
  "less_date a b \<longleftrightarrow> d_year a < d_year b \<or>
     d_year a = d_year b \<and> (d_month a < d_month b \<or> d_month a = d_month b \<and> d_day a < d_day b)"

definition less_eq_date :: "date \<Rightarrow> date \<Rightarrow> bool" where
  "less_eq_date a b \<longleftrightarrow> a = b \<or> a < b"

instance
proof
  show "x < y \<longleftrightarrow> x \<le> y \<and> \<not> y \<le> x" "x \<le> x" "x \<le> y \<or> y \<le> x" for x y :: date
    by (cases x; cases y; auto simp: less_eq_date_def less_date_def)+
  show "x \<le> z" if "x \<le> y" "y \<le> z" for x y z :: date
    using that by (auto simp: less_eq_date_def less_date_def)
  show "x = y" if "x \<le> y" "y \<le> x" for x y :: date
    using that by (auto simp: less_eq_date_def less_date_def)
qed

end

lemma div_pred:
  assumes "0 < (c :: int)"
  shows "y div c = (y - 1) div c + (if y mod c = 0 then 1 else 0)"
proof -
  define q r where "q = y div c" and "r = y mod c"
  have y: "y = c * q + r" "0 \<le> r" "r < c" using assms by (simp_all add: q_def r_def)
  show ?thesis
  proof (cases "r = 0")
    case True
    have "(y - 1) div c = q - 1"
      by (rule int_div_pos_eq [where r = "c - 1"]) (use y True assms in \<open>auto simp: algebra_simps\<close>)
    with True show ?thesis by (simp add: q_def r_def)
  next
    case False
    have "(y - 1) div c = q"
      by (rule int_div_pos_eq [where r = "r - 1"]) (use y False in \<open>auto simp: algebra_simps\<close>)
    with False show ?thesis by (simp add: q_def r_def)
  qed
qed

lemma leap_step: "days_before_year (y + 1) = days_before_year y + (if is_leap y then 366 else 365)"
proof -
  have "y mod 400 = 0 \<Longrightarrow> y mod 100 = 0" "y mod 100 = 0 \<Longrightarrow> y mod 4 = 0"
    unfolding mod_eq_0_iff_dvd by (erule dvd_trans [rotated]; simp)+
  moreover define e4 e100 e400 :: int where "e4 = (if y mod 4 = 0 then 1 else 0)"
    and "e100 = (if y mod 100 = 0 then 1 else 0)" and "e400 = (if y mod 400 = 0 then 1 else 0)"
  ultimately have "(if is_leap y then 366 else 365 :: int) = 365 + e4 - e100 + e400"
    unfolding is_leap_def e4_def e100_def e400_def by (auto simp only: split: if_splits)
  moreover define p4 p100 p400 where "p4 = (y - 1) div 4" and "p100 = (y - 1) div 100" and "p400 = (y - 1) div 400"
  moreover have "y div 4 = (y - 1) div 4 + e4" "y div 100 = (y - 1) div 100 + e100" "y div 400 = (y - 1) div 400 + e400"
    unfolding e4_def e100_def e400_def by (rule div_pred; simp)+
  then have "days_before_year (y + 1) = y * 365 + (p4 + e4) - (p100 + e100) + (p400 + e400)"
    by (simp only: days_before_year_def Let_def add_diff_cancel_right' p4_def p100_def p400_def)
  moreover have "days_before_year y = (y - 1) * 365 + p4 - p100 + p400"
    by (simp only: days_before_year_def Let_def p4_def p100_def p400_def)
  ultimately show ?thesis by (simp add: left_diff_distrib)
qed

lemma days_before_year_mono: "y \<le> z \<Longrightarrow> days_before_year y \<le> days_before_year z"
proof (induction z rule: int_ge_induct)
  case (step z)
  with leap_step [of z] show ?case by (auto split: if_splits)
qed simp

lemma month_cases:
  assumes "1 \<le> (m :: int)" "m \<le> 12"
  shows "m \<in> {1, 2, 3, 4, 5, 6, 7, 8, 9, 10, 11, 12}"
proof -
  have "[1..12 :: int] = [1, 2, 3, 4, 5, 6, 7, 8, 9, 10, 11, 12]" by code_simp
  moreover have "m \<in> set [1..12]" using assms by simp
  ultimately show ?thesis by simp
qed

lemma month_step:
  "1 \<le> m \<Longrightarrow> m \<le> 11 \<Longrightarrow> days_before_month y (m + 1) = days_before_month y m + days_in_month y m"
  using month_cases [of m] by (auto simp: days_before_month_def days_in_month_def)

lemma days_before_month_mono:
  assumes "1 \<le> m" "m \<le> n" "n \<le> 12"
  shows "days_before_month y m \<le> days_before_month y n"
  using assms(2,3)
proof (induction n rule: int_ge_induct)
  case (step n)
  with month_step [of n y] assms(1) show ?case by (auto simp: days_in_month_def split: if_splits)
qed simp

lemma year_end: "days_before_month y 12 + days_in_month y 12 = (if is_leap y then 366 else 365)"
  by (simp add: days_before_month_def days_in_month_def)

text \<open>The ordinal numbers follow the order of the dates.\<close>

lemma ordinal_less:
  assumes "valid_date a" "valid_date b" "a < b"
  shows "ordinal a < ordinal b"
proof -
  obtain y m d z n e where ab: "a = Date y m d" "b = Date z n e" by (cases a; cases b)
  with assms have v: "1 \<le> m" "m \<le> 12" "1 \<le> d" "d \<le> days_in_month y m" "1 \<le> n" "n \<le> 12" "1 \<le> e" by simp_all
  from assms(3) ab consider "y < z" | "y = z" "m < n" | "y = z" "m = n" "d < e" by (auto simp: less_date_def)
  then show ?thesis
  proof cases
    case 1
    have "days_before_month y m + days_in_month y m \<le> (if is_leap y then 366 else 365)"
    proof (cases "m = 12")
      case False
      with v month_step [of m y] days_before_month_mono [of "m + 1" 12 y] year_end [of y]
      show ?thesis by (auto simp: days_in_month_def split: if_splits)
    qed (use year_end [of y] in simp)
    moreover have "days_before_year (y + 1) \<le> days_before_year z" using 1 by (intro days_before_year_mono) simp
    moreover have "0 \<le> days_before_month z n" using days_before_month_mono [of 1 n z] v by (simp add: days_before_month_def)
    ultimately show ?thesis using v leap_step [of y] ab by (simp split: if_splits)
  next
    case 2
    with v days_before_month_mono [of "m + 1" n y] month_step [of m y] show ?thesis by (simp add: ab)
  qed (simp add: ab)
qed

lemma ordinal_le_iff:
  "valid_date a \<Longrightarrow> valid_date b \<Longrightarrow> ordinal a \<le> ordinal b \<longleftrightarrow> a \<le> b"
  using ordinal_less [of a b] ordinal_less [of b a] by (metis leD leI order.order_iff_strict)

subsection \<open>Printing and parsing\<close>

definition two_digits :: "int \<Rightarrow> string" where
  "two_digits n = [char_of (48 + n div 10), char_of (48 + n mod 10)]"

fun date_key :: "date \<Rightarrow> string" where
  "date_key (Date y m d) = str_of_int y @ ''-'' @ two_digits m @ ''-'' @ two_digits d"

definition time_key :: "datetime \<Rightarrow> string" where
  "time_key t = two_digits (dt_hour t) @ '':'' @ two_digits (dt_minute t) @ '':'' @ two_digits (dt_second t)"

text \<open>
  The parts of the pattern \<open>strptime\<close> uses behind the four digits of the year: the month between dashes
  (which can match in one way only) and the day; the whole text must be consumed and name an existing
  day.
\<close>

definition month_re :: re where
  "month_re = seqs
     [lit ''-'',
      Grp ''m'' (alts [Seq (lit ''1'') (Chr (in_range 48 50)), Seq (lit ''0'') (Chr (in_range 49 57)), Chr (in_range 49 57)]),
      lit ''-'']"

definition day_re :: re where
  "day_re = Grp ''d'' (alts [Seq (lit ''3'') (Chr (in_range 48 49)), Seq (Chr (in_range 49 50)) digit,
                       Seq (lit ''0'') (Chr (in_range 49 57)), Chr (in_range 49 57),
                       Seq (lit '' '') (Chr (in_range 49 57))])"

text \<open>The number of a group, and the text behind the match.\<close>

definition read_part :: "re \<Rightarrow> string \<Rightarrow> string \<Rightarrow> (int \<times> string) option" where
  "read_part r n s =
     (case match_at r None s of
        None \<Rightarrow> None
      | Some st \<Rightarrow> (case group (snd (snd st)) n of None \<Rightarrow> None | Some t \<Rightarrow> Some (int_of_digits (strip t), rest st)))"

definition parse_month_day :: "string \<Rightarrow> (int \<times> int) option" where
  "parse_month_day s =
     (case read_part month_re ''m'' s of
        None \<Rightarrow> None
      | Some (m, t) \<Rightarrow>
          (case read_part day_re ''d'' t of
             None \<Rightarrow> None
           | Some (d, u) \<Rightarrow> if u \<noteq> [] then None else Some (m, d)))"

definition strptime_date :: "string \<Rightarrow> date option" where
  "strptime_date s =
     (if 4 \<le> length s \<and> list_all is_decimal (take 4 s)
      then case parse_month_day (drop 4 s) of
             None \<Rightarrow> None
           | Some (m, d) \<Rightarrow>
               (let date = Date (int_of_digits (take 4 s)) m d in if valid_date date then Some date else None)
      else None)"

lemma read_months:
  "list_all (\<lambda>m. match_at month_re None (''-'' @ two_digits m @ ''-'' @ t) = Some (Some (CHR ''-''), t, [(''m'', two_digits m)]))
     [1..12]"
proof -
  have "[1..12 :: int] = [1, 2, 3, 4, 5, 6, 7, 8, 9, 10, 11, 12]" by code_simp
  moreover have "two_digits 1 = ''01''" "two_digits 2 = ''02''" "two_digits 3 = ''03''" "two_digits 4 = ''04''"
    "two_digits 5 = ''05''" "two_digits 6 = ''06''" "two_digits 7 = ''07''" "two_digits 8 = ''08''"
    "two_digits 9 = ''09''" "two_digits 10 = ''10''" "two_digits 11 = ''11''" "two_digits 12 = ''12''"
    by code_simp+
  ultimately show ?thesis
    by (simp add: match_at_def month_re_def seqs_def lit_def in_range_def code_def
        capture_def)
qed

lemma read_days:
  "list_all (\<lambda>d. read_part day_re ''d'' (two_digits d) = Some (d, []) \<and> int_of_digits (strip (two_digits d)) = d) [1..31]"
  by code_simp

lemma parse_month_day_two_digits:
  assumes "1 \<le> m" "m \<le> 12" "1 \<le> d" "d \<le> 31"
  shows "parse_month_day (''-'' @ two_digits m @ ''-'' @ two_digits d) = Some (m, d)"
proof -
  have "read_part day_re ''d'' (two_digits d) = Some (d, [])" "int_of_digits (strip (two_digits m)) = m"
    using assms read_days by (auto simp: list_all_iff)
  moreover have "match_at month_re None (''-'' @ two_digits m @ ''-'' @ two_digits d) =
      Some (Some (CHR ''-''), two_digits d, [(''m'', two_digits m)])"
    using assms read_months [of "two_digits d"] by (simp add: list_all_iff)
  ultimately show ?thesis by (simp add: parse_month_day_def read_part_def group_def)
qed

lemma str_of_year:
  assumes "1000 \<le> y" "y \<le> 9999"
  shows "length (str_of_int y) = 4"
proof -
  have s: "str_of_nonneg n = (if n < 10 then [char_of (48 + n)] else str_of_nonneg (n div 10) @ [char_of (48 + n mod 10)])"
    if "0 \<le> n" for n using that by (simp add: str_of_nonneg.simps)
  have "str_of_nonneg y = str_of_nonneg (y div 10) @ [char_of (48 + y mod 10)]"
    "str_of_nonneg (y div 10) = str_of_nonneg (y div 10 div 10) @ [char_of (48 + y div 10 mod 10)]"
    "str_of_nonneg (y div 10 div 10) = str_of_nonneg (y div 10 div 10 div 10) @ [char_of (48 + y div 10 div 10 mod 10)]"
    "str_of_nonneg (y div 10 div 10 div 10) = [char_of (48 + y div 10 div 10 div 10)]"
    using assms s by (auto simp: zdiv_zmult2_eq [symmetric])
  then show ?thesis using assms by (simp add: str_of_int_def)
qed

text \<open>The date of a file name is read back: the key of a date is parsed as that date.\<close>

lemma strptime_date_key:
  assumes "valid_date d" "1000 \<le> d_year d"
  shows "strptime_date (date_key d) = Some d"
proof -
  obtain y m e where d: "d = Date y m e" by (cases d)
  with assms have v: "1000 \<le> y" "y \<le> 9999" "1 \<le> m" "m \<le> 12" "1 \<le> e" "e \<le> 31" "valid_date d"
    by (auto simp: days_in_month_def split: if_splits)
  let ?y = "str_of_int y"
  have len: "length ?y = 4" using v by (simp add: str_of_year)
  have dec: "list_all is_decimal ?y" "int_of_digits ?y = y"
    using v str_of_nonneg_decimals [of y] int_of_digits_str_of_nonneg [of y] by (simp_all add: str_of_int_def)
  have "take 4 (date_key d) = ?y" "drop 4 (date_key d) = ''-'' @ two_digits m @ ''-'' @ two_digits e"
    using len by (simp_all add: d)
  then show ?thesis
    using dec len v parse_month_day_two_digits [of m e] by (simp add: strptime_date_def d)
qed

end
