(* ===== verification/Chat_Writer.thy ===== *)
theory Chat_Writer
  imports Chat_Classify Py_Date
begin

section \<open>\<open>chatlogger.py\<close>: the daily log files\<close>

text \<open>
  \<open>ChatWriter\<close>, the removal of old files, and \<open>main\<close>.  The directory \<open>chatlogs\<close> is a map from file names
  to contents; a write reaches a file only while its name is still in the directory (an unlinked file
  keeps its handle).  \<open>chat_env\<close> says which system calls of one write fail, \<open>chat_sys\<close> what the addon
  reads from its surroundings.
\<close>

record chat_fs =
  logs :: "string \<Rightarrow> string option"
  latest :: "string option"

record chat_writer =
  cw_date :: "string option"
  cw_file :: "string option"
  cw_cleaned :: "date option"

datatype link_outcome = LinkOk | UnlinkFails | SymlinkFails

record chat_env =
  open_ok :: bool
  link_result :: link_outcome
  write_ok :: bool
  unlink_ok :: "string \<Rightarrow> bool"

definition chat_writer_init :: chat_writer where
  "chat_writer_init = \<lparr>cw_date = None, cw_file = None, cw_cleaned = None\<rparr>"

definition log_name :: "date \<Rightarrow> string" where
  "log_name d = ''chat-'' @ date_key d @ ''.log''"

definition env_int :: "os_env \<Rightarrow> string \<Rightarrow> int \<Rightarrow> int \<Rightarrow> int res" where
  "env_int os name dflt minimum =
     (case environ os name of
        None \<Rightarrow> Inr dflt
      | Some raw \<Rightarrow>
          if strip raw = [] then Inr dflt
          else (case py_int_text raw of
                  Inl e \<Rightarrow> if is_value_error e then Inr dflt else Inl e
                | Inr v \<Rightarrow> Inr (max minimum v)))"

definition update_latest_symlink :: "link_outcome \<Rightarrow> string \<Rightarrow> chat_fs \<Rightarrow> chat_fs" where
  "update_latest_symlink out target fs =
     (case out of LinkOk \<Rightarrow> fs\<lparr>latest := Some target\<rparr>
      | UnlinkFails \<Rightarrow> fs
      | SymlinkFails \<Rightarrow> fs\<lparr>latest := None\<rparr>)"

subsection \<open>Removing old files\<close>

text \<open>\<open>glob("chat-*.log")\<close>, and the stem of such a name behind \<open>chat-\<close>.\<close>

definition is_chat_log :: "string \<Rightarrow> bool" where
  "is_chat_log n \<longleftrightarrow> 9 \<le> length n \<and> startswith n ''chat-'' \<and> drop (length n - 4) n = ''.log''"

definition log_stamp :: "string \<Rightarrow> string" where
  "log_stamp n = drop 5 (take (length n - 4) n)"

text \<open>\<open>timedelta(days=...)\<close> and the subtraction raise \<open>OverflowError\<close> outside their ranges.\<close>

definition cutoff_ordinal :: "int \<Rightarrow> datetime \<Rightarrow> int res" where
  "cutoff_ordinal keep_days now =
     (if keep_days > 999999999 \<or> ordinal (dt_date now) - keep_days < 1 then Inl OverflowError
      else Inr (ordinal (dt_date now) - keep_days))"

definition past_midnight :: "datetime \<Rightarrow> bool" where
  "past_midnight now \<longleftrightarrow> dt_hour now \<noteq> 0 \<or> dt_minute now \<noteq> 0 \<or> dt_second now \<noteq> 0 \<or> dt_micro now \<noteq> 0"

definition expired :: "int \<Rightarrow> datetime \<Rightarrow> date \<Rightarrow> bool" where
  "expired cutoff now stamp \<longleftrightarrow> ordinal stamp < cutoff \<or> ordinal stamp = cutoff \<and> past_midnight now"

definition cleanup_old_logs :: "int \<Rightarrow> chat_env \<Rightarrow> datetime \<Rightarrow> chat_fs \<Rightarrow> chat_fs res" where
  "cleanup_old_logs keep_days env now fs =
     bindR (cutoff_ordinal keep_days now) (\<lambda>cutoff.
       Inr (fs\<lparr>logs := (\<lambda>n.
         if is_chat_log n \<and> unlink_ok env n \<and>
            (case strptime_date (log_stamp n) of None \<Rightarrow> False | Some stamp \<Rightarrow> expired cutoff now stamp)
         then None else logs fs n)\<rparr>))"

subsection \<open>Writing\<close>

definition stamp_text :: "datetime \<Rightarrow> string" where
  "stamp_text now = date_key (dt_date now) @ '' '' @ time_key now"

definition format_entry :: "datetime \<Rightarrow> entry \<Rightarrow> string" where
  "format_entry now e =
     (let head = ''['' @ stamp_text now @ ''] ['' @ channel_name (e_channel e) @ ''] '' @ e_sender e;
          tail = '': '' @ e_message e @ [CHR 0x0A]
      in case e_target e of
           Some t \<Rightarrow> if t \<noteq> [] then head @ '' -> '' @ t @ tail else head @ tail
         | None \<Rightarrow> head @ tail)"

definition maybe_roll ::
  "chat_env \<Rightarrow> datetime \<Rightarrow> chat_writer \<times> chat_fs \<Rightarrow> (chat_writer \<times> chat_fs) res" where
  "maybe_roll env now st =
     (let (w, fs) = st;
          key = date_key (dt_date now)
      in if cw_date w = Some key \<and> cw_file w \<noteq> None then Inr (w, fs)
         else let target = log_name (dt_date now)
              in if \<not> open_ok env then Inl OSError
                 else let old = (case logs fs target of Some c \<Rightarrow> c | None \<Rightarrow> []);
                          fs = fs\<lparr>logs := (logs fs)(target \<mapsto> old)\<rparr>
                      in Inr (w\<lparr>cw_date := Some key, cw_file := Some target\<rparr>,
                              update_latest_symlink (link_result env) target fs))"

definition append_log :: "string \<Rightarrow> string \<Rightarrow> chat_fs \<Rightarrow> chat_fs" where
  "append_log n t fs = (case logs fs n of Some c \<Rightarrow> fs\<lparr>logs := (logs fs)(n \<mapsto> c @ t)\<rparr> | None \<Rightarrow> fs)"

definition chat_write ::
  "int \<Rightarrow> chat_env \<Rightarrow> datetime \<Rightarrow> entry \<Rightarrow> chat_writer \<times> chat_fs \<Rightarrow> (chat_writer \<times> chat_fs) res" where
  "chat_write keep_days env now e st =
     bindR (maybe_roll env now st) (\<lambda>(w, fs).
       case cw_file w of
         None \<Rightarrow> Inr (w, fs)
       | Some n \<Rightarrow>
           if \<not> write_ok env then Inl OSError
           else let fs = append_log n (format_entry now e) fs
                in if cw_cleaned w \<noteq> Some (dt_date now)
                   then bindR (cleanup_old_logs keep_days env now fs) (\<lambda>fs.
                          Inr (w\<lparr>cw_cleaned := Some (dt_date now)\<rparr>, fs))
                   else Inr (w, fs))"

definition chat_close :: "chat_writer \<Rightarrow> chat_writer" where
  "chat_close w = w\<lparr>cw_file := None\<rparr>"

subsection \<open>The loop\<close>

text \<open>
  The surroundings of one line: \<open>json.loads\<close>, \<open>datetime.fromisoformat\<close> with the conversion to local time,
  the current time, and the system calls of the write.
\<close>

record chat_sys =
  cs_loads :: "string \<Rightarrow> json res"
  cs_iso :: "string \<Rightarrow> datetime res"
  cs_now :: datetime
  cs_env :: chat_env

definition parse_event_time :: "chat_sys \<Rightarrow> json \<Rightarrow> datetime res" where
  "parse_event_time sys v =
     (case v of
        JStr s \<Rightarrow>
          if s = [] then Inr (cs_now sys)
          else (case cs_iso sys (replace_char (CHR ''Z'') ''+00:00'' s) of
                  Inr t \<Rightarrow> Inr t
                | Inl e \<Rightarrow> if is_value_error e then Inr (cs_now sys) else Inl e)
      | _ \<Rightarrow> Inr (cs_now sys))"

definition chat_entry_step ::
  "int \<Rightarrow> chat_sys \<Rightarrow> json \<Rightarrow> entry \<Rightarrow> chat_writer \<times> chat_fs \<Rightarrow> (chat_writer \<times> chat_fs) res" where
  "chat_entry_step keep_days sys event e st =
     bindR (case event of JObj d \<Rightarrow> Inr (get_none d ''time'') | _ \<Rightarrow> Inl AttributeError) (\<lambda>v.
     bindR (parse_event_time sys v) (\<lambda>now. chat_write keep_days (cs_env sys) now e st))"

definition chat_line ::
  "int \<Rightarrow> chat_sys \<times> string \<Rightarrow> chat_writer \<times> chat_fs \<Rightarrow> (chat_writer \<times> chat_fs) res" where
  "chat_line keep_days inp st =
     (let (sys, raw) = inp;
          line = strip raw
      in if line = [] then Inr st
         else case cs_loads sys line of
                Inl e \<Rightarrow> if e = JSONDecodeError then Inr st else Inl e
              | Inr event \<Rightarrow>
                  bindR (event_to_entry event) (\<lambda>r.
                    case r of None \<Rightarrow> Inr st | Some e \<Rightarrow> chat_entry_step keep_days sys event e st))"

text \<open>
  The program: the module constant is computed first, \<open>main\<close> creates the directory (\<open>mkdir\<close> is what the
  system answers), reads the lines and closes the file.
\<close>

definition chat_main ::
  "os_env \<Rightarrow> unit res \<Rightarrow> (chat_sys \<times> string) list \<Rightarrow> chat_fs \<Rightarrow> (chat_writer \<times> chat_fs) res" where
  "chat_main os mkdir inputs fs =
     bindR (env_int os ''CHATLOGGER_KEEP_PLAIN_DAYS'' 7 1) (\<lambda>keep_days.
     bindR mkdir (\<lambda>_.
     bindR (foldR (chat_line keep_days) inputs (chat_writer_init, fs)) (\<lambda>(w, fs).
       Inr (chat_close w, fs))))"

subsection \<open>Facts: file names\<close>

lemma log_stamp_name: "is_chat_log (log_name d) \<and> log_stamp (log_name d) = date_key d"
  by (simp add: log_name_def is_chat_log_def log_stamp_def)

definition good_date :: "date \<Rightarrow> bool" where
  "good_date d \<longleftrightarrow> valid_date d \<and> 1000 \<le> d_year d"

lemma strptime_log_name: "good_date d \<Longrightarrow> strptime_date (log_stamp (log_name d)) = Some d"
  by (simp add: log_stamp_name good_date_def strptime_date_key)

lemma log_name_inject: "good_date d \<Longrightarrow> good_date e \<Longrightarrow> log_name d = log_name e \<longleftrightarrow> d = e"
  by (metis strptime_log_name option.inject)

lemma date_key_inject: "good_date d \<Longrightarrow> good_date e \<Longrightarrow> date_key d = date_key e \<longleftrightarrow> d = e"
  by (metis good_date_def strptime_date_key option.inject)

text \<open>
  The name of a daily file is read back as its date by the clean-up, and it is matched by the
  pattern the clean-up looks for, so each day has a file of its own.
\<close>

theorem chat_log_name_roundtrip:
  assumes "valid_date d" "1000 \<le> d_year d"
  shows "is_chat_log (log_name d) \<and> strptime_date (log_stamp (log_name d)) = Some d"
  using strptime_log_name [of d] assms log_stamp_name [of d] by (simp add: good_date_def)

theorem chat_log_name_roundtrip_witness:
  "strptime_date (log_stamp (log_name (Date 2024 2 29))) = Some (Date 2024 2 29)"
  using chat_log_name_roundtrip [of "Date 2024 2 29"] by (simp add: days_in_month_def is_leap_def)

subsection \<open>Facts: the clean-up\<close>

lemma cleanup_Inr:
  "cleanup_old_logs keep env now fs = Inr fs' \<Longrightarrow>
   logs fs' n = (if is_chat_log n \<and> unlink_ok env n \<and>
       (\<exists>stamp. strptime_date (log_stamp n) = Some stamp \<and> expired (ordinal (dt_date now) - keep) now stamp)
     then None else logs fs n) \<and> latest fs' = latest fs"
  by (auto simp: cleanup_old_logs_def cutoff_ordinal_def bindR_eq_Inr split: if_splits option.splits)

lemma cleanup_keeps:
  assumes "cleanup_old_logs keep env now fs = Inr fs'" "good_date d" "ordinal (dt_date now) - keep < ordinal d"
  shows "logs fs' (log_name d) = logs fs (log_name d)"
  using cleanup_Inr [OF assms(1), of "log_name d"] strptime_log_name [OF assms(2)] assms(3)
  by (simp add: expired_def)

text \<open>
  C30.  The clean-up removes exactly the daily files whose date lies before the retention period (the
  oldest retained day is itself removed once midnight has passed), as far as the system lets it, and
  touches nothing else; the file of the day it runs on is never among them.
\<close>

theorem chat_cleanup_exact:
  assumes "cleanup_old_logs keep env now fs = Inr fs'" and "1 \<le> keep"
  shows "(\<forall>d. valid_date d \<and> 1000 \<le> d_year d \<and> unlink_ok env (log_name d) \<longrightarrow>
      (logs fs' (log_name d) = None \<longleftrightarrow> logs fs (log_name d) = None \<or>
         ordinal d < ordinal (dt_date now) - keep \<or>
         ordinal d = ordinal (dt_date now) - keep \<and> past_midnight now)) \<and>
    (\<forall>n. \<not> is_chat_log n \<or> strptime_date (log_stamp n) = None \<longrightarrow> logs fs' n = logs fs n) \<and>
    (valid_date (dt_date now) \<and> 1000 \<le> d_year (dt_date now) \<longrightarrow>
       logs fs' (log_name (dt_date now)) = logs fs (log_name (dt_date now)))"
proof (intro conjI allI impI)
  fix d assume d: "valid_date d \<and> 1000 \<le> d_year d \<and> unlink_ok env (log_name d)"
  with cleanup_Inr [OF assms(1), of "log_name d"] strptime_log_name [of d] log_stamp_name [of d]
  show "logs fs' (log_name d) = None \<longleftrightarrow> logs fs (log_name d) = None \<or>
         ordinal d < ordinal (dt_date now) - keep \<or>
         ordinal d = ordinal (dt_date now) - keep \<and> past_midnight now"
    by (auto simp: good_date_def expired_def)
next
  fix n assume "\<not> is_chat_log n \<or> strptime_date (log_stamp n) = None"
  with cleanup_Inr [OF assms(1), of n] show "logs fs' n = logs fs n" by auto
next
  assume "valid_date (dt_date now) \<and> 1000 \<le> d_year (dt_date now)"
  with cleanup_keeps [OF assms(1), of "dt_date now"] assms(2)
  show "logs fs' (log_name (dt_date now)) = logs fs (log_name (dt_date now))" by (simp add: good_date_def)
qed

definition at_noon :: "date \<Rightarrow> datetime" where
  "at_noon d = \<lparr>dt_date = d, dt_hour = 12, dt_minute = 0, dt_second = 0, dt_micro = 0\<rparr>"

definition all_ok :: chat_env where
  "all_ok = \<lparr>open_ok = True, link_result = LinkOk, write_ok = True, unlink_ok = (\<lambda>n. True)\<rparr>"

definition old_fs :: chat_fs where
  "old_fs = \<lparr>logs = Map.empty(log_name (Date 2024 1 1) \<mapsto> ''x''), latest = None\<rparr>"

theorem chat_cleanup_exact_witness:
  "\<exists>fs'. cleanup_old_logs 7 all_ok (at_noon (Date 2024 1 8)) old_fs = Inr fs' \<and>
     logs fs' (log_name (Date 2024 1 1)) = None"
proof -
  have o: "ordinal (Date 2024 1 8) = 738893" "ordinal (Date 2024 1 1) = 738886" by code_simp+
  obtain fs' where c: "cleanup_old_logs 7 all_ok (at_noon (Date 2024 1 8)) old_fs = Inr fs'"
    using o by (simp add: cleanup_old_logs_def cutoff_ordinal_def at_noon_def del: ordinal.simps)
  from chat_cleanup_exact [OF c] have "unlink_ok all_ok (log_name (Date 2024 1 1)) \<longrightarrow>
      logs fs' (log_name (Date 2024 1 1)) = None"
    using o by (force simp: at_noon_def past_midnight_def days_in_month_def simp del: ordinal.simps)
  with c show ?thesis by (simp add: all_ok_def)
qed

subsection \<open>Facts: the writer\<close>

text \<open>The open file is the file of the remembered date.\<close>

definition file_matches :: "chat_writer \<Rightarrow> bool" where
  "file_matches w \<longleftrightarrow> (\<forall>n. cw_file w = Some n \<longrightarrow> (\<exists>k. cw_date w = Some k \<and> n = ''chat-'' @ k @ ''.log''))"

lemma maybe_roll_Inr:
  assumes "maybe_roll env now (w, fs) = Inr (w', fs')" "file_matches w"
  shows "cw_date w' = Some (date_key (dt_date now)) \<and> cw_file w' = Some (log_name (dt_date now)) \<and>
    cw_cleaned w' = cw_cleaned w \<and>
    (cw_file w = cw_file w' \<and> logs fs' = logs fs \<or>
     logs fs' = (logs fs)(log_name (dt_date now) \<mapsto>
       (case logs fs (log_name (dt_date now)) of Some c \<Rightarrow> c | None \<Rightarrow> [])))"
proof (cases "cw_date w = Some (date_key (dt_date now)) \<and> cw_file w \<noteq> None")
  case True
  with assms show ?thesis by (auto simp: maybe_roll_def Let_def file_matches_def log_name_def)
next
  case False
  with assms(1) have "w' = w\<lparr>cw_date := Some (date_key (dt_date now)), cw_file := Some (log_name (dt_date now))\<rparr>"
    "fs' = update_latest_symlink (link_result env) (log_name (dt_date now)) (fs\<lparr>logs := (logs fs)(log_name (dt_date now) \<mapsto>
       (case logs fs (log_name (dt_date now)) of Some c \<Rightarrow> c | None \<Rightarrow> []))\<rparr>)"
    by (auto simp: maybe_roll_def Let_def split: if_splits)
  then show ?thesis by (simp add: update_latest_symlink_def split: link_outcome.splits)
qed

lemma chat_write_Inr:
  assumes "chat_write keep env now e (w, fs) = Inr (w', fs')" "file_matches w"
  obtains w1 fs1 where "maybe_roll env now (w, fs) = Inr (w1, fs1)" "cw_file w1 = Some (log_name (dt_date now))"
    "cw_date w1 = Some (date_key (dt_date now))" "cw_file w' = cw_file w1" "cw_date w' = cw_date w1"
    "fs' = append_log (log_name (dt_date now)) (format_entry now e) fs1 \<or>
     cleanup_old_logs keep env now (append_log (log_name (dt_date now)) (format_entry now e) fs1) = Inr fs'"
proof -
  from assms(1) obtain w1 fs1 where r: "maybe_roll env now (w, fs) = Inr (w1, fs1)"
    by (auto simp: chat_write_def bindR_eq_Inr)
  note m = maybe_roll_Inr [OF r assms(2)]
  let ?fs = "append_log (log_name (dt_date now)) (format_entry now e) fs1"
  have "cw_file w' = cw_file w1 \<and> cw_date w' = cw_date w1 \<and> (fs' = ?fs \<or> cleanup_old_logs keep env now ?fs = Inr fs')"
    using assms(1) r m by (auto simp: chat_write_def bindR_eq_Inr Let_def split: if_splits)
  with m show thesis using that [OF r] by blast
qed

lemma chat_write_matches:
  "chat_write keep env now e (w, fs) = Inr (w', fs') \<Longrightarrow> file_matches w \<Longrightarrow> file_matches w'"
  by (erule (1) chat_write_Inr) (simp add: file_matches_def log_name_def)

text \<open>The open file is in the directory, so that writes reach it.\<close>

definition writer_inv :: "chat_writer \<times> chat_fs \<Rightarrow> bool" where
  "writer_inv st \<longleftrightarrow> file_matches (fst st) \<and>
     (\<forall>n. cw_file (fst st) = Some n \<longrightarrow> logs (snd st) n \<noteq> None)"

definition content :: "chat_fs \<Rightarrow> date \<Rightarrow> string" where
  "content fs d = (case logs fs (log_name d) of Some c \<Rightarrow> c | None \<Rightarrow> [])"

lemma chat_write_content:
  assumes "chat_write keep env now e (w, fs) = Inr (w', fs')" "writer_inv (w, fs)" "1 \<le> keep"
    and "good_date (dt_date now)"
  shows "writer_inv (w', fs') \<and> (\<forall>d. good_date d \<and> ordinal (dt_date now) - keep < ordinal d \<longrightarrow>
    logs fs' (log_name d) =
      (if d = dt_date now then Some (content fs d @ format_entry now e) else logs fs (log_name d)))"
proof -
  let ?n = "log_name (dt_date now)"
  from assms(2) have fm: "file_matches w" by (simp add: writer_inv_def)
  from assms(1) fm obtain w1 fs1 where r: "maybe_roll env now (w, fs) = Inr (w1, fs1)" "cw_file w1 = Some ?n"
    "cw_file w' = cw_file w1" "cw_date w' = cw_date w1" and c:
    "fs' = append_log ?n (format_entry now e) fs1 \<or>
     cleanup_old_logs keep env now (append_log ?n (format_entry now e) fs1) = Inr fs'" by (rule chat_write_Inr)
  have fs1: "logs fs1 = (logs fs)(?n \<mapsto> content fs (dt_date now))"
    using maybe_roll_Inr [OF r(1) fm] r(2) assms(2)
    by (auto simp: writer_inv_def content_def fun_upd_idem split: option.splits)
  have app: "logs (append_log ?n (format_entry now e) fs1) =
      (logs fs)(?n \<mapsto> content fs (dt_date now) @ format_entry now e)"
    by (simp add: append_log_def fs1)
  have day: "logs fs' (log_name d) = logs (append_log ?n (format_entry now e) fs1) (log_name d)"
    if "good_date d" "ordinal (dt_date now) - keep < ordinal d" for d
    using c cleanup_keeps [OF _ that] by auto
  have "logs fs' ?n \<noteq> None" using day [OF assms(4)] assms(3) by (simp add: app)
  moreover have "file_matches w'" using chat_write_matches [OF assms(1) fm] .
  moreover have "logs fs' (log_name d) = (if d = dt_date now then Some (content fs d @ format_entry now e)
      else logs fs (log_name d))" if "good_date d" "ordinal (dt_date now) - keep < ordinal d" for d
    using day [OF that] log_name_inject [OF that(1) assms(4)] by (simp add: app)
  ultimately show ?thesis using r(2,3) by (simp add: writer_inv_def)
qed

lemma chat_run_content:
  assumes "foldR (\<lambda>(env, now, e). chat_write keep env now e) wrs (w, fs) = Inr (w', fs')"
    and "writer_inv (w, fs)" "1 \<le> keep"
    and "\<forall>(env, now, e) \<in> set wrs. good_date (dt_date now) \<and> dt_date now \<le> last_day" "good_date last_day"
    and "good_date d" "ordinal last_day - keep < ordinal d"
  shows "logs fs' (log_name d) =
    (if d \<in> (\<lambda>(env, now, e). dt_date now) ` set wrs
     then Some (content fs d @ concat (map (\<lambda>(env, now, e). format_entry now e)
            (filter (\<lambda>(env, now, e). dt_date now = d) wrs)))
     else logs fs (log_name d))"
  using assms(1,2,4)
proof (induction wrs arbitrary: w fs)
  case (Cons x wrs)
  obtain env now e where x: "x = (env, now, e)" by (cases x) auto
  from Cons.prems(1) x obtain w1 fs1 where s: "chat_write keep env now e (w, fs) = Inr (w1, fs1)"
    "foldR (\<lambda>(env, now, e). chat_write keep env now e) wrs (w1, fs1) = Inr (w', fs')"
    by (auto simp: bindR_eq_Inr)
  have g: "good_date (dt_date now)" "dt_date now \<le> last_day" using Cons.prems(3) x by auto
  then have le: "ordinal (dt_date now) \<le> ordinal last_day"
    using ordinal_le_iff [of "dt_date now" last_day] assms(5) by (simp add: good_date_def)
  note c = chat_write_content [OF s(1) Cons.prems(2) assms(3) g(1)]
  have "logs fs1 (log_name d) = (if d = dt_date now then Some (content fs d @ format_entry now e) else logs fs (log_name d))"
    using c assms(6,7) le by simp
  moreover from this have "content fs1 d = content fs d @ (if d = dt_date now then format_entry now e else [])"
    by (simp add: content_def)
  moreover have "\<forall>(env, now, e) \<in> set wrs. good_date (dt_date now) \<and> dt_date now \<le> last_day"
    using Cons.prems(3) by simp
  moreover have "filter (\<lambda>(env, now, e). dt_date now = d) wrs = []"
    if "d \<notin> (\<lambda>(env, now, e). dt_date now) ` set wrs"
    using that by (force simp: filter_empty_conv)
  ultimately show ?case using Cons.IH [OF s(2)] c by (auto simp: x)
qed simp

text \<open>
  The daily file of a retained day is the record of that day: after any sequence of writes dated no
  later than a last day, the file of every day within the retention period before it holds what it held
  before followed by exactly the entries of that day, in the order they were written; files of days
  without entries are unchanged.
\<close>

theorem chat_log_content:
  assumes "foldR (\<lambda>(env, now, e). chat_write keep env now e) wrs (chat_writer_init, fs) = Inr (w', fs')"
    and "1 \<le> keep"
    and "\<forall>(env, now, e) \<in> set wrs. valid_date (dt_date now) \<and> 1000 \<le> d_year (dt_date now) \<and> dt_date now \<le> last_day"
    and "valid_date last_day" "1000 \<le> d_year last_day"
    and "valid_date d" "1000 \<le> d_year d" "ordinal last_day - keep < ordinal d"
  shows "logs fs' (log_name d) =
    (if d \<in> (\<lambda>(env, now, e). dt_date now) ` set wrs
     then Some ((case logs fs (log_name d) of Some c \<Rightarrow> c | None \<Rightarrow> []) @
            concat (map (\<lambda>(env, now, e). format_entry now e) (filter (\<lambda>(env, now, e). dt_date now = d) wrs)))
     else logs fs (log_name d))"
proof -
  have "writer_inv (chat_writer_init, fs)" by (simp add: writer_inv_def file_matches_def chat_writer_init_def)
  from chat_run_content [OF assms(1) this assms(2), of last_day d] assms(3-) show ?thesis
    by (simp add: good_date_def content_def)
qed

definition sample_entry :: "string \<Rightarrow> entry" where
  "sample_entry m = \<lparr>e_channel = PUBLIC, e_sender = ''Bob'', e_message = m, e_target = None\<rparr>"

definition sample_writes :: "(chat_env \<times> datetime \<times> entry) list" where
  "sample_writes = [(all_ok, at_noon (Date 2024 1 8), sample_entry ''a''),
     (all_ok, at_noon (Date 2024 1 9), sample_entry ''b'')]"

lemma sample_ordinals: "ordinal (Date 2024 1 8) = 738893" "ordinal (Date 2024 1 9) = 738894"
  by code_simp+

lemma sample_writes_run:
  "\<exists>st. foldR (\<lambda>(env, now, e). chat_write 7 env now e) sample_writes (chat_writer_init, old_fs) = Inr st"
  by (simp add: sample_writes_def chat_write_def maybe_roll_def all_ok_def chat_writer_init_def Let_def
      cleanup_old_logs_def cutoff_ordinal_def at_noon_def sample_ordinals del: ordinal.simps date_key.simps)

theorem chat_log_content_witness:
  "\<exists>w' fs'. foldR (\<lambda>(env, now, e). chat_write 7 env now e) sample_writes (chat_writer_init, old_fs) = Inr (w', fs') \<and>
     logs fs' (log_name (Date 2024 1 8)) = Some (format_entry (at_noon (Date 2024 1 8)) (sample_entry ''a''))"
proof -
  from sample_writes_run obtain w' fs' where
    r: "foldR (\<lambda>(env, now, e). chat_write 7 env now e) sample_writes (chat_writer_init, old_fs) = Inr (w', fs')"
    by auto
  have "log_name (Date 2024 1 8) \<noteq> log_name (Date 2024 1 1)" by code_simp
  then have "logs old_fs (log_name (Date 2024 1 8)) = None" by (simp add: old_fs_def)
  with r chat_log_content [OF r, of "Date 2024 1 9" "Date 2024 1 8"] sample_ordinals show ?thesis
    by (simp add: sample_writes_def at_noon_def less_eq_date_def less_date_def days_in_month_def del: ordinal.simps)
qed

subsection \<open>The loop as a machine\<close>

text \<open>A line whose handling raises nothing.\<close>

definition text_or_absent :: "json \<Rightarrow> bool" where
  "text_or_absent v \<longleftrightarrow> (case v of JStr _ \<Rightarrow> True | JNull \<Rightarrow> True | _ \<Rightarrow> False)"

definition event_benign :: "json \<Rightarrow> bool" where
  "event_benign v \<longleftrightarrow> (case v of
     JObj d \<Rightarrow> text_or_absent (get_default d ''raw'' (JStr [])) \<and>
       (get_none d ''type'' = JStr ''chat_message'' \<longrightarrow>
          (\<exists>n m. get_default d ''name'' (JStr []) = JStr n \<and> get_default d ''message'' (JStr []) = JStr m))
   | _ \<Rightarrow> False)"

text \<open>
  The write of an entry: the file can be opened and written, and the time of the event is found, far enough from the
  first day of the calendar for the retention period.  Only the time text of the event itself is asked about.
\<close>

definition write_benign :: "int \<Rightarrow> chat_sys \<Rightarrow> json \<Rightarrow> bool" where
  "write_benign keep sys v \<longleftrightarrow> open_ok (cs_env sys) \<and> write_ok (cs_env sys) \<and>
     (case v of
        JObj d \<Rightarrow>
          (case parse_event_time sys (get_none d ''time'') of
             Inl _ \<Rightarrow> False
           | Inr t \<Rightarrow> (case cutoff_ordinal keep t of Inl _ \<Rightarrow> False | Inr _ \<Rightarrow> True))
      | _ \<Rightarrow> False)"

definition has_entry :: "json \<Rightarrow> bool" where
  "has_entry v \<longleftrightarrow> (case event_to_entry v of Inr (Some _) \<Rightarrow> True | _ \<Rightarrow> False)"

text \<open>A blank line, malformed JSON, or such an event, whose entry can be written if it has one.\<close>

definition line_benign :: "int \<Rightarrow> chat_sys \<times> string \<Rightarrow> bool" where
  "line_benign keep inp \<longleftrightarrow> strip (snd inp) = [] \<or>
     (case cs_loads (fst inp) (strip (snd inp)) of
        Inl e \<Rightarrow> e = JSONDecodeError
      | Inr v \<Rightarrow> event_benign v \<and> (has_entry v \<longrightarrow> write_benign keep (fst inp) v))"

lemma text_arg_or:
  "text_or_absent v \<Longrightarrow> \<exists>s. text_arg (py_or v (JStr [])) = Inr s"
  by (cases v) (auto simp: text_or_absent_def py_or_def text_arg_def)

lemma event_to_entry_total:
  assumes "event_benign v"
  shows "\<exists>r. event_to_entry v = Inr r"
proof -
  from assms obtain d where d: "v = JObj d" "text_or_absent (get_default d ''raw'' (JStr []))"
    "get_none d ''type'' = JStr ''chat_message'' \<longrightarrow>
       (\<exists>n m. get_default d ''name'' (JStr []) = JStr n \<and> get_default d ''message'' (JStr []) = JStr m)"
    by (auto simp: event_benign_def split: json.splits)
  from text_arg_or [OF d(2)] obtain raw where raw: "text_arg (py_or (get_default d ''raw'' (JStr [])) (JStr [])) = Inr raw"
    by blast
  have t: "text_arg (JStr s) = Inr s" for s by (simp add: text_arg_def)
  show ?thesis
  proof (cases "get_none d ''type'' = JStr ''chat_message''")
    case True
    with d(3) obtain n m where "get_default d ''name'' (JStr []) = JStr n" "get_default d ''message'' (JStr []) = JStr m"
      by blast
    with d(1) True raw show ?thesis by (simp add: event_to_entry_def chat_message_entry_def t Let_def)
  next
    case False
    with d(1) raw show ?thesis by (simp add: event_to_entry_def Let_def)
  qed
qed

lemma chat_write_total:
  assumes "open_ok env" "write_ok env" "cutoff_ordinal keep now = Inr c"
  shows "\<exists>st'. chat_write keep env now e st = Inr st'"
proof -
  have "\<exists>r. maybe_roll env now st = Inr r"
    using assms(1) by (cases st) (simp add: maybe_roll_def Let_def)
  then obtain w1 fs1 where "maybe_roll env now st = Inr (w1, fs1)" by auto
  with assms show ?thesis
    by (auto simp: chat_write_def cleanup_old_logs_def Let_def split: option.splits)
qed

lemma chat_line_total:
  assumes "line_benign keep inp"
  shows "\<exists>st'. chat_line keep inp st = Inr st'"
proof -
  obtain sys raw where inp: "inp = (sys, raw)" by (cases inp)
  show ?thesis
  proof (cases "strip raw = [] \<or> cs_loads sys (strip raw) = Inl JSONDecodeError")
    case True
    then show ?thesis by (auto simp: chat_line_def inp Let_def)
  next
    case False
    with assms inp obtain v where v: "cs_loads sys (strip raw) = Inr v" "event_benign v"
      "has_entry v \<longrightarrow> write_benign keep sys v"
      by (auto simp: line_benign_def split: sum.splits)
    from event_to_entry_total [OF v(2)] obtain r where r: "event_to_entry v = Inr r" by blast
    show ?thesis
    proof (cases r)
      case None
      with False v r show ?thesis by (simp add: chat_line_def inp)
    next
      case (Some e)
      from v(2) obtain d where d: "v = JObj d" by (auto simp: event_benign_def split: json.splits)
      from v(3) r Some have w: "write_benign keep sys v" by (simp add: has_entry_def)
      with d obtain t c where t: "parse_event_time sys (get_none d ''time'') = Inr t" "cutoff_ordinal keep t = Inr c"
        by (auto simp: write_benign_def split: sum.splits)
      from w have "open_ok (cs_env sys)" "write_ok (cs_env sys)" by (simp_all add: write_benign_def)
      from chat_write_total [OF this t(2)] False v r Some d t(1) show ?thesis
        by (simp add: chat_line_def inp chat_entry_step_def)
    qed
  qed
qed

text \<open>
  The calendar is not a formality: an event of a time within the retention period of the first day of year 1,
  \<open>0001-01-01T00:00:00Z\<close> for instance, ends the logger with the \<open>OverflowError\<close> of the clean-up.
\<close>

theorem chat_early_time_ends:
  assumes "strip raw \<noteq> []" "cs_loads sys (strip raw) = Inr (JObj d)" "event_to_entry (JObj d) = Inr (Some e)"
    and "parse_event_time sys (get_none d ''time'') = Inr t" "ordinal (dt_date t) \<le> keep"
    and "open_ok (cs_env sys)" "write_ok (cs_env sys)" "cw_cleaned w \<noteq> Some (dt_date t)"
  shows "chat_line keep (sys, raw) (w, fs) = Inl OverflowError"
proof -
  obtain w1 fs1 where roll: "maybe_roll (cs_env sys) t (w, fs) = Inr (w1, fs1)" "cw_cleaned w1 = cw_cleaned w" "cw_file w1 \<noteq> None"
    using assms(6) by (cases "cw_date w = Some (date_key (dt_date t)) \<and> cw_file w \<noteq> None") (auto simp: maybe_roll_def Let_def)
  moreover have "cleanup_old_logs keep (cs_env sys) t fs' = Inl OverflowError" for fs'
    using assms(5) by (simp add: cleanup_old_logs_def cutoff_ordinal_def)
  ultimately show ?thesis
    using assms by (auto simp: chat_line_def chat_entry_step_def chat_write_def Let_def)
qed

definition early_event :: json where
  "early_event = JObj [(''type'', JStr ''raw_line''), (''raw'', JStr ''say: Bob: hi''), (''time'', JStr ''0001-01-01T12:00:00Z'')]"

definition early_sys :: chat_sys where
  "early_sys = \<lparr>cs_loads = (\<lambda>t. Inr early_event), cs_iso = (\<lambda>t. Inr (at_noon (Date 1 1 1))), cs_now = at_noon (Date 2024 1 8),
     cs_env = all_ok\<rparr>"

theorem chat_early_time_ends_witness:
  "chat_line 7 (early_sys, ''{}'') (chat_writer_init, old_fs) = Inl OverflowError"
proof -
  have e: "event_to_entry early_event = Inr (Some (sample_entry ''hi''))" by code_simp
  show ?thesis
  proof (rule chat_early_time_ends)
    show "cs_loads early_sys (strip ''{}'') = Inr (JObj [(''type'', JStr ''raw_line''), (''raw'', JStr ''say: Bob: hi''),
        (''time'', JStr ''0001-01-01T12:00:00Z'')])"
      by (simp add: early_sys_def early_event_def)
    show "parse_event_time early_sys (get_none [(''type'', JStr ''raw_line''), (''raw'', JStr ''say: Bob: hi''),
        (''time'', JStr ''0001-01-01T12:00:00Z'')] ''time'') = Inr (at_noon (Date 1 1 1))"
      by (simp add: early_sys_def parse_event_time_def get_none_def get_default_def)
    show "strip ''{}'' \<noteq> []" by code_simp
    show "ordinal (dt_date (at_noon (Date 1 1 1))) \<le> 7" by code_simp
  qed (use e in \<open>simp_all add: early_event_def early_sys_def all_ok_def chat_writer_init_def\<close>)
qed

lemma chat_line_matches:
  assumes "chat_line keep inp st = Inr st'" "file_matches (fst st)"
  shows "file_matches (fst st')"
proof -
  obtain sys raw where inp: "inp = (sys, raw)" by (cases inp)
  have "st' = st \<or> (\<exists>now e. chat_write keep (cs_env sys) now e st = Inr st')"
    using assms(1)
    by (auto simp: chat_line_def inp Let_def chat_entry_step_def bindR_eq_Inr split: if_splits sum.splits option.splits)
  with assms(2) chat_write_matches [of keep "cs_env sys"] show ?thesis by (cases st; cases st') auto
qed

interpretation chat_machine: surviving_machine "chat_line keep" "\<lambda>st. file_matches (fst st)" "line_benign keep" for keep
  by unfold_locales (erule (1) chat_line_matches, rule chat_line_total)

text \<open>
  The chat logger reads its whole input, and its open file is always the file of the remembered
  date, as long as every line is blank, malformed JSON or an object whose fields are texts, and the entries can be
  written: the files can be opened and written, and the times of the events are in the calendar.
\<close>

theorem chat_loop_survives:
  assumes "list_all (line_benign keep) inputs"
  shows "\<exists>w fs'. foldR (chat_line keep) inputs (chat_writer_init, fs) = Inr (w, fs') \<and>
    (\<forall>n. cw_file w = Some n \<longrightarrow> (\<exists>k. cw_date w = Some k \<and> n = ''chat-'' @ k @ ''.log''))"
proof -
  have "file_matches (fst (chat_writer_init, fs))" by (simp add: file_matches_def chat_writer_init_def)
  from chat_machine.run_total [OF this assms] obtain st where
    "foldR (chat_line keep) inputs (chat_writer_init, fs) = Inr st" "file_matches (fst st)" by blast
  then show ?thesis by (cases st) (simp add: file_matches_def)
qed

definition sample_sys :: chat_sys where
  "sample_sys = \<lparr>cs_loads = (\<lambda>t. Inr sample_chat), cs_iso = (\<lambda>t. Inl ValueError),
     cs_now = at_noon (Date 2024 1 8), cs_env = all_ok\<rparr>"

lemma sample_line_benign: "line_benign 7 (sample_sys, t)"
  by (simp add: line_benign_def sample_sys_def write_benign_def all_ok_def cutoff_ordinal_def at_noon_def parse_event_time_def
      is_value_error_def event_benign_def sample_chat_def get_default_def get_none_def text_or_absent_def
      sample_ordinals del: ordinal.simps)

theorem chat_loop_survives_witness:
  "\<exists>w fs'. foldR (chat_line 7) [(sample_sys, ''{}''), (sample_sys, [])] (chat_writer_init, old_fs) = Inr (w, fs')"
proof -
  have "line_benign 7 (sample_sys, t)" for t by (rule sample_line_benign)
  then have "list_all (line_benign 7) [(sample_sys, ''{}''), (sample_sys, [])]" by simp
  from chat_loop_survives [OF this, of old_fs] show ?thesis by blast
qed

subsection \<open>The whole program\<close>

text \<open>What a line asks to be written.\<close>

definition line_write :: "chat_sys \<times> string \<Rightarrow> (chat_env \<times> datetime \<times> entry) option" where
  "line_write inp =
     (if strip (snd inp) = [] then None
      else case cs_loads (fst inp) (strip (snd inp)) of
             Inr (JObj d) \<Rightarrow>
               (case event_to_entry (JObj d) of
                  Inr (Some e) \<Rightarrow>
                    (case parse_event_time (fst inp) (get_none d ''time'') of
                       Inr now \<Rightarrow> Some (cs_env (fst inp), now, e)
                     | Inl _ \<Rightarrow> None)
                | _ \<Rightarrow> None)
           | _ \<Rightarrow> None)"

lemma chat_line_write:
  assumes "chat_line keep inp st = Inr st'"
  shows "st' = (case line_write inp of None \<Rightarrow> st | Some _ \<Rightarrow> st') \<and>
    (\<forall>env now e. line_write inp = Some (env, now, e) \<longrightarrow> chat_write keep env now e st = Inr st')"
proof -
  obtain sys raw where inp: "inp = (sys, raw)" by (cases inp)
  show ?thesis
  proof (cases "strip raw = []")
    case True
    with assms show ?thesis by (simp add: chat_line_def inp line_write_def)
  next
    case False
    show ?thesis
    proof (cases "cs_loads sys (strip raw)")
      case (Inl e)
      with assms False show ?thesis by (auto simp: chat_line_def inp line_write_def split: if_splits)
    next
      case (Inr v)
      with assms False obtain r where r: "event_to_entry v = Inr r"
        "(case r of None \<Rightarrow> Inr st | Some e \<Rightarrow> chat_entry_step keep sys v e st) = Inr st'"
        by (auto simp: chat_line_def inp bindR_eq_Inr)
      with Inr False show ?thesis
        by (cases v; cases r)
          (auto simp: line_write_def inp chat_entry_step_def bindR_eq_Inr event_to_entry_def)
    qed
  qed
qed

lemma chat_run_writes:
  "foldR (chat_line keep) inputs st = Inr st' \<Longrightarrow>
   foldR (\<lambda>(env, now, e). chat_write keep env now e) (List.map_filter line_write inputs) st = Inr st'"
proof (induction inputs arbitrary: st)
  case Nil
  then show ?case by (simp add: map_filter_simps)
next
  case (Cons inp inputs)
  then obtain st1 where l: "chat_line keep inp st = Inr st1" "foldR (chat_line keep) inputs st1 = Inr st'"
    by (auto simp: bindR_eq_Inr)
  from chat_line_write [OF l(1)] Cons.IH [OF l(2)] show ?case
    by (cases "line_write inp") (auto simp: map_filter_simps)
qed

lemma env_int_minimum: "env_int os n v m = Inr k \<Longrightarrow> m \<le> v \<Longrightarrow> m \<le> k"
  by (auto simp: env_int_def split: option.splits if_splits sum.splits)

text \<open>
  C29.  The program as a whole: if every line is blank, malformed JSON or an object whose fields are texts, and the
  entries can be written (the files can be opened and written, and the times of the events are in the calendar and not
  later than a last day), the chat logger returns after its last line with its file closed; the
  file of every day within the retention period holds what it held before followed by exactly the entries
  of the lines of that day, in the order of the lines, and days without an entry are unchanged.
\<close>

theorem chat_main_record:
  assumes "env_int os ''CHATLOGGER_KEEP_PLAIN_DAYS'' 7 1 = Inr keep"
    and "list_all (line_benign keep) inputs"
    and "\<forall>(env, now, e) \<in> set (List.map_filter line_write inputs).
      valid_date (dt_date now) \<and> 1000 \<le> d_year (dt_date now) \<and> dt_date now \<le> last_day"
    and "valid_date last_day" "1000 \<le> d_year last_day"
  shows "\<exists>w fs'. chat_main os (Inr ()) inputs fs = Inr (w, fs') \<and> cw_file w = None \<and>
    (\<forall>d. valid_date d \<and> 1000 \<le> d_year d \<and> ordinal last_day - keep < ordinal d \<longrightarrow>
       logs fs' (log_name d) =
         (let wrs = filter (\<lambda>(env, now, e). dt_date now = d) (List.map_filter line_write inputs)
          in if wrs \<noteq> []
             then Some ((case logs fs (log_name d) of Some c \<Rightarrow> c | None \<Rightarrow> []) @
                    concat (map (\<lambda>(env, now, e). format_entry now e) wrs))
             else logs fs (log_name d)))"
proof -
  let ?wrs = "List.map_filter line_write inputs"
  from chat_loop_survives [OF assms(2), of fs] obtain w fs' where
    r: "foldR (chat_line keep) inputs (chat_writer_init, fs) = Inr (w, fs')" by blast
  have k: "1 \<le> keep" using env_int_minimum [OF assms(1)] by simp
  have i: "d \<in> (\<lambda>(env, now, e). dt_date now) ` set ?wrs \<longleftrightarrow> filter (\<lambda>(env, now, e). dt_date now = d) ?wrs \<noteq> []" for d
    by (force simp: filter_empty_conv)
  have "chat_main os (Inr ()) inputs fs = Inr (chat_close w, fs')" by (simp add: chat_main_def assms(1) r)
  moreover have "cw_file (chat_close w) = None" by (simp add: chat_close_def)
  ultimately show ?thesis
    using chat_log_content [OF chat_run_writes [OF r] k assms(3-5)] i by (auto simp: Let_def)
qed

definition plain_os :: os_env where
  "plain_os = \<lparr>environ = Map.empty, file_at = (\<lambda>_. Missing), json_loads = (\<lambda>_. Inl JSONDecodeError)\<rparr>"

theorem chat_main_record_witness:
  "\<exists>w fs'. chat_main (plain_os) (Inr ()) [(sample_sys, ''{}''), (sample_sys, [])] old_fs = Inr (w, fs') \<and>
     cw_file w = None"
proof -
  have l: "line_benign 7 (sample_sys, t)" for t by (rule sample_line_benign)
  have "env_int (plain_os) ''CHATLOGGER_KEEP_PLAIN_DAYS'' 7 1 = Inr 7" by (simp add: env_int_def plain_os_def)
  note this l
  moreover have "now = at_noon (Date 2024 1 8)" if "(env, now, e) \<in> set (List.map_filter line_write
      [(sample_sys, ''{}''), (sample_sys, [])])" for env now e
    using that by (auto simp: map_filter_simps line_write_def sample_sys_def parse_event_time_def is_value_error_def
        split: option.splits sum.splits json.splits if_splits)
  ultimately show ?thesis
    using chat_main_record [of "plain_os" 7 "[(sample_sys, ''{}''), (sample_sys, [])]" "Date 2024 1 8" old_fs]
    by (fastforce simp: at_noon_def days_in_month_def less_eq_date_def)
qed

end
