(* ===== verification/Announcer_Config.thy ===== *)
theory Announcer_Config
  imports Live_Team Py_Date
begin

section \<open>\<open>announcer.py\<close>: configuration and schedule\<close>

text \<open>
  The scheduled announcer: the normalisation of its schedule and \<open>load_config\<close>.  Where the code keeps
  everything in one dict, the result of \<open>load_config\<close> is the record \<open>ann_config\<close>, because it holds values
  that are no JSON values (paths, times of day, a time zone).  A schedule entry is a dict with exactly
  one of the keys \<open>time_of_day\<close> and \<open>every_seconds\<close> in the code and a value of \<open>trigger\<close> here.
  A path is its text, a time zone is the map from instants (POSIX seconds) to the wall clock it shows;
  \<open>zoneinfo.ZoneInfo\<close> and the zone of the host are arguments.
\<close>

subsection \<open>The helpers shared with the live announcer\<close>

definition ann_safe_int :: "json \<Rightarrow> int \<Rightarrow> int \<Rightarrow> int res" where
  "ann_safe_int = safe_int"

definition ann_safe_bool :: "json \<Rightarrow> bool \<Rightarrow> bool" where
  "ann_safe_bool = safe_bool"

definition ann_load_section_from_addons_file :: "os_env \<Rightarrow> string \<Rightarrow> string \<Rightarrow> dict option res" where
  "ann_load_section_from_addons_file = load_section_from_addons_file"

definition ann_allowed_announce_commands :: "string list" where
  "ann_allowed_announce_commands = allowed_announce_commands"

lemmas ann_helper_defs = ann_safe_int_def ann_safe_bool_def ann_load_section_from_addons_file_def
  ann_allowed_announce_commands_def

subsection \<open>Constants\<close>

definition default_announce_command :: string where
  "default_announce_command = ''svsay''"

definition default_fallback_messages :: "string list" where
  "default_fallback_messages = [''Welcome to this Jedi Academy server. Have fun and play fair!'']"

definition min_interval_seconds :: int where
  "min_interval_seconds = 30"

definition default_log_path :: string where
  "default_log_path = home_container @ ''/logs/bundled-python-announcer.log''"

definition ann_default_config :: dict where
  "ann_default_config =
     [(''enabled'', JBool True),
      (''startup_delay_seconds'', JInt 60),
      (''interval_seconds'', JInt 900),
      (''rcon_host'', JStr ''127.0.0.1''),
      (''rcon_timeout_seconds'', JInt 3),
      (''announce_command'', JStr default_announce_command),
      (''messages'', JList (map JStr default_fallback_messages)),
      (''log_file'', JStr default_log_path),
      (''schedule'', JList []),
      (''timezone'', JStr ''local'')]"

definition resolve_sibling_path :: "string \<Rightarrow> string \<Rightarrow> string \<Rightarrow> string" where
  "resolve_sibling_path script_dir v fallback =
     (if v = [] then fallback
      else if startswith v ''/'' then v
      else script_dir @ ''/'' @ v)"

definition normalise_announce_command :: "json \<Rightarrow> string" where
  "normalise_announce_command v =
     (let raw = lower (strip (py_str (py_or v (JStr []))))
      in if raw \<in> set ann_allowed_announce_commands then raw else default_announce_command)"

subsection \<open>Times of day\<close>

datatype tod = Tod (tod_hour: int) (tod_minute: int) (tod_second: int)

text \<open>\<open>^(?P<h>\d{1,2}):(?P<m>\d{2})(?::(?P<s>\d{2}))?$\<close>\<close>

definition time_of_day_re :: re where
  "time_of_day_re = seqs
     [Bol, Grp ''h'' digits_1_2, lit '':'', Grp ''m'' (times 2 digit),
      opt (Seq (lit '':'') (Grp ''s'' (times 2 digit))), Eol]"

definition digits_group :: "caps \<Rightarrow> string \<Rightarrow> int" where
  "digits_group cs n = (case group cs n of None \<Rightarrow> 0 | Some t \<Rightarrow> if t = [] then 0 else int_of_digits t)"

definition parse_time_of_day :: "string \<Rightarrow> tod option" where
  "parse_time_of_day raw =
     (case re_match time_of_day_re (strip raw) of
        None \<Rightarrow> None
      | Some cs \<Rightarrow>
          (let hour = digits_group cs ''h''; minute = digits_group cs ''m''; second = digits_group cs ''s''
           in if \<not> (0 \<le> hour \<and> hour \<le> 23 \<and> 0 \<le> minute \<and> minute \<le> 59 \<and> 0 \<le> second \<and> second \<le> 59)
              then None
              else Some (Tod hour minute second)))"

subsection \<open>The schedule\<close>

datatype trigger = Daily tod | Every int

record sched_entry =
  se_trigger :: trigger
  se_message :: "string option"

definition entry_message :: "json \<Rightarrow> string option" where
  "entry_message message_raw =
     (if message_raw = JNull then None
      else let t = strip (py_str message_raw) in if t \<noteq> [] then Some t else None)"

text \<open>The body of the loop; \<open>None\<close> for an entry that is skipped.\<close>

definition normalise_entry :: "json \<Rightarrow> sched_entry option res" where
  "normalise_entry entry =
     (case entry of
        JObj d \<Rightarrow>
          (let time_raw = get_none d ''time'';
               every_raw = get_default d ''every_seconds'' (get_none d ''interval_seconds'');
               message = entry_message (get_none d ''message'')
           in if time_raw \<noteq> JNull
              then (case parse_time_of_day (py_str time_raw) of
                      None \<Rightarrow> Inr None
                    | Some t \<Rightarrow> Inr (Some \<lparr>se_trigger = Daily t, se_message = message\<rparr>))
              else if every_raw \<noteq> JNull
              then bindR (ann_safe_int every_raw (-1) 1) (\<lambda>seconds.
                     if seconds < min_interval_seconds then Inr None
                     else Inr (Some \<lparr>se_trigger = Every seconds, se_message = message\<rparr>))
              else Inr None)
      | _ \<Rightarrow> Inr None)"

definition normalise_step :: "json \<Rightarrow> sched_entry list \<Rightarrow> sched_entry list res" where
  "normalise_step entry normalised =
     bindR (normalise_entry entry) (\<lambda>r. case r of None \<Rightarrow> Inr normalised | Some item \<Rightarrow> Inr (normalised @ [item]))"

definition normalise_schedule :: "json \<Rightarrow> sched_entry list res" where
  "normalise_schedule raw = (case raw of JList entries \<Rightarrow> foldR normalise_step entries [] | _ \<Rightarrow> Inr [])"

subsection \<open>\<open>load_config\<close>\<close>

type_synonym tzinfo = "rat \<Rightarrow> datetime"

datatype zone_lookup = ZoneFound tzinfo | ZoneNotFound | ZoneRaises exn

text \<open>The surroundings of \<open>load_config\<close>: \<open>ae_local\<close> is \<open>datetime.now().astimezone().tzinfo\<close>.\<close>

record ann_env =
  ae_os :: os_env
  ae_script_dir :: string
  ae_local :: tzinfo
  ae_zone :: "string \<Rightarrow> zone_lookup"

definition resolve_timezone :: "ann_env \<Rightarrow> json \<Rightarrow> tzinfo res" where
  "resolve_timezone env raw =
     (let name = strip (py_str (py_or raw (JStr [])))
      in if name = [] \<or> lower name = ''local'' then Inr (ae_local env)
         else case ae_zone env name of
                ZoneFound z \<Rightarrow> Inr z
              | ZoneNotFound \<Rightarrow> Inr (ae_local env)
              | ZoneRaises e \<Rightarrow> Inl e)"

record ann_config =
  ac_enabled :: bool
  ac_startup_delay :: int
  ac_interval :: int
  ac_host :: string
  ac_timeout :: int
  ac_command :: string
  ac_log_path :: string
  ac_schedule :: "sched_entry list"
  ac_tz :: tzinfo
  ac_messages :: "string list"

fun string_of_message :: "json \<Rightarrow> string option" where
  "string_of_message (JStr m) = (if strip m \<noteq> [] then Some m else None)"
| "string_of_message _ = None"

definition valid_messages :: "json \<Rightarrow> string list" where
  "valid_messages raw =
     (let valid = (case raw of JList ms \<Rightarrow> List.map_filter string_of_message ms | _ \<Rightarrow> [])
      in if valid \<noteq> [] then valid else default_fallback_messages)"

definition ann_addons_config_path :: "os_env \<Rightarrow> string" where
  "ann_addons_config_path os = getenv os ''JKA_ADDONS_CONFIG_PATH'' ''/home/container/config/jka-addons.json''"

definition ann_loaded :: "os_env \<Rightarrow> dict res" where
  "ann_loaded os =
     bindR (loaded_section os (ann_addons_config_path os) ''announcer'') (\<lambda>loaded.
       Inr (case loaded of Some d \<Rightarrow> dict_update ann_default_config d | None \<Rightarrow> ann_default_config))"

definition ann_validate :: "ann_env \<Rightarrow> dict \<Rightarrow> ann_config res" where
  "ann_validate env config =
     (let enabled = ann_safe_bool (get_default config ''enabled'' (JBool True)) True
      in bindR (ann_safe_int (get_none config ''startup_delay_seconds'') 60 0) (\<lambda>delay.
         bindR (ann_safe_int (get_none config ''interval_seconds'') 900 30) (\<lambda>interval.
         bindR (ann_safe_int (get_none config ''rcon_timeout_seconds'') 3 1) (\<lambda>timeout.
           let command = normalise_announce_command (get_none config ''announce_command'');
               log_path = resolve_sibling_path (ae_script_dir env)
                 (py_str (get_default config ''log_file'' (JStr default_log_path))) default_log_path;
               host = host_or_local config
           in bindR (normalise_schedule (get_default config ''schedule'' (JList []))) (\<lambda>schedule.
              bindR (resolve_timezone env (get_default config ''timezone'' (JStr ''local''))) (\<lambda>tz.
                Inr \<lparr>ac_enabled = enabled, ac_startup_delay = delay, ac_interval = interval, ac_host = host,
                     ac_timeout = timeout, ac_command = command, ac_log_path = log_path,
                     ac_schedule = schedule, ac_tz = tz,
                     ac_messages = valid_messages (get_none config ''messages'')\<rparr>))))))"

definition ann_load_config :: "ann_env \<Rightarrow> ann_config res" where
  "ann_load_config env = bindR (ann_loaded (ae_os env)) (ann_validate env)"

subsection \<open>Facts: times of day\<close>

definition valid_tod :: "tod \<Rightarrow> bool" where
  "valid_tod t \<longleftrightarrow> 0 \<le> tod_hour t \<and> tod_hour t \<le> 23 \<and> 0 \<le> tod_minute t \<and> tod_minute t \<le> 59 \<and>
     0 \<le> tod_second t \<and> tod_second t \<le> 59"

text \<open>The label \<open>_format_schedule_for_log\<close> prints for a daily slot, without its \<open>@\<close>.\<close>

definition tod_label :: "tod \<Rightarrow> string" where
  "tod_label t = two_digits (tod_hour t) @ '':'' @ two_digits (tod_minute t) @ '':'' @ two_digits (tod_second t)"

lemma parse_time_of_day_valid: "parse_time_of_day s = Some t \<Longrightarrow> valid_tod t"
  by (auto simp: parse_time_of_day_def valid_tod_def Let_def split: option.splits if_splits)

lemma decimal_not_colon: "is_decimal c \<Longrightarrow> c \<noteq> CHR '':''"
  by (auto simp: is_decimal_def in_range_def code_def)

lemma time_of_day_match:
  assumes "list_all is_decimal [a, b, c, d, e, f]"
  shows "re_match time_of_day_re [a, b, CHR '':'', c, d, CHR '':'', e, f] =
    Some [(''s'', [e, f]), (''m'', [c, d]), (''h'', [a, b])]"
  using assms
  by (simp add: re_match_def match_at_def time_of_day_re_def seqs_def lit_def digits_1_2_def digit_def opt_def
      capture_def numeral_2_eq_2 decimal_not_colon)

lemma two_digits_decimal:
  assumes "0 \<le> n" "n < 100"
  shows "\<exists>a b. two_digits n = [a, b] \<and> is_decimal a \<and> is_decimal b \<and> int_of_digits [a, b] = n"
proof -
  have d: "is_decimal (char_of (48 + k))" "digit_val (char_of (48 + k)) = k" if "0 \<le> k" "k < 10" for k :: int
    using digit_char [of k] that by simp_all
  have q: "0 \<le> n div 10" "n div 10 < 10" "0 \<le> n mod 10" "n mod 10 < 10" using assms by presburger+
  show ?thesis
    using d [OF q(1,2)] d [OF q(3,4)] by (auto simp: two_digits_def int_of_digits_def)
qed

lemma parse_tod_label: "valid_tod t \<Longrightarrow> parse_time_of_day (tod_label t) = Some t"
proof -
  assume v: "valid_tod t"
  obtain a b where h: "two_digits (tod_hour t) = [a, b]" "is_decimal a" "is_decimal b" "int_of_digits [a, b] = tod_hour t"
    using v two_digits_decimal [of "tod_hour t"] by (auto simp: valid_tod_def)
  obtain c d where m: "two_digits (tod_minute t) = [c, d]" "is_decimal c" "is_decimal d" "int_of_digits [c, d] = tod_minute t"
    using v two_digits_decimal [of "tod_minute t"] by (auto simp: valid_tod_def)
  obtain e f where s: "two_digits (tod_second t) = [e, f]" "is_decimal e" "is_decimal f" "int_of_digits [e, f] = tod_second t"
    using v two_digits_decimal [of "tod_second t"] by (auto simp: valid_tod_def)
  have l: "tod_label t = [a, b, CHR '':'', c, d, CHR '':'', e, f]" by (simp add: tod_label_def h m s)
  moreover have "strip (tod_label t) = tod_label t"
    unfolding l using h s by (intro strip_id) (simp add: text_simps)
  moreover have "re_match time_of_day_re [a, b, CHR '':'', c, d, CHR '':'', e, f] =
      Some [(''s'', [e, f]), (''m'', [c, d]), (''h'', [a, b])]"
    using h m s by (intro time_of_day_match) simp
  ultimately show ?thesis
    using v h(4) m(4) s(4) by (cases t) (simp add: parse_time_of_day_def digits_group_def group_def valid_tod_def)
qed

text \<open>
  A schedule time reads back from the label the announcer prints for it, and every accepted time is
  a time of the day: hours to 23, minutes and seconds to 59.
\<close>

theorem time_of_day_roundtrip:
  "(parse_time_of_day (tod_label t) = Some t) = valid_tod t"
  using parse_tod_label parse_time_of_day_valid by blast

subsection \<open>Facts: the schedule\<close>

definition valid_entry :: "sched_entry \<Rightarrow> bool" where
  "valid_entry e \<longleftrightarrow>
     (case se_trigger e of Daily t \<Rightarrow> valid_tod t | Every n \<Rightarrow> min_interval_seconds \<le> n) \<and>
     (case se_message e of None \<Rightarrow> True | Some m \<Rightarrow> m \<noteq> [] \<and> strip m = m)"

lemma entry_message_valid: "entry_message v = Some m \<Longrightarrow> m \<noteq> [] \<and> strip m = m"
  by (auto simp: entry_message_def Let_def split: if_splits)

lemma normalise_entry_valid: "normalise_entry e = Inr (Some i) \<Longrightarrow> valid_entry i"
  by (auto simp: normalise_entry_def Let_def bindR_eq_Inr valid_entry_def
      split: json.splits if_splits option.splits dest: parse_time_of_day_valid entry_message_valid)

lemma normalise_steps:
  "foldR normalise_step es acc = Inr ss \<longleftrightarrow>
   (\<exists>rs. map normalise_entry es = map Inr rs \<and> ss = acc @ List.map_filter (\<lambda>r. r) rs)"
proof (induction es arbitrary: acc)
  case Nil
  show ?case by (auto simp: List.map_filter_simps)
next
  case (Cons e es)
  show ?case
  proof (cases "normalise_entry e")
    case (Inl x)
    then have "normalise_step e acc = Inl x" by (simp add: normalise_step_def)
    with Inl show ?thesis by (auto simp: map_eq_Cons_conv Cons_eq_map_conv)
  next
    case (Inr r)
    define k where "k = (case r of None \<Rightarrow> [] | Some item \<Rightarrow> [item])"
    have k: "List.map_filter (\<lambda>r. r) (r # qs) = k @ List.map_filter (\<lambda>r. r) qs" for qs
      by (simp add: k_def List.map_filter_simps split: option.splits)
    from Inr have "normalise_step e acc = Inr (acc @ k)"
      by (simp add: normalise_step_def k_def split: option.splits)
    then have "foldR normalise_step (e # es) acc = Inr ss \<longleftrightarrow>
        (\<exists>rs. map normalise_entry es = map Inr rs \<and> ss = acc @ List.map_filter (\<lambda>r. r) (r # rs))"
      unfolding foldR.simps k using Cons.IH [of "acc @ k"] by simp
    moreover have "map normalise_entry (e # es) = map Inr rs \<longleftrightarrow>
        (\<exists>qs. rs = r # qs \<and> map normalise_entry es = map Inr qs)" for rs
      using Inr by (cases rs) auto
    ultimately show ?thesis by auto
  qed
qed

lemma normalise_steps_valid:
  assumes "foldR normalise_step es [] = Inr ss"
  shows "list_all valid_entry ss"
proof (rule foldR_invariant [where P = "list_all valid_entry", OF _ _ assms])
  show "list_all valid_entry s'" if "list_all valid_entry s" "normalise_step e s = Inr s'" for e s s'
    using that normalise_entry_valid [of e] by (auto simp: normalise_step_def bindR_eq_Inr split: option.splits)
qed simp

lemma normalise_schedule_valid: "normalise_schedule raw = Inr ss \<Longrightarrow> list_all valid_entry ss"
  by (auto simp: normalise_schedule_def split: json.splits dest: normalise_steps_valid)

text \<open>The interval of an entry that sets no time.\<close>

definition entry_interval :: "json \<Rightarrow> json option" where
  "entry_interval e =
     (case e of
        JObj d \<Rightarrow> if get_none d ''time'' = JNull
                  then Some (get_default d ''every_seconds'' (get_none d ''interval_seconds'')) else None
      | _ \<Rightarrow> None)"

lemma normalise_entry_raises:
  "normalise_entry e = Inl x \<longleftrightarrow> x = OverflowError \<and> (\<exists>neg. entry_interval e = Some (JFloat (FInf neg)))"
  by (auto simp: normalise_entry_def entry_interval_def Let_def bindR_eq_Inl ann_helper_defs safe_int_raises
      split: json.splits if_splits option.splits)

lemma normalise_steps_raise:
  "foldR normalise_step es acc = Inl x \<longleftrightarrow>
   x = OverflowError \<and> (\<exists>e \<in> set es. \<exists>neg. entry_interval e = Some (JFloat (FInf neg)))"
proof (induction es arbitrary: acc)
  case (Cons e es)
  show ?case
  proof (cases "normalise_entry e")
    case (Inl y)
    with normalise_entry_raises [of e y] show ?thesis by (auto simp: normalise_step_def)
  next
    case (Inr r)
    with normalise_entry_raises [of e OverflowError] have "\<nexists>neg. entry_interval e = Some (JFloat (FInf neg))" by auto
    with Inr Cons.IH show ?thesis by (cases r) (simp_all add: normalise_step_def)
  qed
qed simp

text \<open>
  C32.  A single bad entry never disables the schedule: \<open>normalise_schedule\<close> raises only for an entry whose
  interval is an infinity, and otherwise gives the readings of the good entries in order, each
  a valid time of the day or an interval of at least 30 seconds with an optional non-blank message.
\<close>

theorem normalise_schedule_spec:
  "case normalise_schedule (JList es) of
     Inl x \<Rightarrow> x = OverflowError \<and> (\<exists>e \<in> set es. \<exists>neg. entry_interval e = Some (JFloat (FInf neg)))
   | Inr ss \<Rightarrow> list_all valid_entry ss \<and>
       (\<exists>rs. map normalise_entry es = map Inr rs \<and> ss = List.map_filter (\<lambda>r. r) rs)"
proof (cases "normalise_schedule (JList es)")
  case (Inl x)
  then have "foldR normalise_step es [] = Inl x" by (simp add: normalise_schedule_def)
  with Inl show ?thesis unfolding normalise_steps_raise by simp
next
  case (Inr ss)
  then have "foldR normalise_step es [] = Inr ss" by (simp add: normalise_schedule_def)
  then have "\<exists>rs. map normalise_entry es = map Inr rs \<and> ss = List.map_filter (\<lambda>r. r) rs"
    unfolding normalise_steps by simp
  with Inr normalise_schedule_valid [OF Inr] show ?thesis by simp
qed

subsection \<open>Facts: the configuration\<close>

lemma normalise_announce_command_allowed: "normalise_announce_command v \<in> set allowed_announce_commands"
  by (simp add: normalise_announce_command_def ann_helper_defs Let_def default_announce_command_def
      allowed_announce_commands_def)

lemma valid_messages_usable: "valid_messages v \<noteq> [] \<and> list_all (\<lambda>m. strip m \<noteq> []) (valid_messages v)"
proof -
  have s: "string_of_message x = Some m \<Longrightarrow> strip m \<noteq> []" for x m by (cases x) (auto split: if_splits)
  have d: "list_all (\<lambda>m. strip m \<noteq> []) default_fallback_messages" by code_simp
  have f: "list_all (\<lambda>m. strip m \<noteq> []) (List.map_filter string_of_message ms)" for ms
    by (auto simp: list_all_iff List.map_filter_def dest: s)
  from d f show ?thesis
    by (auto simp: valid_messages_def Let_def default_fallback_messages_def split: json.splits)
qed

definition ann_valid :: "ann_config \<Rightarrow> bool" where
  "ann_valid c \<longleftrightarrow> ac_command c \<in> set allowed_announce_commands \<and> ac_host c \<noteq> [] \<and>
     1 \<le> ac_timeout c \<and> 30 \<le> ac_interval c \<and> 0 \<le> ac_startup_delay c \<and>
     list_all valid_entry (ac_schedule c) \<and>
     ac_messages c \<noteq> [] \<and> list_all (\<lambda>m. strip m \<noteq> []) (ac_messages c)"

lemma ann_load_config_valid:
  assumes "ann_load_config env = Inr c"
  shows "ann_valid c"
proof -
  from assms obtain d where d: "ann_validate env d = Inr c" by (auto simp: ann_load_config_def bindR_eq_Inr)
  then have
    "safe_int (get_none d ''startup_delay_seconds'') 60 0 = Inr (ac_startup_delay c)"
    "safe_int (get_none d ''interval_seconds'') 900 30 = Inr (ac_interval c)"
    "safe_int (get_none d ''rcon_timeout_seconds'') 3 1 = Inr (ac_timeout c)"
    "normalise_schedule (get_default d ''schedule'' (JList [])) = Inr (ac_schedule c)"
    and r: "ac_command c = normalise_announce_command (get_none d ''announce_command'')"
    "ac_host c = host_or_local d" "ac_messages c = valid_messages (get_none d ''messages'')"
    unfolding ann_validate_def Let_def by (auto simp: bindR_eq_Inr ann_helper_defs)
  from safe_int_min [OF _ this(1)] safe_int_min [OF _ this(2)] safe_int_min [OF _ this(3)]
    normalise_schedule_valid [OF this(4)] r
  show ?thesis
    by (simp add: ann_valid_def normalise_announce_command_allowed host_or_local_nonempty valid_messages_usable)
qed

interpretation ann_rcon: rcon_config ann_load_config "\<lambda>c. [ac_command c]" ac_host ac_timeout
  by unfold_locales (auto simp: ann_valid_def dest: ann_load_config_valid)

text \<open>
  Whatever the operator configured, a configuration that \<open>load_config\<close> returns can be used: whitelisted
  command, host, a timeout of at least one second, an interval of at least 30, valid schedule
  entries and at least one message, none blank; and the command line of every message quotes it so
  that it reads back.
\<close>

theorem ann_config_usable:
  assumes "ann_load_config env = Inr c"
  shows "ann_valid c \<and>
    (command_line (ac_command c) m = ''svsay '' @ quote_rcon_arg m \<or>
     command_line (ac_command c) m = ''say '' @ quote_rcon_arg m) \<and>
    unquote (drop (Suc (length (ac_command c))) (command_line (ac_command c) m)) = Some (m, [])"
  using ann_load_config_valid [OF assms] ann_rcon.command_line_forms [OF assms, of "ac_command c" m]
    ann_rcon.command_line_message [OF assms, of "ac_command c" m] by simp

definition sample_section :: dict where
  "sample_section =
     [(''announce_command'', JStr ''exec''), (''interval_seconds'', JInt 5),
      (''messages'', JList [JStr '' '', JNull, JStr ''hello'']),
      (''schedule'', JList [JObj [(''time'', JStr ''7:30'')], JObj [(''every_seconds'', JInt 29)], JNull,
         JObj [(''interval_seconds'', JStr ''60''), (''message'', JStr '' hi '')]])]"

text \<open>A zone that shows the first of January 2024 at instant 0 and counts on within the month.\<close>

definition sample_clock :: tzinfo where
  "sample_clock t =
     (let s = \<lfloor>t\<rfloor>
      in \<lparr>dt_date = Date 2024 1 (1 + s div 86400), dt_hour = s mod 86400 div 3600, dt_minute = s mod 3600 div 60,
          dt_second = s mod 60, dt_micro = 0\<rparr>)"

definition ann_sample_env :: ann_env where
  "ann_sample_env =
     \<lparr>ae_os = \<lparr>environ = (\<lambda>k. if k = ''JKA_ADDON_CONFIG_JSON'' then Some ''{}'' else None),
              file_at = (\<lambda>p. Missing), json_loads = (\<lambda>t. Inr (JObj sample_section))\<rparr>,
      ae_script_dir = ''/opt'',
      ae_local = sample_clock,
      ae_zone = (\<lambda>z. ZoneNotFound)\<rparr>"

definition ann_sample_config :: ann_config where
  "ann_sample_config =
     \<lparr>ac_enabled = True, ac_startup_delay = 60, ac_interval = 30, ac_host = ''127.0.0.1'', ac_timeout = 3,
      ac_command = ''svsay'', ac_log_path = default_log_path,
      ac_schedule = [\<lparr>se_trigger = Daily (Tod 7 30 0), se_message = None\<rparr>,
                     \<lparr>se_trigger = Every 60, se_message = Some ''hi''\<rparr>],
      ac_tz = sample_clock, ac_messages = [''hello'']\<rparr>"

lemma ann_sample_schedule:
  "normalise_schedule (get_default (dict_update ann_default_config sample_section) ''schedule'' (JList [])) =
     Inr [\<lparr>se_trigger = Daily (Tod 7 30 0), se_message = None\<rparr>,
          \<lparr>se_trigger = Every 60, se_message = Some ''hi''\<rparr>]"
  by code_simp

lemma ann_sample_values:
  "loaded_section (ae_os ann_sample_env) (ann_addons_config_path (ae_os ann_sample_env)) ''announcer'' =
     Inr (Some sample_section)"
  "ann_safe_bool (get_default (dict_update ann_default_config sample_section) ''enabled'' (JBool True)) True = True"
  "ann_safe_int (get_none (dict_update ann_default_config sample_section) ''startup_delay_seconds'') 60 0 = Inr 60"
  "ann_safe_int (get_none (dict_update ann_default_config sample_section) ''interval_seconds'') 900 30 = Inr 30"
  "ann_safe_int (get_none (dict_update ann_default_config sample_section) ''rcon_timeout_seconds'') 3 1 = Inr 3"
  "normalise_announce_command (get_none (dict_update ann_default_config sample_section) ''announce_command'') = ''svsay''"
  "resolve_sibling_path (ae_script_dir ann_sample_env)
     (py_str (get_default (dict_update ann_default_config sample_section) ''log_file'' (JStr default_log_path)))
     default_log_path = default_log_path"
  "host_or_local (dict_update ann_default_config sample_section) = ''127.0.0.1''"
  "valid_messages (get_none (dict_update ann_default_config sample_section) ''messages'') = [''hello'']"
  "get_default (dict_update ann_default_config sample_section) ''timezone'' (JStr ''local'') = JStr ''local''"
  "strip (py_str (py_or (JStr ''local'') (JStr []))) = ''local''" "lower ''local'' = ''local''"
  by code_simp+

lemma ann_sample_local: "ae_local ann_sample_env = sample_clock"
  by (simp add: ann_sample_env_def)

lemma ann_sample_load: "ann_load_config ann_sample_env = Inr ann_sample_config"
  by (simp add: ann_load_config_def ann_loaded_def ann_validate_def ann_sample_values ann_sample_schedule
      resolve_timezone_def ann_sample_local ann_sample_config_def)

theorem ann_config_usable_witness:
  "ann_valid ann_sample_config \<and>
   unquote (drop (Suc (length (ac_command ann_sample_config))) (command_line (ac_command ann_sample_config) ''a\"b'')) =
     Some (''a\"b'', [])"
  using ann_config_usable [OF ann_sample_load, of "''a\"b''"] by blast

end
