(* ===== verification/Py_Utf8.thy ===== *)
theory Py_Utf8
  imports Rcon_Wire
begin

section \<open>\<open>bytes.decode("utf-8", errors="replace")\<close>\<close>

text \<open>
  The lenient decoder of RCON replies.  Its result is a list of code points, because a reply can hold
  any byte: every maximal prefix of an ill-formed sequence becomes one replacement character U+FFFD,
  as in CPython.  The operations the addons use on a decoded reply follow.
\<close>

type_synonym codes = "int list"

definition replacement_char :: int where
  "replacement_char = 65533"

text \<open>
  What a lead byte announces: the number of continuation bytes, the range of the first of them, and the
  bits it contributes.
\<close>

definition utf8_lead :: "int \<Rightarrow> (nat \<times> int \<times> int \<times> int) option" where
  "utf8_lead b =
     (if 194 \<le> b \<and> b \<le> 223 then Some (1, 128, 191, b - 192)
      else if b = 224 then Some (2, 160, 191, 0)
      else if b = 237 then Some (2, 128, 159, 13)
      else if 225 \<le> b \<and> b \<le> 239 then Some (2, 128, 191, b - 224)
      else if b = 240 then Some (3, 144, 191, 0)
      else if 241 \<le> b \<and> b \<le> 243 then Some (3, 128, 191, b - 240)
      else if b = 244 then Some (3, 128, 143, 4)
      else None)"

fun utf8_tail :: "nat \<Rightarrow> int \<Rightarrow> int \<Rightarrow> int \<Rightarrow> codes \<Rightarrow> int \<times> codes" where
  "utf8_tail 0 lo hi acc bs = (acc, bs)"
| "utf8_tail (Suc n) lo hi acc [] = (replacement_char, [])"
| "utf8_tail (Suc n) lo hi acc (c # cs) =
     (if lo \<le> c \<and> c \<le> hi then utf8_tail n 128 191 (acc * 64 + (c - 128)) cs
      else (replacement_char, c # cs))"

lemma utf8_tail_length: "utf8_tail n lo hi acc bs = (v, r) \<Longrightarrow> length r \<le> length bs"
  by (induction n lo hi acc bs rule: utf8_tail.induct) (auto split: if_splits)

function utf8_decode_codes :: "codes \<Rightarrow> codes" where
  "utf8_decode_codes [] = []"
| "utf8_decode_codes (b # bs) =
     (if b < 128 then b # utf8_decode_codes bs
      else case utf8_lead b of
             None \<Rightarrow> replacement_char # utf8_decode_codes bs
           | Some (n, lo, hi, acc) \<Rightarrow>
               (let (v, r) = utf8_tail n lo hi acc bs in v # utf8_decode_codes r))"
  by pat_completeness auto
termination
  by (relation "measure length") (simp_all, metis less_Suc_eq_le utf8_tail_length)

definition utf8_decode :: "byte list \<Rightarrow> codes" where
  "utf8_decode bs = utf8_decode_codes (map uint bs)"

subsection \<open>Text operations on code points\<close>

definition code_space :: "int \<Rightarrow> bool" where
  "code_space c \<longleftrightarrow> 9 \<le> c \<and> c \<le> 13 \<or> 28 \<le> c \<and> c \<le> 32 \<or> 8192 \<le> c \<and> c \<le> 8202 \<or>
     c \<in> {133, 160, 5760, 8232, 8233, 8239, 8287, 12288}"

definition strip_codes :: "codes \<Rightarrow> codes" where
  "strip_codes s = rev (dropWhile code_space (rev (dropWhile code_space s)))"

fun codes_prefix :: "codes \<Rightarrow> codes \<Rightarrow> bool" where
  "codes_prefix [] s = True"
| "codes_prefix (c # p) [] = False"
| "codes_prefix (c # p) (d # s) \<longleftrightarrow> c = d \<and> codes_prefix p s"

fun codes_contain :: "codes \<Rightarrow> codes \<Rightarrow> bool" where
  "codes_contain n [] = codes_prefix n []"
| "codes_contain n (c # s) \<longleftrightarrow> codes_prefix n (c # s) \<or> codes_contain n s"

text \<open>
  \<open>lower()\<close> on the letters A to Z.  No other code point has a lower case form with one of the letters
  of \<open>bad rconpassword\<close>, so the search for that phrase is unaffected by the rest of \<open>lower()\<close>.
\<close>

definition lower_code :: "int \<Rightarrow> int" where
  "lower_code c = (if 65 \<le> c \<and> c \<le> 90 then c + 32 else c)"

subsection \<open>Facts\<close>

lemma uint_utf8_char:
  "map uint (utf8_char c) = (if code c < 128 then [code c] else [192 + code c div 64, 128 + code c mod 64])"
proof (cases "code c < 128")
  case True
  with code_bounds [of c] show ?thesis by (simp add: utf8_char_def uint_of_byte)
next
  case False
  define n where "n = code c"
  from False code_bounds [of c] have n: "128 \<le> n" "n < 256" by (auto simp: n_def)
  then have "uint (word_of_int (192 + n div 64) :: byte) = 192 + n div 64"
    "uint (word_of_int (128 + n mod 64) :: byte) = 128 + n mod 64"
    by (intro uint_of_byte; simp; presburger)+
  with False show ?thesis by (simp add: utf8_char_def n_def)
qed

lemma utf8_decode_char: "utf8_decode_codes (map uint (utf8_char c) @ bs) = code c # utf8_decode_codes bs"
proof (cases "code c < 128")
  case True
  then show ?thesis by (simp add: uint_utf8_char)
next
  case False
  define n where "n = code c"
  from False code_bounds [of c] have n: "128 \<le> n" "n < 256" by (auto simp: n_def)
  then have b: "194 \<le> 192 + n div 64" "192 + n div 64 \<le> 223" "0 \<le> n mod 64" "n mod 64 \<le> 63" "\<not> 192 + n div 64 < 128"
    "n div 64 * 64 + n mod 64 = n"
    by presburger+
  from b have "utf8_lead (192 + n div 64) = Some (1, 128, 191, n div 64)" by (simp add: utf8_lead_def)
  moreover have "utf8_tail 1 128 191 (n div 64) ((128 + n mod 64) # bs) = (n, bs)" using b by simp
  ultimately show ?thesis using False b by (simp add: uint_utf8_char n_def)
qed

lemma utf8_decode_encode_append:
  "utf8_decode (utf8_encode s @ bs) = map code s @ utf8_decode bs"
  by (induction s) (simp_all add: utf8_encode_def utf8_decode_def utf8_decode_char)

text \<open>A byte FF is no lead byte: it is replaced.\<close>

lemma utf8_decode_ff: "utf8_decode (255 # bs) = replacement_char # utf8_decode bs"
  by (simp add: utf8_decode_def utf8_lead_def)

end
