(* ===== verification/Announcer_Rcon.thy ===== *)
theory Announcer_Rcon
  imports Announcer_Config Py_Utf8
begin

section \<open>\<open>announcer.py\<close>: runtime state and RCON\<close>

text \<open>
  The discovery of the RCON password and port, which also reads the JSON state file, and one
  announcement.  Every definition returns what it sends as datagrams beside its result.
\<close>

subsection \<open>Runtime state\<close>

definition runtime_state_path :: string where
  "runtime_state_path = home_container @ ''/.runtime/taystjk-effective.json''"

definition runtime_env_path :: string where
  "runtime_env_path = home_container @ ''/.runtime/taystjk-effective.env''"

definition env_key_map :: "(string \<times> string) list" where
  "env_key_map =
     [(''TAYSTJK_ACTIVE_SERVER_CONFIG_PATH'', ''active_server_config_path''),
      (''TAYSTJK_EFFECTIVE_SERVER_PORT'', ''effective_server_port''),
      (''TAYSTJK_EFFECTIVE_SERVER_RCON_PASSWORD'', ''effective_server_rcon_password'')]"

definition state_from_environ :: "os_env \<Rightarrow> dict" where
  "state_from_environ os =
     foldl (\<lambda>state (key, mapped_key). case environ os key of
              Some v \<Rightarrow> if v = [] then state else dict_set mapped_key (JStr (strip v)) state
            | None \<Rightarrow> state) [] env_key_map"

definition state_env_line :: "string \<Rightarrow> dict \<Rightarrow> dict res" where
  "state_env_line raw_line state =
     (let line = strip raw_line
      in if line = [] \<or> CHR ''='' \<notin> set line then Inr state
         else let (k, raw_value) = split_once (CHR ''='') line
              in case map_of env_key_map (strip k) of
                   None \<Rightarrow> Inr state
                 | Some mapped_key \<Rightarrow> bindR (shlex_split raw_value) (\<lambda>parsed_tokens.
                     let parsed_value = (case parsed_tokens of t # _ \<Rightarrow> t | [] \<Rightarrow> [])
                     in Inr (dict_setdefault mapped_key (JStr parsed_value) state)))"

definition state_from_env_file :: "os_env \<Rightarrow> dict \<Rightarrow> dict res" where
  "state_from_env_file os state =
     (if is_file os runtime_env_path
      then catchR (bindR (read_text os runtime_env_path) (\<lambda>t. foldR state_env_line (splitlines t) state))
             (\<lambda>e. e = OSError) (\<lambda>_. Inr state)
      else Inr state)"

text \<open>The keys taken over from the JSON state file where they are still missing.\<close>

definition state_from_json :: "json \<Rightarrow> dict \<Rightarrow> dict" where
  "state_from_json loaded state =
     (case loaded of
        JObj d \<Rightarrow>
          foldl (\<lambda>state key. case (dict_get state key, dict_get d key) of
                   (None, Some v) \<Rightarrow> dict_set key v state
                 | _ \<Rightarrow> state) state [''active_server_config_path'', ''effective_server_port'']
      | _ \<Rightarrow> state)"

definition load_runtime_state :: "os_env \<Rightarrow> dict res" where
  "load_runtime_state os =
     bindR (state_from_env_file os (state_from_environ os)) (\<lambda>state.
       if \<not> is_file os runtime_state_path then Inr state
       else case bindR (read_text os runtime_state_path) (json_loads os) of
              Inl e \<Rightarrow> if e = JSONDecodeError \<or> e = OSError then Inr state else Inl e
            | Inr loaded \<Rightarrow> Inr (state_from_json loaded state))"

text \<open>The operator \<open>/\<close> of paths: an absolute right operand replaces the left one.\<close>

definition path_join :: "string \<Rightarrow> string \<Rightarrow> string" where
  "path_join a b = (if startswith b ''/'' then b else a @ ''/'' @ b)"

definition env_or :: "os_env \<Rightarrow> string \<Rightarrow> string \<Rightarrow> string" where
  "env_or os key dflt = (let v = strip (getenv os key dflt) in if v \<noteq> [] then v else dflt)"

definition active_server_config_path :: "os_env \<Rightarrow> string res" where
  "active_server_config_path os =
     bindR (load_runtime_state os) (\<lambda>runtime_state.
       let runtime_path = strip (py_str (get_default runtime_state ''active_server_config_path'' (JStr [])))
       in if runtime_path \<noteq> [] then Inr runtime_path
          else Inr (path_join (path_join home_container (env_or os ''FS_GAME_MOD'' ''taystjk''))
                      (env_or os ''SERVER_CONFIG'' ''server.cfg'')))"

definition extract_rcon_password :: "os_env \<Rightarrow> string \<Rightarrow> string option" where
  "extract_rcon_password = extract_rcon_password_from_config"

definition ann_current_server_port :: "os_env \<Rightarrow> int res" where
  "ann_current_server_port os =
     bindR (load_runtime_state os) (\<lambda>runtime_state.
       if truthy (get_none runtime_state ''effective_server_port'')
       then ann_safe_int (get_none runtime_state ''effective_server_port'') 29070 1
       else ann_safe_int (JStr (getenv os ''SERVER_PORT'' ''29070'')) 29070 1)"

definition ann_effective_rcon_password :: "os_env \<Rightarrow> string \<Rightarrow> string option res" where
  "ann_effective_rcon_password os config_path =
     bindR (load_runtime_state os) (\<lambda>runtime_state.
       let runtime_password = strip (py_str (get_default runtime_state ''effective_server_rcon_password'' (JStr [])))
       in if runtime_password \<noteq> [] then Inr (Some runtime_password)
          else Inr (extract_rcon_password os config_path))"

subsection \<open>One RCON exchange\<close>

definition codes_of :: "string \<Rightarrow> codes" where
  "codes_of s = map code s"

text \<open>The text of a reply: lenient decoding, \<open>lstrip("\xff")\<close>, the prefix \<open>print\n\<close>, \<open>strip()\<close>.\<close>

definition reply_text :: "byte list \<Rightarrow> codes" where
  "reply_text response =
     (let decoded = dropWhile (\<lambda>c. c = 255) (utf8_decode response);
          decoded = (if codes_prefix (codes_of (''print'' @ [CHR 0x0A])) decoded then drop 6 decoded else decoded)
      in strip_codes decoded)"

definition ann_send_rcon_command ::
  "net \<Rightarrow> string \<Rightarrow> int \<Rightarrow> string \<Rightarrow> int \<Rightarrow> string \<Rightarrow> datagram list \<times> codes res" where
  "ann_send_rcon_command net host port password timeout_seconds command =
     (let d = \<lparr>d_host = host, d_port = port, d_payload = rcon_payload password command\<rparr>
      in case socket_check port timeout_seconds of
           Some e \<Rightarrow> ([], Inl e)
         | None \<Rightarrow>
             (case net of
                SendFails e \<Rightarrow> ([], Inl e)
              | TimesOut \<Rightarrow> ([d], Inr [])
              | RecvFails e \<Rightarrow> ([d], Inl e)
              | Replies response \<Rightarrow> ([d], Inr (reply_text response))))"

definition escape_command_argument :: "string \<Rightarrow> string" where
  "escape_command_argument v =
     replace_char (CHR 0x22) [CHR 0x5C, CHR 0x22] (replace_char (CHR 0x5C) [CHR 0x5C, CHR 0x5C] v)"

definition ann_command :: "ann_config \<Rightarrow> string \<Rightarrow> string" where
  "ann_command config message =
     ac_command config @ '' '' @ [CHR 0x22] @ escape_command_argument message @ [CHR 0x22]"

definition rejected_reply :: "codes \<Rightarrow> bool" where
  "rejected_reply response \<longleftrightarrow>
     response \<noteq> [] \<and> codes_contain (codes_of ''bad rconpassword'') (map lower_code response)"

definition dispatch_announcement ::
  "os_env \<Rightarrow> net \<Rightarrow> ann_config \<Rightarrow> string \<Rightarrow> datagram list \<times> bool res" where
  "dispatch_announcement os net config message =
     (case bindR (active_server_config_path os) (ann_effective_rcon_password os) of
        Inl e \<Rightarrow> ([], Inl e)
      | Inr None \<Rightarrow> ([], Inr False)
      | Inr (Some password) \<Rightarrow>
          if password = [] then ([], Inr False)
          else case ann_current_server_port os of
                 Inl e \<Rightarrow> ([], if e = OSError then Inr False else Inl e)
               | Inr port \<Rightarrow>
                   (let (sent, outcome) = ann_send_rcon_command net (ac_host config) port password
                                            (ac_timeout config) (ann_command config message)
                    in (sent, case outcome of
                          Inl e \<Rightarrow> if e = OSError then Inr False else Inl e
                        | Inr response \<Rightarrow> Inr (\<not> rejected_reply response))))"

subsection \<open>Facts\<close>

text \<open>The text sent is the command line of the other announcers.\<close>

lemma ann_command_line: "ann_command config m = command_line (ac_command config) m"
  by (simp add: ann_command_def command_line_def quote_rcon_arg_def escape_command_argument_def Let_def)

lemma state_env_line_errors: "state_env_line l st = Inl e \<Longrightarrow> e = ValueError"
proof -
  obtain k v where "split_once (CHR ''='') (strip l) = (k, v)" by (metis surj_pair)
  then show "state_env_line l st = Inl e \<Longrightarrow> ?thesis"
    by (auto simp: state_env_line_def Let_def bindR_eq_Inl shlex_split_def
        split: if_splits option.splits dest: shlex_go_errors)
qed

text \<open>Which exceptions \<open>load_runtime_state\<close> lets through.\<close>

definition loads_benign :: "os_env \<Rightarrow> bool" where
  "loads_benign os \<longleftrightarrow> (\<forall>t. case json_loads os t of Inl e \<Rightarrow> e = JSONDecodeError | Inr _ \<Rightarrow> True)"

lemma load_runtime_state_errors:
  assumes "load_runtime_state os = Inl e" and "loads_benign os"
  shows "e = ValueError \<or> e = UnicodeDecodeError"
proof -
  have lines: "e = ValueError" if "foldR state_env_line ls st = Inl e" for ls st e
    using that by (rule foldR_errors [rotated]) (rule state_env_line_errors)
  have env: "x = ValueError \<or> x = UnicodeDecodeError" if "state_from_env_file os st = Inl x" for x st
    using that unfolding state_from_env_file_def
    by (auto simp: catchR_def bindR_eq_Inl read_text_def
        split: if_splits sum.splits file_read.splits dest: lines)
  have loads: "x = JSONDecodeError" if "json_loads os t = Inl x" for t x
    using assms(2) that unfolding loads_benign_def by (metis old.sum.simps(5))
  show ?thesis
  proof (cases "state_from_env_file os (state_from_environ os)")
    case (Inl x)
    with assms(1) env show ?thesis by (simp add: load_runtime_state_def)
  next
    case (Inr st)
    with assms(1) show ?thesis
      by (auto simp: load_runtime_state_def read_text_def bindR_eq_Inl
          split: if_splits sum.splits file_read.splits dest: loads)
  qed
qed

subsection \<open>Facts: replies\<close>

lemma code_space_code [simp]: "code_space (code c) = is_space c"
  using code_bounds [of c] by (auto simp: code_space_def is_space_def in_range_def)

lemma not_space_replacement [simp]: "\<not> code_space replacement_char"
  by (simp add: code_space_def replacement_char_def)

lemma dropWhile_codes: "dropWhile code_space (map code s) = map code (dropWhile is_space s)"
  by (induction s) simp_all

lemma strip_codes_kept:
  assumes "x \<noteq> []" "\<not> code_space (hd x)" "\<not> code_space (last x)"
  shows "strip_codes (x @ map code s) = x @ map code (rstrip s)"
proof -
  have "dropWhile code_space (x @ map code s) = x @ map code s" using assms by (cases x) simp_all
  moreover have "dropWhile code_space (rev (map code s) @ rev x) =
      map code (dropWhile is_space (rev s)) @ rev x"
    using assms by (cases x rule: rev_cases)
      (auto simp: dropWhile_append rev_map dropWhile_codes dropWhile_eq_Nil_conv)
  ultimately show ?thesis by (simp add: strip_codes_def rstrip_def rev_map)
qed

lemma reply_prefix:
  "reply_text ([255, 255, 255, 255] @ utf8_encode s) = replicate 4 replacement_char @ map code (rstrip s)"
proof -
  have "utf8_decode ([255, 255, 255, 255] @ utf8_encode s) = replicate 4 replacement_char @ map code s"
    using utf8_decode_encode_append [of s "[]"]
    by (simp add: utf8_decode_ff numeral_eq_Suc) (simp add: utf8_decode_def)
  moreover have "\<not> codes_prefix (codes_of (''print'' @ [CHR 0x0A])) (replicate 4 replacement_char @ map code s)"
    by (simp add: codes_of_def numeral_eq_Suc replacement_char_def code_def)
  moreover have "dropWhile (\<lambda>c. c = 255) (replicate 4 replacement_char @ map code s) =
      replicate 4 replacement_char @ map code s"
    by (simp add: numeral_eq_Suc replacement_char_def)
  ultimately show ?thesis by (simp add: reply_text_def Let_def strip_codes_kept)
qed

text \<open>
  \<open>send_rcon_command\<close> never removes the header of a reply: the four FF bytes are decoded to
  replacement characters, which \<open>lstrip("\xff")\<close> keeps, and in front of which \<open>print\n\<close> is no prefix.
  The reply text is the header as four replacement characters followed by the text with its
  trailing white space removed.
\<close>

theorem ann_reply_keeps_header:
  "reply_text ([255, 255, 255, 255] @ utf8_encode s) = replicate 4 replacement_char @ map code (rstrip s)"
  by (rule reply_prefix)

lemma lower_code_code:
  assumes "code d < 128"
  shows "lower_code (code c) = code d \<longleftrightarrow> d = lower_char c"
proof -
  have "code (lower_char c) = (if 65 \<le> code c \<and> code c \<le> 90 \<or> 192 \<le> code c \<and> code c \<le> 222 \<and> code c \<noteq> 215
      then code c + 32 else code c)"
    using code_bounds [of c] by (auto simp: lower_char_def in_range_def code_char_of)
  then have "lower_code (code c) = code d \<longleftrightarrow> code d = code (lower_char c)"
    using assms by (auto simp: lower_code_def)
  then show ?thesis by simp
qed

lemma codes_prefix_iff: "codes_prefix p s \<longleftrightarrow> (\<exists>r. s = p @ r)"
  by (induction p s rule: codes_prefix.induct) auto

lemma codes_contain_lower:
  assumes "list_all (\<lambda>d. code d < 128) p"
  shows "codes_contain (codes_of p) (map lower_code (map code s)) \<longleftrightarrow> contains (lower s) p"
proof -
  have pre: "codes_prefix (codes_of p) (map lower_code (map code t)) \<longleftrightarrow> startswith (lower t) p" for t
    using assms
  proof (induction p arbitrary: t)
    case (Cons d p)
    then show ?case by (cases t) (auto simp: codes_of_def lower_def lower_code_code eq_commute [of "code d"])
  qed (simp add: codes_of_def)
  show ?thesis
  proof (induction s)
    case Nil
    show ?case using pre [of "[]"] by (cases p) (simp_all add: lower_def codes_of_def)
  next
    case (Cons c s)
    with pre [of "c # s"] show ?case by (simp add: lower_def)
  qed
qed

lemma codes_contain_skip:
  "x \<noteq> replacement_char \<Longrightarrow> codes_contain (x # p) (replicate n replacement_char @ s) = codes_contain (x # p) s"
  by (induction n) auto

definition bad_password_phrase :: string where
  "bad_password_phrase = ''bad rconpassword''"

lemma rejected_reply_iff:
  "rejected_reply (reply_text ([255, 255, 255, 255] @ utf8_encode s)) \<longleftrightarrow>
     contains (lower (rstrip s)) bad_password_phrase"
proof -
  have p: "list_all (\<lambda>d. code d < 128) bad_password_phrase" by code_simp
  have "rejected_reply (replicate 4 replacement_char @ map code (rstrip s)) \<longleftrightarrow>
      codes_contain (codes_of bad_password_phrase)
        (replicate 4 replacement_char @ map lower_code (map code (rstrip s)))"
    by (simp add: rejected_reply_def bad_password_phrase_def lower_code_def replacement_char_def)
  also have "\<dots> \<longleftrightarrow> codes_contain (codes_of bad_password_phrase) (map lower_code (map code (rstrip s)))"
    by (simp only: bad_password_phrase_def codes_of_def list.map)
      (rule codes_contain_skip, simp add: replacement_char_def code_def)
  finally show ?thesis
    unfolding reply_prefix codes_contain_lower [OF p] .
qed

text \<open>What an announcement needs before it is sent: a password, and a port and timeout a socket accepts.\<close>

definition rcon_ready :: "os_env \<Rightarrow> ann_config \<Rightarrow> string \<Rightarrow> int \<Rightarrow> bool" where
  "rcon_ready os config password port \<longleftrightarrow>
     bindR (active_server_config_path os) (ann_effective_rcon_password os) = Inr (Some password) \<and>
     password \<noteq> [] \<and> ann_current_server_port os = Inr port \<and> 0 \<le> port \<and> port \<le> 65535 \<and>
     ac_timeout config \<le> max_timeout_seconds"

definition announcement_datagram :: "ann_config \<Rightarrow> int \<Rightarrow> string \<Rightarrow> string \<Rightarrow> datagram" where
  "announcement_datagram config port password message =
     \<lparr>d_host = ac_host config, d_port = port,
      d_payload = rcon_payload password (command_line (ac_command config) message)\<rparr>"

lemma dispatch_ready:
  "rcon_ready os config pw port \<Longrightarrow>
   dispatch_announcement os net config m =
     (case net of
        SendFails e \<Rightarrow> ([], if e = OSError then Inr False else Inl e)
      | TimesOut \<Rightarrow> ([announcement_datagram config port pw m], Inr True)
      | RecvFails e \<Rightarrow> ([announcement_datagram config port pw m], if e = OSError then Inr False else Inl e)
      | Replies r \<Rightarrow> ([announcement_datagram config port pw m], Inr (\<not> rejected_reply (reply_text r))))"
  by (auto simp: dispatch_announcement_def rcon_ready_def ann_send_rcon_command_def socket_check_def
      announcement_datagram_def ann_command_line rejected_reply_def Let_def split: net.splits)

text \<open>An exchange that counts as a success: no reply in time, or a reply that does not reject the password.\<close>

definition net_accepts :: "net \<Rightarrow> bool" where
  "net_accepts net =
     (case net of TimesOut \<Rightarrow> True | Replies r \<Rightarrow> \<not> rejected_reply (reply_text r) | _ \<Rightarrow> False)"

lemma dispatch_ok_iff:
  assumes "dispatch_announcement os net config m = (sent, Inr ok)"
  shows "ok \<longleftrightarrow> (\<exists>pw port. rcon_ready os config pw port) \<and> net_accepts net"
proof (cases "\<exists>pw port. rcon_ready os config pw port")
  case True
  then obtain pw port where "rcon_ready os config pw port" by blast
  with assms dispatch_ready [OF this, of net m] True show ?thesis
    by (auto simp: net_accepts_def split: net.splits if_splits)
next
  case False
  with assms have "\<not> ok"
    by (auto simp: dispatch_announcement_def rcon_ready_def ann_send_rcon_command_def socket_check_def Let_def
        split: sum.splits option.splits if_splits net.splits)
  with False show ?thesis by simp
qed

text \<open>
  \<open>dispatch_announcement\<close> recognises a rejected password: with a password and a usable port, one
  datagram with the announcement leaves, and for any text the server replies the result is success
  unless the text contains \<open>bad rconpassword\<close>, in upper or lower case, at any place.
\<close>

theorem ann_dispatch_reply:
  assumes "rcon_ready os config pw port"
    and "net = Replies ([255, 255, 255, 255] @ utf8_encode s)"
  shows "dispatch_announcement os net config m =
    ([announcement_datagram config port pw m], Inr (\<not> contains (lower (rstrip s)) ''bad rconpassword''))"
  using dispatch_ready [OF assms(1)] rejected_reply_iff [of s] assms(2) by (simp add: bad_password_phrase_def)

definition ann_sample_os :: os_env where
  "ann_sample_os = \<lparr>environ = (\<lambda>k. if k = ''TAYSTJK_EFFECTIVE_SERVER_RCON_PASSWORD'' then Some ''pw'' else None),
     file_at = (\<lambda>p. Missing), json_loads = (\<lambda>t. Inl JSONDecodeError)\<rparr>"

lemma ann_sample_ready: "rcon_ready ann_sample_os ann_sample_config ''pw'' 29070"
proof -
  have "bindR (active_server_config_path ann_sample_os) (ann_effective_rcon_password ann_sample_os) = Inr (Some ''pw'')"
    "ann_current_server_port ann_sample_os = Inr 29070"
    by code_simp+
  then show ?thesis by (simp add: rcon_ready_def ann_sample_config_def max_timeout_seconds_def)
qed

theorem ann_dispatch_reply_witness:
  "snd (dispatch_announcement ann_sample_os
     (Replies ([255, 255, 255, 255] @ utf8_encode (''print'' @ [CHR 0x0A] @ ''Bad rconpassword.'')))
     ann_sample_config ''hello'') = Inr False"
proof -
  have "contains (lower (rstrip (''print'' @ [CHR 0x0A] @ ''Bad rconpassword.''))) ''bad rconpassword''"
    by code_simp
  with ann_dispatch_reply [OF ann_sample_ready refl, of "''print'' @ [CHR 0x0A] @ ''Bad rconpassword.''" "''hello''"]
  show ?thesis by simp
qed

subsection \<open>Facts: the sources of the runtime state\<close>

lemma state_env_line_keeps:
  assumes "dict_get st k = Some v" "state_env_line l st = Inr st'"
  shows "dict_get st' k = Some v"
proof -
  obtain a b where "split_once (CHR ''='') (strip l) = (a, b)" by (metis surj_pair)
  with assms show ?thesis
    by (auto simp: state_env_line_def Let_def bindR_eq_Inr split: if_splits option.splits)
qed

lemma state_env_lines_keep:
  "dict_get st k = Some v \<Longrightarrow> foldR state_env_line ls st = Inr st' \<Longrightarrow> dict_get st' k = Some v"
  by (rule foldR_invariant [where P = "\<lambda>s. dict_get s k = Some v"]) (auto dest: state_env_line_keeps)

lemma state_from_env_file_keeps:
  "dict_get st k = Some v \<Longrightarrow> state_from_env_file os st = Inr st' \<Longrightarrow> dict_get st' k = Some v"
  unfolding state_from_env_file_def
  by (auto simp: catchR_def bindR_def split: if_splits sum.splits dest: state_env_lines_keep)

lemma json_fold_get:
  "dict_get (foldl (\<lambda>state key. case (dict_get state key, dict_get d key) of
       (None, Some v) \<Rightarrow> dict_set key v state | _ \<Rightarrow> state) st ks) k =
   (case dict_get st k of Some v \<Rightarrow> Some v | None \<Rightarrow> if k \<in> set ks then dict_get d k else None)"
  by (induction ks rule: rev_induct) (auto split: option.splits if_splits)

lemma state_from_json_get:
  "dict_get (state_from_json loaded st) k =
     (case dict_get st k of Some v \<Rightarrow> Some v
      | None \<Rightarrow> (case loaded of
          JObj d \<Rightarrow> if k \<in> set [''active_server_config_path'', ''effective_server_port''] then dict_get d k else None
        | _ \<Rightarrow> None))"
  by (simp only: state_from_json_def json_fold_get split: json.split option.split) simp

lemma environ_fold_get:
  assumes "distinct (map snd m)" "(key, k) \<in> set m" "environ os key = Some v" "v \<noteq> []"
  shows "dict_get (foldl (\<lambda>state (key, mapped_key). case environ os key of
              Some v \<Rightarrow> if v = [] then state else dict_set mapped_key (JStr (strip v)) state
            | None \<Rightarrow> state) [] m) k = Some (JStr (strip v))"
  using assms
proof (induction m rule: rev_induct)
  case (snoc x m)
  show ?case
  proof (cases "x = (key, k)")
    case True
    with snoc.prems show ?thesis by simp
  next
    case False
    with snoc.prems(2) have m: "(key, k) \<in> set m" by simp
    then have "k \<in> snd ` set m" by force
    with snoc.prems(1) have "snd x \<noteq> k" by auto
    with snoc m show ?thesis by (cases x) (simp split: option.splits)
  qed
qed simp

lemma state_from_environ_get:
  assumes "(key, k) \<in> set env_key_map" "environ os key = Some v" "v \<noteq> []"
  shows "dict_get (state_from_environ os) k = Some (JStr (strip v))"
proof -
  have "distinct (map snd env_key_map)" by code_simp
  from environ_fold_get [OF this assms] show ?thesis by (simp only: state_from_environ_def)
qed

lemma load_runtime_state_stages:
  assumes "load_runtime_state os = Inr st"
  obtains s1 where "state_from_env_file os (state_from_environ os) = Inr s1"
    "st = s1 \<or> (\<exists>loaded. st = state_from_json loaded s1)"
  using assms by (auto simp: load_runtime_state_def bindR_eq_Inr split: if_splits sum.splits)

text \<open>
  The sources of the runtime state have a fixed order: a variable of the process wins over the
  environment file, what these two set is never changed by the JSON state file, and the password
  is never taken from the JSON state file.
\<close>

theorem ann_state_precedence:
  assumes "load_runtime_state os = Inr st"
  shows "\<exists>s1. state_from_env_file os (state_from_environ os) = Inr s1 \<and>
     (\<forall>k v. dict_get s1 k = Some v \<longrightarrow> dict_get st k = Some v) \<and>
     (\<forall>key k v. (key, k) \<in> set env_key_map \<and> environ os key = Some v \<and> v \<noteq> [] \<longrightarrow>
        dict_get st k = Some (JStr (strip v))) \<and>
     dict_get st ''effective_server_rcon_password'' = dict_get s1 ''effective_server_rcon_password''"
proof -
  obtain s1 where s1: "state_from_env_file os (state_from_environ os) = Inr s1"
    and st: "st = s1 \<or> (\<exists>loaded. st = state_from_json loaded s1)"
    using load_runtime_state_stages [OF assms] .
  have keep: "dict_get st k = Some v" if "dict_get s1 k = Some v" for k v
    using st that by (auto simp: state_from_json_get)
  have pw_key: "''effective_server_rcon_password'' \<notin> set [''active_server_config_path'', ''effective_server_port'']"
    by code_simp
  have pw: "dict_get st ''effective_server_rcon_password'' = dict_get s1 ''effective_server_rcon_password''"
    using st pw_key by (auto simp: state_from_json_get simp del: list.set split: json.splits option.splits)
  have env: "dict_get st k = Some (JStr (strip v))"
    if "(key, k) \<in> set env_key_map" "environ os key = Some v" "v \<noteq> []" for key k v
    using keep state_from_env_file_keeps [OF state_from_environ_get [OF that] s1] .
  from s1 keep pw env show ?thesis by blast
qed

theorem ann_state_precedence_witness:
  "\<exists>st. load_runtime_state ann_sample_os = Inr st \<and> dict_get st ''effective_server_rcon_password'' = Some (JStr ''pw'')"
proof -
  obtain st where st: "load_runtime_state ann_sample_os = Inr st"
    by (cases "load_runtime_state ann_sample_os") (use ann_sample_ready in \<open>auto simp: rcon_ready_def ann_current_server_port_def\<close>)
  have k: "(''TAYSTJK_EFFECTIVE_SERVER_RCON_PASSWORD'', ''effective_server_rcon_password'') \<in> set env_key_map"
    and e: "environ ann_sample_os ''TAYSTJK_EFFECTIVE_SERVER_RCON_PASSWORD'' = Some ''pw''" "''pw'' \<noteq> []"
    and p: "strip ''pw'' = ''pw''"
    by code_simp+
  from ann_state_precedence [OF st] obtain s1 where
    "\<forall>key k v. (key, k) \<in> set env_key_map \<and> environ ann_sample_os key = Some v \<and> v \<noteq> [] \<longrightarrow>
       dict_get st k = Some (JStr (strip v))" by blast
  from this [rule_format, OF conjI [OF k conjI [OF e]]] st show ?thesis unfolding p by blast
qed

subsection \<open>Facts: announcements that do not raise\<close>

definition dispatch_benign :: "os_env \<Rightarrow> net \<Rightarrow> ann_config \<Rightarrow> bool" where
  "dispatch_benign os net config \<longleftrightarrow>
     (case load_runtime_state os of Inl _ \<Rightarrow> False | Inr _ \<Rightarrow> True) \<and>
     (case ann_current_server_port os of Inl e \<Rightarrow> e = OSError | Inr port \<Rightarrow> 0 \<le> port \<and> port \<le> 65535) \<and>
     ac_timeout config \<le> max_timeout_seconds \<and> net_benign net"

lemma dispatch_total:
  assumes "dispatch_benign os net config"
  shows "\<exists>sent ok. dispatch_announcement os net config m = (sent, Inr ok)"
proof -
  obtain st where st: "load_runtime_state os = Inr st"
    using assms by (auto simp: dispatch_benign_def split: sum.splits)
  have "\<exists>path. active_server_config_path os = Inr path" by (simp add: active_server_config_path_def st Let_def)
  moreover have "\<exists>pw. ann_effective_rcon_password os path = Inr pw" for path
    by (simp add: ann_effective_rcon_password_def st Let_def)
  ultimately obtain pw where pw: "bindR (active_server_config_path os) (ann_effective_rcon_password os) = Inr pw"
    by force
  show ?thesis
  proof (cases "\<exists>p port. pw = Some p \<and> p \<noteq> [] \<and> ann_current_server_port os = Inr port")
    case True
    then obtain p port where p: "pw = Some p" "p \<noteq> []" "ann_current_server_port os = Inr port" by blast
    with assms pw have "rcon_ready os config p port" by (simp add: rcon_ready_def dispatch_benign_def)
    moreover have "net_benign net" using assms by (simp add: dispatch_benign_def)
    ultimately show ?thesis by (auto simp: dispatch_ready net_benign_def split: net.splits)
  next
    case False
    with assms pw show ?thesis
      by (auto simp: dispatch_announcement_def dispatch_benign_def split: option.splits sum.splits)
  qed
qed

lemma dispatch_sent:
  "dispatch_announcement os net config m = (sent, r) \<Longrightarrow>
   sent = [] \<or> (\<exists>port pw. sent = [announcement_datagram config port pw m])"
  by (auto simp: dispatch_announcement_def ann_send_rcon_command_def announcement_datagram_def ann_command_line Let_def
      split: sum.splits option.splits if_splits net.splits)

lemma dispatch_ok_sent:
  "dispatch_announcement os net config m = (sent, Inr True) \<Longrightarrow> sent \<noteq> []"
  by (auto simp: dispatch_announcement_def ann_send_rcon_command_def Let_def
      split: sum.splits option.splits if_splits net.splits)

end
