(* ===== verification/Announcer_Schedule.thy ===== *)
theory Announcer_Schedule
  imports Announcer_Rcon
begin

section \<open>\<open>announcer.py\<close>: the two announcement loops\<close>

text \<open>
  One pass of a loop is \<open>ann_pass\<close>.  Its input \<open>ann_input\<close> holds what the pass reads: the shutdown flag, the
  configuration's surroundings, the readings of the monotonic clock and of the wall clock (as instants)
  and the surroundings of each announcement.  The worker's state holds the local variables of the
  running loop and a trace of the announcements it attempted.  \<open>run_simple_interval_loop\<close> and
  \<open>run_scheduled_loop\<close> call each other when the schedule appears or vanishes; here such a call changes
  \<open>as_mode\<close> and sets up the local variables of the called loop.
\<close>

subsection \<open>Times\<close>

definition today_target :: "datetime \<Rightarrow> tod \<Rightarrow> datetime" where
  "today_target now target =
     now\<lparr>dt_hour := tod_hour target, dt_minute := tod_minute target, dt_second := tod_second target, dt_micro := 0\<rparr>"

text \<open>
  Both operands of every comparison and difference carry the same \<open>tzinfo\<close>, so Python compares and
  subtracts their wall clock fields.
\<close>

definition wall_seconds :: "datetime \<Rightarrow> rat" where
  "wall_seconds t =
     of_int (ordinal (dt_date t) * 86400 + dt_hour t * 3600 + dt_minute t * 60 + dt_second t)
       + of_int (dt_micro t) / 1000000"

definition max_ordinal :: int where
  "max_ordinal = 3652059"

text \<open>\<open>_seconds_until_slot\<close> and \<open>_slot_due_now\<close>, given the reading \<open>now\<close>.\<close>

definition seconds_until_slot :: "tod \<Rightarrow> datetime \<Rightarrow> bool \<Rightarrow> rat res" where
  "seconds_until_slot target now fired_today =
     (let today = today_target now target
      in if \<not> fired_today \<and> wall_seconds now \<ge> wall_seconds today then Inr 0
         else if wall_seconds now < wall_seconds today
         then Inr (max 0 (wall_seconds today - wall_seconds now))
         else if ordinal (dt_date now) + 1 > max_ordinal then Inl OverflowError
         else Inr (max 0 (wall_seconds today + 86400 - wall_seconds now)))"

definition slot_due_now :: "tod \<Rightarrow> datetime \<Rightarrow> bool \<Rightarrow> bool \<times> date" where
  "slot_due_now target now fired_today =
     (\<not> fired_today \<and> wall_seconds now \<ge> wall_seconds (today_target now target), dt_date now)"

text \<open>\<open>float(n)\<close>: beyond the range of doubles it raises; the rounding of large integers is not modelled.\<close>

definition float_of_int :: "int \<Rightarrow> rat res" where
  "float_of_int n = (if n \<ge> 2 ^ 1024 - 2 ^ 970 then Inl OverflowError else Inr (of_int n))"

text \<open>\<open>_interruptible_sleep\<close>; \<open>stop\<close> is the shutdown flag at its end.\<close>

definition interruptible_sleep :: "rat \<Rightarrow> bool \<Rightarrow> bool res" where
  "interruptible_sleep seconds stop =
     (if seconds > of_int max_timeout_seconds then Inl OverflowError else Inr stop)"

subsection \<open>The rotation\<close>

definition next_message :: "string list \<Rightarrow> nat \<Rightarrow> string option \<times> nat" where
  "next_message messages cursor =
     (if messages = [] then (None, cursor)
      else (Some (messages ! (cursor mod length messages)), (cursor + 1) mod max 1 (length messages)))"

subsection \<open>Inputs and state\<close>

record ann_input =
  ai_set :: bool
  ai_env :: ann_env
  ai_base :: rat
  ai_mono :: rat
  ai_mono2 :: rat
  ai_today :: rat
  ai_wall :: "nat \<Rightarrow> rat"
  ai_stop :: bool
  ai_stop2 :: bool
  ai_mono3 :: rat
  ai_fire :: "nat \<Rightarrow> rat"
  ai_call :: "nat \<Rightarrow> os_env \<times> net"

datatype ann_mode = IntervalMode | ScheduleMode

datatype call =
    Rotated string "datagram list" bool
  | Slot nat date string "datagram list" bool
  | Periodic nat rat string "datagram list" bool

record ann_state =
  as_mode :: ann_mode
  as_cursor :: nat
  as_deadlines :: "nat \<Rightarrow> rat option"
  as_fired :: "nat \<Rightarrow> date option"
  as_calls :: "call list"
  as_exit :: "int option"

definition interval_start :: "ann_state \<Rightarrow> ann_state" where
  "interval_start st =
     st\<lparr>as_mode := IntervalMode, as_cursor := 0, as_deadlines := (\<lambda>_. None), as_fired := (\<lambda>_. None)\<rparr>"

definition add_deadline ::
  "rat \<Rightarrow> nat \<times> sched_entry \<Rightarrow> (nat \<Rightarrow> rat option) \<Rightarrow> (nat \<Rightarrow> rat option) res" where
  "add_deadline base ie deadlines =
     (case se_trigger (snd ie) of
        Every n \<Rightarrow> bindR (float_of_int n) (\<lambda>f. Inr (deadlines(fst ie \<mapsto> base + f)))
      | Daily _ \<Rightarrow> Inr deadlines)"

definition schedule_start :: "rat \<Rightarrow> sched_entry list \<Rightarrow> ann_state \<Rightarrow> ann_state res" where
  "schedule_start base schedule st =
     bindR (foldR (add_deadline base) (enumerate 0 schedule) (\<lambda>_. None)) (\<lambda>deadlines.
       Inr (st\<lparr>as_mode := ScheduleMode, as_cursor := 0, as_deadlines := deadlines, as_fired := (\<lambda>_. None)\<rparr>))"

subsection \<open>The interval loop\<close>

definition interval_pass :: "ann_input \<Rightarrow> ann_config \<Rightarrow> ann_state \<Rightarrow> ann_state res" where
  "interval_pass inp config st =
     (if ac_schedule config \<noteq> [] then schedule_start (ai_base inp) (ac_schedule config) st
      else bindR
        (case next_message (ac_messages config) (as_cursor st) of
           (None, cursor) \<Rightarrow> Inr st
         | (Some message, cursor) \<Rightarrow>
             if message = [] then Inr (st\<lparr>as_cursor := cursor\<rparr>)
             else let (sent, r) = dispatch_announcement (fst (ai_call inp 0)) (snd (ai_call inp 0)) config message
                  in bindR r (\<lambda>ok.
                       Inr (st\<lparr>as_cursor := cursor, as_calls := as_calls st @ [Rotated message sent ok]\<rparr>)))
        (\<lambda>st. bindR (interruptible_sleep (of_int (ac_interval config)) (ai_stop inp)) (\<lambda>stop.
           Inr (if stop then st\<lparr>as_exit := Some 0\<rparr> else st))))"

subsection \<open>The scheduled loop\<close>

definition every_entry :: "sched_entry \<Rightarrow> bool" where
  "every_entry e \<longleftrightarrow> (case se_trigger e of Every _ \<Rightarrow> True | Daily _ \<Rightarrow> False)"

definition missing_deadline ::
  "rat \<Rightarrow> nat \<times> sched_entry \<Rightarrow> (nat \<Rightarrow> rat option) \<Rightarrow> (nat \<Rightarrow> rat option) res" where
  "missing_deadline now ie deadlines =
     (if deadlines (fst ie) = None then add_deadline now ie deadlines else Inr deadlines)"

text \<open>The deadlines and markers that remain valid for the schedule just loaded.\<close>

definition reconcile :: "rat \<Rightarrow> sched_entry list \<Rightarrow> ann_state \<Rightarrow> ann_state res" where
  "reconcile now schedule st =
     bindR (foldR (missing_deadline now) (enumerate 0 schedule) (as_deadlines st)) (\<lambda>deadlines.
       Inr (st\<lparr>as_deadlines := (\<lambda>i. if i < length schedule \<and> every_entry (schedule ! i) then deadlines i else None),
              as_fired := (\<lambda>i. if i < length schedule \<and> \<not> every_entry (schedule ! i) then as_fired st i else None)\<rparr>))"

definition wakeup :: "ann_input \<Rightarrow> ann_config \<Rightarrow> date \<Rightarrow> ann_state \<Rightarrow> nat \<times> sched_entry \<Rightarrow> rat res" where
  "wakeup inp config today st ie =
     (case se_trigger (snd ie) of
        Daily t \<Rightarrow> seconds_until_slot t (ac_tz config (ai_wall inp (fst ie))) (as_fired st (fst ie) = Some today)
      | Every _ \<Rightarrow>
          (let deadline = (case as_deadlines st (fst ie) of Some d \<Rightarrow> d | None \<Rightarrow> ai_mono2 inp)
           in Inr (max 0 (deadline - ai_mono2 inp))))"

definition wakeups :: "ann_input \<Rightarrow> ann_config \<Rightarrow> date \<Rightarrow> ann_state \<Rightarrow> rat list res" where
  "wakeups inp config today st =
     foldR (\<lambda>ie wakes. bindR (wakeup inp config today st ie) (\<lambda>w. Inr (wakes @ [w])))
       (enumerate 0 (ac_schedule config)) []"

definition max_sleep_interval_seconds :: rat where
  "max_sleep_interval_seconds = 60"

definition sleep_for :: "rat list \<Rightarrow> rat" where
  "sleep_for wakes =
     (let s = (if wakes \<noteq> [] then min_list wakes else max_sleep_interval_seconds)
      in min max_sleep_interval_seconds (max 0 s))"

text \<open>The announcement of a due entry; \<open>mark\<close> makes the trace item and \<open>done\<close> records a success.\<close>

definition announce_entry ::
  "ann_input \<Rightarrow> ann_config \<Rightarrow> nat \<Rightarrow> sched_entry \<Rightarrow> (string \<Rightarrow> datagram list \<Rightarrow> bool \<Rightarrow> call) \<Rightarrow>
   (ann_state \<Rightarrow> ann_state) \<Rightarrow> ann_state \<Rightarrow> ann_state res" where
  "announce_entry inp config i e mark on_ok st =
     (let (message, cursor) =
        (case se_message e of
           Some m \<Rightarrow> if m \<noteq> [] then (Some m, as_cursor st) else next_message (ac_messages config) (as_cursor st)
         | None \<Rightarrow> next_message (ac_messages config) (as_cursor st));
          st = st\<lparr>as_cursor := cursor\<rparr>
      in case message of
           None \<Rightarrow> Inr st
         | Some m \<Rightarrow>
             if m = [] then Inr st
             else let (sent, r) = dispatch_announcement (fst (ai_call inp i)) (snd (ai_call inp i)) config m
                  in bindR r (\<lambda>ok.
                       let st = st\<lparr>as_calls := as_calls st @ [mark m sent ok]\<rparr>
                       in Inr (if ok then on_ok st else st)))"

definition fire_entry ::
  "ann_input \<Rightarrow> ann_config \<Rightarrow> date \<Rightarrow> nat \<times> sched_entry \<Rightarrow> ann_state \<Rightarrow> ann_state res" where
  "fire_entry inp config today ie st =
     (let (i, e) = ie
      in case se_trigger e of
           Daily t \<Rightarrow>
             (let (due, today_for_entry) =
                slot_due_now t (ac_tz config (ai_fire inp i)) (as_fired st i = Some today)
              in if \<not> due then Inr st
                 else announce_entry inp config i e (Slot i today_for_entry)
                        (\<lambda>st. st\<lparr>as_fired := (as_fired st)(i \<mapsto> today_for_entry)\<rparr>) st)
         | Every n \<Rightarrow>
             (case as_deadlines st i of
                None \<Rightarrow> Inr st
              | Some deadline \<Rightarrow>
                  if ai_mono3 inp < deadline then Inr st
                  else bindR (float_of_int n) (\<lambda>f.
                         announce_entry inp config i e (Periodic i (ai_mono3 inp)) (\<lambda>st. st)
                           (st\<lparr>as_deadlines := (as_deadlines st)(i \<mapsto> ai_mono3 inp + f)\<rparr>))))"

definition schedule_pass :: "ann_input \<Rightarrow> ann_config \<Rightarrow> ann_state \<Rightarrow> ann_state res" where
  "schedule_pass inp config st =
     (if ac_schedule config = [] then Inr (interval_start st)
      else bindR (reconcile (ai_mono inp) (ac_schedule config) st) (\<lambda>st.
        let today = dt_date (ac_tz config (ai_today inp))
        in bindR (wakeups inp config today st) (\<lambda>wakes.
           bindR (if sleep_for wakes > 0 then interruptible_sleep (sleep_for wakes) (ai_stop inp) else Inr False) (\<lambda>stop.
             if stop \<or> ai_stop2 inp then Inr (st\<lparr>as_exit := Some 0\<rparr>)
             else foldR (fire_entry inp config today) (enumerate 0 (ac_schedule config)) st))))"

subsection \<open>One pass, and the worker\<close>

definition ann_pass :: "ann_input \<Rightarrow> ann_state \<Rightarrow> ann_state res" where
  "ann_pass inp st =
     (if as_exit st \<noteq> None then Inr st
      else if ai_set inp then Inr (st\<lparr>as_exit := Some 0\<rparr>)
      else bindR (ann_load_config (ai_env inp)) (\<lambda>config.
             if \<not> ac_enabled config then Inr (st\<lparr>as_exit := Some 0\<rparr>)
             else case as_mode st of
                    IntervalMode \<Rightarrow> interval_pass inp config st
                  | ScheduleMode \<Rightarrow> schedule_pass inp config st))"

definition worker_init :: ann_state where
  "worker_init = \<lparr>as_mode = IntervalMode, as_cursor = 0, as_deadlines = (\<lambda>_. None), as_fired = (\<lambda>_. None),
     as_calls = [], as_exit = None\<rparr>"

text \<open>\<open>_emit_startup_diagnostics\<close> as far as it can raise.\<close>

definition emit_startup_diagnostics :: "os_env \<Rightarrow> unit res" where
  "emit_startup_diagnostics os =
     bindR (active_server_config_path os) (\<lambda>config_path.
     bindR (ann_effective_rcon_password os config_path) (\<lambda>_.
     bindR (ann_current_server_port os) (\<lambda>_. Inr ())))"

text \<open>\<open>run_worker\<close> behind the lock: \<open>stop\<close> is the shutdown flag at the end of the start-up delay.\<close>

definition worker_main :: "ann_env \<Rightarrow> rat \<Rightarrow> bool \<Rightarrow> ann_input list \<Rightarrow> ann_state res" where
  "worker_main env base stop inputs =
     bindR (ann_load_config env) (\<lambda>config.
     bindR (emit_startup_diagnostics (ae_os env)) (\<lambda>_.
       if \<not> ac_enabled config then Inr (worker_init\<lparr>as_exit := Some 0\<rparr>)
       else bindR (if ac_startup_delay config > 0
                   then interruptible_sleep (of_int (ac_startup_delay config)) stop else Inr False) (\<lambda>stopped.
              if stopped then Inr (worker_init\<lparr>as_exit := Some 0\<rparr>)
              else bindR (if ac_schedule config \<noteq> [] then schedule_start base (ac_schedule config) worker_init
                          else Inr (interval_start worker_init)) (foldR ann_pass inputs))))"

end
