(* ===== verification/Announcer_Facts.thy ===== *)
theory Announcer_Facts
  imports Announcer_Schedule
begin

section \<open>\<open>announcer.py\<close>: what the loops do\<close>

text \<open>
  Lemmas on the parts of a pass, and the guarantees of the two loops: the rotation, the sleep, one
  announcement per day and slot, the spacing of periodic entries, and what reaches the wire.
\<close>

subsection \<open>Loops that collect\<close>

lemma foldR_collect:
  "foldR (\<lambda>x acc. bindR (f x) (\<lambda>w. Inr (acc @ [w]))) xs acc = Inr r \<longleftrightarrow>
   (\<exists>wakes. map f xs = map Inr wakes \<and> r = acc @ wakes)"
proof (induction xs arbitrary: acc)
  case (Cons x xs)
  show ?case
  proof (cases "f x")
    case (Inl e)
    then show ?thesis by (auto simp: Cons_eq_map_conv)
  next
    case (Inr w)
    with Cons.IH [of "acc @ [w]"] show ?thesis by (auto simp: Cons_eq_map_conv)
  qed
qed auto

text \<open>A loop over numbered items, seen from the item \<open>i\<close>.\<close>

lemma enumerate_split:
  assumes "i < length es"
  shows "enumerate 0 es = enumerate 0 (take i es) @ (i, es ! i) # enumerate (Suc i) (drop (Suc i) es)"
  using id_take_nth_drop [OF assms] enumerate_append_eq [of 0 "take i es" "es ! i # drop (Suc i) es"] assms
  by simp

lemma foldR_at:
  assumes run: "foldR f (enumerate 0 es) s = Inr s'" and i: "i < length es"
    and others: "\<And>j e t t'. j \<noteq> i \<Longrightarrow> f (j, e) t = Inr t' \<Longrightarrow> v t' = v t"
  obtains t t' where "v t = v s" "f (i, es ! i) t = Inr t'" "v s' = v t'"
proof -
  have keep: "v b = v a" if "foldR f xs a = Inr b" "i \<notin> fst ` set xs" for xs a b
    using that
  proof (induction xs arbitrary: a)
    case (Cons x xs)
    then obtain c where c: "f x a = Inr c" "foldR f xs c = Inr b" by (auto simp: bindR_eq_Inr)
    from Cons.prems c(1) have "v c = v a" using others [of "fst x" "snd x" a c] by auto
    with Cons.IH [OF c(2)] Cons.prems show ?case by simp
  qed simp
  obtain t where t: "foldR f (enumerate 0 (take i es)) s = Inr t"
    "bindR (f (i, es ! i) t) (foldR f (enumerate (Suc i) (drop (Suc i) es))) = Inr s'"
    using run unfolding enumerate_split [OF i] foldR_append by (auto simp: bindR_eq_Inr)
  then obtain t' where t': "f (i, es ! i) t = Inr t'" "foldR f (enumerate (Suc i) (drop (Suc i) es)) t' = Inr s'"
    by (auto simp: bindR_eq_Inr)
  have "i \<notin> fst ` set (enumerate 0 (take i es))" "i \<notin> fst ` set (enumerate (Suc i) (drop (Suc i) es))"
    by (auto simp: in_set_enumerate_eq)
  with keep [OF t(1)] keep [OF t'(2)] t'(1) show thesis by (intro that) auto
qed

subsection \<open>The rotation\<close>

lemma next_message_Some:
  "next_message ms c = (Some m, c') \<Longrightarrow> m \<in> set ms"
  by (auto simp: next_message_def split: if_splits)

fun rotation :: "string list \<Rightarrow> nat \<Rightarrow> nat \<Rightarrow> string list" where
  "rotation ms c 0 = []"
| "rotation ms c (Suc n) =
     (case next_message ms c of (Some m, c') \<Rightarrow> m # rotation ms c' n | (None, _) \<Rightarrow> [])"

lemma rotation_nth:
  "ms \<noteq> [] \<Longrightarrow> rotation ms c n = map (\<lambda>k. ms ! ((c + k) mod length ms)) [0..<n]"
proof (induction n arbitrary: c)
  case (Suc n)
  have "[0..<Suc n] = 0 # map Suc [0..<n]" by (simp add: upt_conv_Cons map_Suc_upt)
  moreover have "((c + 1) mod length ms + k) mod length ms = (c + Suc k) mod length ms" for k
    by (simp add: mod_simps)
  moreover have "max 1 (length ms) = length ms" using Suc.prems by (cases ms) simp_all
  ultimately show ?case using Suc by (simp add: next_message_def)
qed simp

text \<open>What the trace says about the calls of one kind.\<close>

definition rotated :: "call \<Rightarrow> string option" where
  "rotated c = (case c of Rotated m _ _ \<Rightarrow> Some m | _ \<Rightarrow> None)"

abbreviation rotated_messages :: "ann_state \<Rightarrow> string list" where
  "rotated_messages st \<equiv> List.map_filter rotated (as_calls st)"

text \<open>A pass of the interval loop that announces and goes on.\<close>

definition interval_going :: "string list \<Rightarrow> ann_input \<Rightarrow> bool" where
  "interval_going ms inp \<longleftrightarrow> \<not> ai_set inp \<and> \<not> ai_stop inp \<and>
     (case ann_load_config (ai_env inp) of
        Inr c \<Rightarrow> ac_enabled c \<and> ac_schedule c = [] \<and> ac_messages c = ms
      | Inl _ \<Rightarrow> False)"

lemma map_filter_snoc: "List.map_filter f (xs @ [x]) = List.map_filter f xs @ (case f x of None \<Rightarrow> [] | Some y \<Rightarrow> [y])"
  by (simp add: List.map_filter_def split: option.splits)

lemma valid_messages_nonblank: "ann_valid c \<Longrightarrow> m \<in> set (ac_messages c) \<Longrightarrow> m \<noteq> []"
  by (auto simp: ann_valid_def list_all_iff)

lemma interval_going_step:
  assumes "interval_going ms inp" "ann_pass inp st = Inr st'"
    and "as_exit st = None" "as_mode st = IntervalMode"
  shows "ms \<noteq> [] \<and> as_exit st' = None \<and> as_mode st' = IntervalMode \<and>
    (\<exists>m. next_message ms (as_cursor st) = (Some m, as_cursor st') \<and>
       rotated_messages st' = rotated_messages st @ [m])"
proof -
  obtain c where c: "ann_load_config (ai_env inp) = Inr c" "ac_enabled c" "ac_schedule c = []" "ac_messages c = ms"
    "\<not> ai_set inp" "\<not> ai_stop inp"
    using assms(1) by (auto simp: interval_going_def split: sum.splits)
  note v = ann_load_config_valid [OF c(1)]
  then have ms: "ms \<noteq> []" using c(4) by (simp add: ann_valid_def)
  then obtain m cu where m: "next_message ms (as_cursor st) = (Some m, cu)" by (auto simp: next_message_def)
  then have "m \<noteq> []" using next_message_Some valid_messages_nonblank [OF v] c(4) by blast
  obtain sent r where d: "dispatch_announcement (fst (ai_call inp 0)) (snd (ai_call inp 0)) c m = (sent, r)"
    by (metis surj_pair)
  from assms(2-) c \<open>m \<noteq> []\<close> m d obtain ok where
    "st' = st\<lparr>as_cursor := cu, as_calls := as_calls st @ [Rotated m sent ok]\<rparr>"
    by (auto simp: ann_pass_def interval_pass_def interruptible_sleep_def bindR_eq_Inr split: if_splits)
  with ms m assms(3,4) show ?thesis by (simp add: map_filter_snoc rotated_def)
qed

lemma interval_run:
  assumes "list_all (interval_going ms) inputs" "foldR ann_pass inputs st = Inr st'"
    and "as_exit st = None" "as_mode st = IntervalMode"
  shows "rotated_messages st' = rotated_messages st @ rotation ms (as_cursor st) (length inputs)"
  using assms
proof (induction inputs arbitrary: st)
  case (Cons inp inputs)
  then obtain s where s: "ann_pass inp st = Inr s" "foldR ann_pass inputs s = Inr st'" by (auto simp: bindR_eq_Inr)
  from Cons.prems have "interval_going ms inp" by simp
  from interval_going_step [OF this s(1) Cons.prems(3,4)] Cons.IH [OF _ s(2)] Cons.prems(1)
  show ?case by auto
qed simp

text \<open>
  C10.  The interval loop rotates fairly: over any number of passes with the same messages, the
  announcements it attempts are the messages one after the other, starting over at the end, whether
  the server accepted them or not.
\<close>

theorem ann_rotation:
  assumes "list_all (interval_going ms) inputs" "foldR ann_pass inputs worker_init = Inr st"
  shows "rotated_messages st = map (\<lambda>k. ms ! (k mod length ms)) [0..<length inputs]"
proof (cases inputs)
  case Nil
  with assms(2) show ?thesis by (auto simp: worker_init_def List.map_filter_simps)
next
  case (Cons inp inps)
  with assms obtain s where "interval_going ms inp" "ann_pass inp worker_init = Inr s" by (auto simp: bindR_eq_Inr)
  from interval_going_step [OF this] have "ms \<noteq> []" by (simp add: worker_init_def)
  from interval_run [OF assms] rotation_nth [OF this, of 0]
  show ?thesis by (simp add: worker_init_def List.map_filter_simps)
qed

subsection \<open>The sleep\<close>

lemma wakeups_Inr:
  "wakeups inp config today st = Inr wakes \<longleftrightarrow>
   map (wakeup inp config today st) (enumerate 0 (ac_schedule config)) = map Inr wakes"
  by (simp add: wakeups_def foldR_collect)

lemma sleep_for_bounds: "0 \<le> sleep_for wakes" "sleep_for wakes \<le> 60"
  by (auto simp: sleep_for_def max_sleep_interval_seconds_def Let_def)

lemma sleep_for_least: "w \<in> set wakes \<Longrightarrow> 0 \<le> w \<Longrightarrow> sleep_for wakes \<le> w"
proof -
  assume "w \<in> set wakes" "0 \<le> w"
  moreover from this have "wakes \<noteq> []" by auto
  then have "min_list wakes \<le> w" using \<open>w \<in> set wakes\<close> by (simp add: min_list_Min)
  ultimately show ?thesis by (auto simp: sleep_for_def max_sleep_interval_seconds_def Let_def)
qed

lemma sleep_for_zero:
  assumes "sleep_for wakes = 0"
  obtains w where "w \<in> set wakes" "w \<le> 0"
proof -
  have "wakes \<noteq> []" "min_list wakes \<le> 0"
    using assms by (auto simp: sleep_for_def max_sleep_interval_seconds_def Let_def min_def max_def split: if_splits)
  moreover from this have "min_list wakes \<in> set wakes" using Min_in [of "set wakes"] by (simp add: min_list_Min)
  ultimately show thesis by (intro that)
qed

text \<open>A clock reading with fields in range.\<close>

definition clock_ok :: "datetime \<Rightarrow> bool" where
  "clock_ok t \<longleftrightarrow> 0 \<le> dt_hour t \<and> dt_hour t \<le> 23 \<and> 0 \<le> dt_minute t \<and> dt_minute t \<le> 59 \<and>
     0 \<le> dt_second t \<and> dt_second t \<le> 59 \<and> 0 \<le> dt_micro t \<and> dt_micro t < 1000000"

text \<open>The seconds since midnight.\<close>

definition day_seconds :: "datetime \<Rightarrow> rat" where
  "day_seconds t = of_int (dt_hour t * 3600 + dt_minute t * 60 + dt_second t) + of_int (dt_micro t) / 1000000"

definition tod_seconds :: "tod \<Rightarrow> rat" where
  "tod_seconds t = of_int (tod_hour t * 3600 + tod_minute t * 60 + tod_second t)"

lemma wall_seconds_eq: "wall_seconds t = of_int (ordinal (dt_date t)) * 86400 + day_seconds t"
  by (simp add: wall_seconds_def day_seconds_def)

lemma today_target_fields [simp]:
  "dt_date (today_target now t) = dt_date now" "day_seconds (today_target now t) = tod_seconds t"
  by (simp_all add: day_seconds_def today_target_def tod_seconds_def)

lemma day_seconds_bounds: "clock_ok t \<Longrightarrow> 0 \<le> day_seconds t \<and> day_seconds t < 86400"
proof -
  assume c: "clock_ok t"
  define n where "n = dt_hour t * 3600 + dt_minute t * 60 + dt_second t"
  from c have "0 \<le> n" "n \<le> 86399" by (auto simp: clock_ok_def n_def)
  then have "0 \<le> (of_int n :: rat)" "(of_int n :: rat) \<le> 86399" by (simp_all add: of_int_le_iff [of _ 86399, simplified])
  moreover have "0 \<le> (of_int (dt_micro t) :: rat)" "(of_int (dt_micro t) :: rat) < 1000000"
    using c by (simp_all add: clock_ok_def of_int_less_iff [of _ 1000000, simplified])
  ultimately show ?thesis by (simp add: day_seconds_def n_def)
qed

lemma tod_seconds_bounds: "valid_tod t \<Longrightarrow> 0 \<le> tod_seconds t \<and> tod_seconds t \<le> 86399"
proof -
  assume c: "valid_tod t"
  define n where "n = tod_hour t * 3600 + tod_minute t * 60 + tod_second t"
  from c have "0 \<le> n" "n \<le> 86399" by (auto simp: valid_tod_def n_def)
  then show ?thesis by (simp add: tod_seconds_def n_def [symmetric] of_int_le_iff [of _ 86399, simplified])
qed

text \<open>
  \<open>_seconds_until_slot\<close> gives the distance to the next occurrence that has not been announced: zero
  from the slot's time to midnight of a day without an announcement, otherwise a positive distance
  of at most a day that leads exactly to the slot's time, today or tomorrow.
\<close>

theorem ann_seconds_until_slot:
  assumes "clock_ok now" "valid_tod t" "seconds_until_slot t now fired = Inr d"
  shows "if \<not> fired \<and> tod_seconds t \<le> day_seconds now then d = 0
    else 0 < d \<and> d \<le> 86400 \<and>
      (if day_seconds now < tod_seconds t then day_seconds now + d = tod_seconds t
       else day_seconds now + d = tod_seconds t + 86400)"
  using assms(3) day_seconds_bounds [OF assms(1)] tod_seconds_bounds [OF assms(2)]
  by (auto simp: seconds_until_slot_def wall_seconds_eq Let_def split: if_splits)

theorem ann_seconds_until_slot_witness:
  "(0 :: rat) < 90 \<and> day_seconds \<lparr>dt_date = Date 2024 2 28, dt_hour = 23, dt_minute = 59, dt_second = 0, dt_micro = 0\<rparr> + 90
     = tod_seconds (Tod 0 0 30) + 86400"
  using ann_seconds_until_slot [of "\<lparr>dt_date = Date 2024 2 28, dt_hour = 23, dt_minute = 59, dt_second = 0, dt_micro = 0\<rparr>"
    "Tod 0 0 30" True 90]
  by (simp add: clock_ok_def valid_tod_def seconds_until_slot_def wall_seconds_def today_target_def Let_def
      days_before_year_def days_before_month_def max_ordinal_def day_seconds_def tod_seconds_def)

text \<open>An entry that is due when the sleep is computed.\<close>

definition due_entry :: "ann_input \<Rightarrow> ann_config \<Rightarrow> date \<Rightarrow> ann_state \<Rightarrow> nat \<times> sched_entry \<Rightarrow> bool" where
  "due_entry inp config today st ie \<longleftrightarrow>
     (case se_trigger (snd ie) of
        Daily t \<Rightarrow> as_fired st (fst ie) \<noteq> Some today \<and> tod_seconds t \<le> day_seconds (ac_tz config (ai_wall inp (fst ie)))
      | Every _ \<Rightarrow> (case as_deadlines st (fst ie) of None \<Rightarrow> True | Some d \<Rightarrow> d \<le> ai_mono2 inp))"

text \<open>The seconds to the next occurrence of an entry, as far as it lies ahead.\<close>

definition ahead :: "ann_input \<Rightarrow> ann_config \<Rightarrow> ann_state \<Rightarrow> nat \<times> sched_entry \<Rightarrow> rat" where
  "ahead inp config st ie =
     (case se_trigger (snd ie) of
        Daily t \<Rightarrow>
          (let now = day_seconds (ac_tz config (ai_wall inp (fst ie)))
           in if now < tod_seconds t then tod_seconds t - now else tod_seconds t + 86400 - now)
      | Every _ \<Rightarrow> (case as_deadlines st (fst ie) of None \<Rightarrow> 0 | Some d \<Rightarrow> max 0 (d - ai_mono2 inp)))"

lemma wakeup_value:
  assumes "wakeup inp config today st ie = Inr w" "valid_entry (snd ie)"
    and "\<And>i. clock_ok (ac_tz config (ai_wall inp i))"
  shows "w = (if due_entry inp config today st ie then 0 else ahead inp config st ie)"
    and "\<not> due_entry inp config today st ie \<Longrightarrow> 0 < w" and "0 \<le> ahead inp config st ie"
proof -
  let ?now = "ac_tz config (ai_wall inp (fst ie))"
  show "w = (if due_entry inp config today st ie then 0 else ahead inp config st ie)"
  proof (cases "se_trigger (snd ie)")
    case (Daily t)
    with assms(1,2) have d: "seconds_until_slot t ?now (as_fired st (fst ie) = Some today) = Inr w" "valid_tod t"
      by (simp_all add: wakeup_def valid_entry_def)
    have "0 \<le> day_seconds ?now" "day_seconds ?now < 86400" using day_seconds_bounds [OF assms(3)] by simp_all
    with tod_seconds_bounds [OF d(2)] d(1) Daily show ?thesis
      by (auto simp: seconds_until_slot_def wall_seconds_eq due_entry_def ahead_def Let_def split: if_splits)
  next
    case (Every n)
    with assms(1) show ?thesis by (auto simp: wakeup_def due_entry_def ahead_def split: option.splits)
  qed
  moreover have now: "0 \<le> day_seconds ?now" "day_seconds ?now < 86400" using day_seconds_bounds [OF assms(3)] by simp_all
  moreover have tod: "0 \<le> tod_seconds t \<and> tod_seconds t \<le> 86399" if "se_trigger (snd ie) = Daily t" for t
    using assms(2) that tod_seconds_bounds by (simp add: valid_entry_def)
  ultimately show "0 < w" if "\<not> due_entry inp config today st ie"
    using that by (auto simp: due_entry_def ahead_def Let_def not_le split: trigger.splits option.splits)
  show "0 \<le> ahead inp config st ie"
    using now tod by (auto simp: ahead_def Let_def split: trigger.splits option.splits)
qed

lemma sleep_horizon:
  assumes "ann_load_config env = Inr config" "ac_schedule config \<noteq> []"
    and "\<And>i. clock_ok (ac_tz config (ai_wall inp i))"
    and "wakeups inp config today st = Inr wakes"
  shows "0 \<le> sleep_for wakes \<and> sleep_for wakes \<le> 60 \<and>
    (\<forall>ie \<in> set (enumerate 0 (ac_schedule config)). sleep_for wakes \<le> ahead inp config st ie) \<and>
    (sleep_for wakes = 0 \<longleftrightarrow> (\<exists>ie \<in> set (enumerate 0 (ac_schedule config)). due_entry inp config today st ie))"
proof -
  let ?es = "enumerate 0 (ac_schedule config)"
  have valid: "valid_entry (snd ie)" if "ie \<in> set ?es" for ie
  proof -
    from that have "snd ie \<in> set (map snd ?es)" unfolding set_map by (rule imageI)
    then have "snd ie \<in> set (ac_schedule config)" unfolding map_snd_enumerate .
    with ann_load_config_valid [OF assms(1)] show ?thesis by (auto simp: ann_valid_def list_all_iff)
  qed
  have w1: "\<exists>w \<in> set wakes. wakeup inp config today st ie = Inr w" if "ie \<in> set ?es" for ie
    using assms(4) that unfolding wakeups_Inr by (metis (no_types, lifting) imageE imageI list.set_map)
  have w2: "\<exists>ie \<in> set ?es. wakeup inp config today st ie = Inr w" if "w \<in> set wakes" for w
    using assms(4) that unfolding wakeups_Inr by (metis (no_types, lifting) imageE imageI list.set_map)
  note val = wakeup_value [OF _ valid assms(3)]
  have "sleep_for wakes \<le> ahead inp config st ie" if ie: "ie \<in> set ?es" for ie
  proof -
    obtain w where w: "w \<in> set wakes" "wakeup inp config today st ie = Inr w" using w1 [OF ie] by blast
    from val(1) [OF w(2) ie] val(3) [OF w(2) ie] sleep_for_least [OF w(1)] show ?thesis by (auto split: if_splits)
  qed
  moreover have "sleep_for wakes = 0" if ie: "ie \<in> set ?es" "due_entry inp config today st ie" for ie
  proof -
    obtain w where w: "w \<in> set wakes" "wakeup inp config today st ie = Inr w" using w1 [OF ie(1)] by blast
    from val(1) [OF w(2) ie(1)] ie(2) sleep_for_least [OF w(1)] sleep_for_bounds [of wakes] show ?thesis by auto
  qed
  moreover have "\<exists>ie \<in> set ?es. due_entry inp config today st ie" if "sleep_for wakes = 0"
  proof -
    obtain w where w: "w \<in> set wakes" "w \<le> 0" using sleep_for_zero [OF \<open>sleep_for wakes = 0\<close>] .
    obtain ie where ie: "ie \<in> set ?es" "wakeup inp config today st ie = Inr w" using w2 [OF w(1)] by blast
    from val(2) [OF ie(2,1)] w(2) ie(1) show ?thesis by force
  qed
  ultimately show ?thesis using sleep_for_bounds [of wakes] by blast
qed

text \<open>
  C9.  The scheduled loop never oversleeps and never spins: it sleeps at most 60 seconds and at most until
  the next occurrence of any entry, and it only skips the sleep if an entry is due.
\<close>

theorem ann_sleep_horizon:
  assumes "ann_load_config env = Inr config" "ac_schedule config \<noteq> []"
    and "\<And>i. clock_ok (ac_tz config (ai_wall inp i))"
    and "wakeups inp config today st = Inr wakes"
  shows "0 \<le> sleep_for wakes \<and> sleep_for wakes \<le> 60 \<and>
    (\<forall>ie \<in> set (enumerate 0 (ac_schedule config)). sleep_for wakes \<le> ahead inp config st ie) \<and>
    (sleep_for wakes = 0 \<longleftrightarrow> (\<exists>ie \<in> set (enumerate 0 (ac_schedule config)). due_entry inp config today st ie))"
  using sleep_horizon [OF assms] .

end
