(* ===== verification/Announcer_Slots.thy ===== *)
theory Announcer_Slots
  imports Announcer_Facts
begin

section \<open>\<open>announcer.py\<close>: the guarantees of the scheduled loop\<close>

subsection \<open>One announcement\<close>

text \<open>The messages an entry can announce.\<close>

definition message_pool :: "ann_config \<Rightarrow> sched_entry \<Rightarrow> string set" where
  "message_pool config e = set (ac_messages config) \<union> (case se_message e of None \<Rightarrow> {} | Some m \<Rightarrow> {m})"

lemma announce_entry_cases:
  assumes "announce_entry inp config i e mark on_ok st = Inr st'"
  obtains (silent) cursor where "st' = st\<lparr>as_cursor := cursor\<rparr>" "ac_messages config = [] \<or> [] \<in> set (ac_messages config)"
  | (said) cursor m sent ok where "m \<noteq> []" "m \<in> message_pool config e"
      "dispatch_announcement (fst (ai_call inp i)) (snd (ai_call inp i)) config m = (sent, Inr ok)"
      "st' = (let s = st\<lparr>as_cursor := cursor, as_calls := as_calls st @ [mark m sent ok]\<rparr> in if ok then on_ok s else s)"
proof -
  obtain message cursor where mc:
    "(case se_message e of
        Some m \<Rightarrow> if m \<noteq> [] then (Some m, as_cursor st) else next_message (ac_messages config) (as_cursor st)
      | None \<Rightarrow> next_message (ac_messages config) (as_cursor st)) = (message, cursor)" by (rule prod.exhaust)
  have pool: "m \<in> message_pool config e" if "message = Some m" for m
  proof (cases "\<exists>l. se_message e = Some l \<and> l \<noteq> []")
    case True
    with mc that show ?thesis by (auto simp: message_pool_def)
  next
    case False
    with mc have "next_message (ac_messages config) (as_cursor st) = (message, cursor)" by (auto split: option.splits)
    with that next_message_Some show ?thesis by (auto simp: message_pool_def)
  qed
  show thesis
  proof (cases "\<exists>m. message = Some m \<and> m \<noteq> []")
    case True
    then obtain m where m: "message = Some m" "m \<noteq> []" by blast
    obtain sent r where d: "dispatch_announcement (fst (ai_call inp i)) (snd (ai_call inp i)) config m = (sent, r)"
      by (metis surj_pair)
    from assms have "bindR r (\<lambda>ok. let s = st\<lparr>as_cursor := cursor, as_calls := as_calls st @ [mark m sent ok]\<rparr>
        in Inr (if ok then on_ok s else s)) = Inr st'"
      by (simp add: announce_entry_def mc m d)
    then obtain ok where ok: "r = Inr ok"
      "st' = (let s = st\<lparr>as_cursor := cursor, as_calls := as_calls st @ [mark m sent ok]\<rparr> in if ok then on_ok s else s)"
      by (cases r) (simp_all add: Let_def)
    from said [OF m(2) pool [OF m(1)] d [unfolded ok(1)] ok(2)] show thesis .
  next
    case False
    with assms have "st' = st\<lparr>as_cursor := cursor\<rparr>" by (cases message) (simp_all add: announce_entry_def mc)
    moreover have "ac_messages config = [] \<or> [] \<in> set (ac_messages config)"
    proof (cases message)
      case None
      with mc have "next_message (ac_messages config) (as_cursor st) = (None, cursor)"
        by (auto split: option.splits if_splits)
      then show ?thesis by (simp add: next_message_def split: if_splits)
    next
      case (Some m)
      with False have "m = []" by simp
      with mc Some have "next_message (ac_messages config) (as_cursor st) = (Some [], cursor)"
        by (auto split: option.splits if_splits)
      then show ?thesis by (blast dest: next_message_Some)
    qed
    ultimately show thesis by (rule silent)
  qed
qed

text \<open>With the messages of a loaded configuration an announcement is always attempted.\<close>

lemma announce_entry_said:
  assumes "announce_entry inp config i e mark on_ok st = Inr st'" "ann_valid config"
  obtains cursor m sent ok where "m \<noteq> []" "m \<in> message_pool config e"
      "dispatch_announcement (fst (ai_call inp i)) (snd (ai_call inp i)) config m = (sent, Inr ok)"
      "st' = (let s = st\<lparr>as_cursor := cursor, as_calls := as_calls st @ [mark m sent ok]\<rparr> in if ok then on_ok s else s)"
  using assms(1)
proof (cases rule: announce_entry_cases)
  case (silent cursor)
  with assms(2) valid_messages_nonblank [OF assms(2)] show thesis by (auto simp: ann_valid_def)
next
  case (said cursor m sent ok)
  from that [OF this] show thesis .
qed

subsection \<open>One entry\<close>

text \<open>What a due entry does, by its kind.\<close>

lemma fire_daily:
  assumes "fire_entry inp config today (i, e) st = Inr st'" "se_trigger e = Daily t" "ann_valid config"
  defines "now \<equiv> ac_tz config (ai_fire inp i)"
  obtains (wait) "st' = st" "as_fired st i = Some today \<or> wall_seconds now < wall_seconds (today_target now t)"
  | (fire) cursor m sent ok where "as_fired st i \<noteq> Some today" "wall_seconds (today_target now t) \<le> wall_seconds now"
      "m \<in> message_pool config e"
      "dispatch_announcement (fst (ai_call inp i)) (snd (ai_call inp i)) config m = (sent, Inr ok)"
      "st' = st\<lparr>as_cursor := cursor, as_calls := as_calls st @ [Slot i (dt_date now) m sent ok],
               as_fired := (if ok then (as_fired st)(i \<mapsto> dt_date now) else as_fired st)\<rparr>" "m \<noteq> []"
proof (cases "as_fired st i \<noteq> Some today \<and> wall_seconds (today_target now t) \<le> wall_seconds now")
  case True
  with assms(1,2) have a: "announce_entry inp config i e (Slot i (dt_date now))
      (\<lambda>st. st\<lparr>as_fired := (as_fired st)(i \<mapsto> dt_date now)\<rparr>) st = Inr st'"
    by (simp add: fire_entry_def slot_due_now_def now_def)
  obtain cursor m sent ok where c: "m \<noteq> []" "m \<in> message_pool config e"
      "dispatch_announcement (fst (ai_call inp i)) (snd (ai_call inp i)) config m = (sent, Inr ok)"
      "st' = (let s = st\<lparr>as_cursor := cursor, as_calls := as_calls st @ [Slot i (dt_date now) m sent ok]\<rparr>
              in if ok then s\<lparr>as_fired := (as_fired s)(i \<mapsto> dt_date now)\<rparr> else s)"
    using announce_entry_said [OF a assms(3)] .
  from True c show thesis by (intro fire [of m sent ok cursor]) (simp_all add: Let_def)
next
  case False
  with assms(1,2) have "st' = st" by (auto simp: fire_entry_def slot_due_now_def now_def)
  with False show thesis by (intro wait) auto
qed

lemma fire_every:
  assumes "fire_entry inp config today (i, e) st = Inr st'" "se_trigger e = Every n" "ann_valid config"
  obtains (wait) "st' = st" "\<And>d. as_deadlines st i = Some d \<Longrightarrow> ai_mono3 inp < d"
  | (fire) cursor m sent ok d where "as_deadlines st i = Some d" "d \<le> ai_mono3 inp"
      "m \<in> message_pool config e"
      "dispatch_announcement (fst (ai_call inp i)) (snd (ai_call inp i)) config m = (sent, Inr ok)"
      "st' = st\<lparr>as_deadlines := (as_deadlines st)(i \<mapsto> ai_mono3 inp + of_int n),
               as_cursor := cursor, as_calls := as_calls st @ [Periodic i (ai_mono3 inp) m sent ok]\<rparr>" "m \<noteq> []"
proof (cases "\<exists>d. as_deadlines st i = Some d \<and> d \<le> ai_mono3 inp")
  case True
  then obtain d where d: "as_deadlines st i = Some d" "d \<le> ai_mono3 inp" by blast
  with assms(1,2) have a: "announce_entry inp config i e (Periodic i (ai_mono3 inp)) (\<lambda>st. st)
      (st\<lparr>as_deadlines := (as_deadlines st)(i \<mapsto> ai_mono3 inp + of_int n)\<rparr>) = Inr st'"
    by (auto simp: fire_entry_def float_of_int_def split: if_splits)
  obtain cursor m sent ok where c: "m \<noteq> []" "m \<in> message_pool config e"
      "dispatch_announcement (fst (ai_call inp i)) (snd (ai_call inp i)) config m = (sent, Inr ok)"
      "st' = (let s = (st\<lparr>as_deadlines := (as_deadlines st)(i \<mapsto> ai_mono3 inp + of_int n)\<rparr>)
                 \<lparr>as_cursor := cursor, as_calls := as_calls (st\<lparr>as_deadlines := (as_deadlines st)(i \<mapsto> ai_mono3 inp + of_int n)\<rparr>)
                    @ [Periodic i (ai_mono3 inp) m sent ok]\<rparr> in if ok then s else s)"
    using announce_entry_said [OF a assms(3)] .
  with d show thesis by (intro fire [of d m sent ok cursor]) (simp_all add: Let_def)
next
  case False
  with assms(1,2) have "st' = st" by (auto simp: fire_entry_def split: option.splits if_splits)
  with False show thesis by (intro wait) auto
qed

lemma fire_fixed:
  assumes "fire_entry inp config today ie st = Inr st'" "ann_valid config"
  shows "as_mode st' = as_mode st \<and> as_exit st' = as_exit st"
proof (cases "se_trigger (snd ie)")
  case (Daily t)
  from assms(1) have "fire_entry inp config today (fst ie, snd ie) st = Inr st'" by simp
  from this Daily assms(2) show ?thesis by (cases rule: fire_daily) simp_all
next
  case (Every n)
  from assms(1) have "fire_entry inp config today (fst ie, snd ie) st = Inr st'" by simp
  from this Every assms(2) show ?thesis by (cases rule: fire_every) simp_all
qed

subsection \<open>One pass\<close>

definition daily_slot :: "call \<Rightarrow> nat \<Rightarrow> date option" where
  "daily_slot c i = (case c of Slot j d m s ok \<Rightarrow> if j = i \<and> ok then Some d else None | _ \<Rightarrow> None)"

definition slot_days :: "nat \<Rightarrow> call list \<Rightarrow> date list" where
  "slot_days i cs = List.map_filter (\<lambda>c. daily_slot c i) cs"

definition periodic_time :: "call \<Rightarrow> nat \<Rightarrow> rat option" where
  "periodic_time c i = (case c of Periodic j t m s ok \<Rightarrow> if j = i then Some t else None | _ \<Rightarrow> None)"

definition periodic_times :: "nat \<Rightarrow> call list \<Rightarrow> rat list" where
  "periodic_times i cs = List.map_filter (\<lambda>c. periodic_time c i) cs"

lemma days_times_snoc [simp]:
  "slot_days i (cs @ [Slot j d m s ok]) = slot_days i cs @ (if j = i \<and> ok then [d] else [])"
  "slot_days i (cs @ [Periodic j t m s ok]) = slot_days i cs"
  "periodic_times i (cs @ [Slot j d m s ok]) = periodic_times i cs"
  "periodic_times i (cs @ [Periodic j t m s ok]) = periodic_times i cs @ (if j = i then [t] else [])"
  by (simp_all add: slot_days_def periodic_times_def map_filter_snoc daily_slot_def periodic_time_def)

text \<open>What the loop keeps for the entry \<open>i\<close>.\<close>

definition view :: "nat \<Rightarrow> ann_state \<Rightarrow> date option \<times> rat option \<times> date list \<times> rat list" where
  "view i st = (as_fired st i, as_deadlines st i, slot_days i (as_calls st), periodic_times i (as_calls st))"

lemma fire_other:
  assumes "fire_entry inp config today (j, e) st = Inr st'" "ann_valid config" "j \<noteq> i"
  shows "view i st' = view i st"
proof (cases "se_trigger e")
  case (Daily t)
  from assms(1) Daily assms(2) show ?thesis by (cases rule: fire_daily) (use assms(3) in \<open>auto simp: view_def\<close>)
next
  case (Every n)
  from assms(1) Every assms(2) show ?thesis by (cases rule: fire_every) (use assms(3) in \<open>auto simp: view_def\<close>)
qed

lemma add_deadlines_get:
  assumes "foldR (missing_deadline now) (enumerate k es) ds = Inr ds'"
  shows "ds' i = (case ds i of Some d \<Rightarrow> Some d
    | None \<Rightarrow> if k \<le> i \<and> i - k < length es \<and> every_entry (es ! (i - k))
              then (case se_trigger (es ! (i - k)) of Every n \<Rightarrow> Some (now + of_int n) | Daily _ \<Rightarrow> None) else None)"
  using assms
proof (induction es arbitrary: k ds)
  case Nil
  then show ?case by (auto split: option.splits)
next
  case (Cons e es)
  then obtain d1 where d1: "missing_deadline now (k, e) ds = Inr d1" "foldR (missing_deadline now) (enumerate (Suc k) es) d1 = Inr ds'"
    by (auto simp: bindR_eq_Inr)
  have d1_i: "d1 i = (case ds i of Some d \<Rightarrow> Some d | None \<Rightarrow> if i = k then
      (case se_trigger e of Every n \<Rightarrow> Some (now + of_int n) | Daily _ \<Rightarrow> None) else None)"
    using d1(1) by (auto simp: missing_deadline_def add_deadline_def float_of_int_def bindR_eq_Inr
        split: if_splits trigger.splits option.splits)
  have n: "(e # es) ! (i - k) = es ! (i - Suc k)" "i - k = Suc (i - Suc k)" if "Suc k \<le> i"
    using that by (simp_all add: nth_Cons')
  consider "i < k" | "i = k" | "Suc k \<le> i" by linarith
  then show ?case
  proof cases
    case 3
    with n Cons.IH [OF d1(2)] d1_i show ?thesis by (auto split: option.splits)
  qed (use Cons.IH [OF d1(2)] d1_i in \<open>auto simp: every_entry_def split: option.splits trigger.splits\<close>)
qed

text \<open>Reconciling keeps the marker of a daily entry and the deadline of a periodic one.\<close>

lemma reconcile_view:
  assumes "reconcile now schedule st = Inr st'" "i < length schedule"
  shows "as_mode st' = as_mode st" "as_exit st' = as_exit st" "as_calls st' = as_calls st"
    and "se_trigger (schedule ! i) = Daily t \<Longrightarrow> as_fired st' i = as_fired st i"
    and "se_trigger (schedule ! i) = Every n \<Longrightarrow> as_deadlines st' i =
      (case as_deadlines st i of Some d \<Rightarrow> Some d | None \<Rightarrow> Some (now + of_int n))"
  using assms add_deadlines_get [of now 0 schedule "as_deadlines st" _ i]
  by (auto simp: reconcile_def bindR_eq_Inr every_entry_def split: option.splits)

lemma schedule_pass_cases:
  assumes "ann_pass inp st = Inr st'" "as_exit st = None" "as_mode st = ScheduleMode"
    and "ann_load_config (ai_env inp) = Inr config" "i < length (ac_schedule config)"
  obtains (stop) "as_exit st' \<noteq> None" "as_calls st' = as_calls st"
  | (fire) st1 where "reconcile (ai_mono inp) (ac_schedule config) st = Inr st1"
      "foldR (fire_entry inp config (dt_date (ac_tz config (ai_today inp)))) (enumerate 0 (ac_schedule config)) st1 = Inr st'"
proof (cases "ai_set inp \<or> \<not> ac_enabled config")
  case True
  with assms(1,2,4) have "st' = st\<lparr>as_exit := Some 0\<rparr>" by (cases "ai_set inp") (simp_all add: ann_pass_def)
  then show thesis by (intro stop) simp_all
next
  case False
  with assms have "schedule_pass inp config st = Inr st'" by (simp add: ann_pass_def)
  moreover have "ac_schedule config \<noteq> []" using assms(5) by auto
  ultimately obtain st1 where st1: "reconcile (ai_mono inp) (ac_schedule config) st = Inr st1"
    "st' = st1\<lparr>as_exit := Some 0\<rparr> \<or>
     foldR (fire_entry inp config (dt_date (ac_tz config (ai_today inp)))) (enumerate 0 (ac_schedule config)) st1 = Inr st'"
    by (auto simp: schedule_pass_def bindR_eq_Inr Let_def split: if_splits)
  with reconcile_view [OF st1(1) assms(5)] stop fire show thesis by auto
qed

lemma pass_mode:
  assumes "foldR (fire_entry inp config today) ies st = Inr st'" "ann_valid config"
  shows "as_mode st' = as_mode st \<and> as_exit st' = as_exit st"
  by (rule foldR_invariant [where P = "\<lambda>s. as_mode s = as_mode st \<and> as_exit s = as_exit st", OF _ _ assms(1)])
    (use fire_fixed [OF _ assms(2)] in auto)

text \<open>The effect of a pass on the entry \<open>i\<close>: nothing happens to it but its own turn.\<close>

lemma pass_entry:
  assumes "foldR (fire_entry inp config today) (enumerate 0 (ac_schedule config)) st = Inr st'"
    and "ann_valid config" "i < length (ac_schedule config)"
  obtains t t' where "view i t = view i st" "fire_entry inp config today (i, ac_schedule config ! i) t = Inr t'"
    "view i st' = view i t'"
proof -
  have others: "view i t' = view i t" if "j \<noteq> i" "fire_entry inp config today (j, e) t = Inr t'" for j e t t'
    using fire_other [OF that(2) assms(2) that(1)] .
  obtain t t' where "view i t = view i st" "fire_entry inp config today (i, ac_schedule config ! i) t = Inr t'"
    "view i st' = view i t'"
    using foldR_at [OF assms(1,3), of "view i", OF others] .
  then show thesis by (rule that)
qed

subsection \<open>One announcement per slot and day\<close>

lemma exited: "as_exit st \<noteq> None \<Longrightarrow> foldR ann_pass inps st = Inr st' \<Longrightarrow> st' = st"
  by (induction inps) (auto simp: ann_pass_def)

text \<open>
  The passes of a run in which the entry \<open>i\<close> stays a daily slot and the dates its zone shows do not run
  backwards: neither from the computation of the sleep to the firing nor from pass to pass.
\<close>

definition pass_day :: "ann_input \<Rightarrow> ann_config \<Rightarrow> date" where
  "pass_day inp config = dt_date (ac_tz config (ai_today inp))"

definition fire_day :: "nat \<Rightarrow> ann_input \<Rightarrow> ann_config \<Rightarrow> date" where
  "fire_day i inp config = dt_date (ac_tz config (ai_fire inp i))"

fun days_ascend :: "nat \<Rightarrow> date \<Rightarrow> ann_input list \<Rightarrow> bool" where
  "days_ascend i d [] = True"
| "days_ascend i d (inp # inps) =
     (case ann_load_config (ai_env inp) of
        Inl _ \<Rightarrow> True
      | Inr config \<Rightarrow>
          i < length (ac_schedule config) \<and> \<not> every_entry (ac_schedule config ! i) \<and>
          d \<le> pass_day inp config \<and> pass_day inp config \<le> fire_day i inp config \<and>
          days_ascend i (fire_day i inp config) inps)"

definition slot_inv :: "nat \<Rightarrow> date \<Rightarrow> ann_state \<Rightarrow> bool" where
  "slot_inv i d st \<longleftrightarrow>
     as_mode st = ScheduleMode \<and> sorted_wrt (<) (slot_days i (as_calls st)) \<and>
     (\<forall>x \<in> set (slot_days i (as_calls st)). x \<le> d) \<and>
     (slot_days i (as_calls st) \<noteq> [] \<longrightarrow> as_fired st i = Some (last (slot_days i (as_calls st))))"

lemma sorted_le_last: "sorted_wrt (<) xs \<Longrightarrow> x \<in> set xs \<Longrightarrow> x \<le> last (xs :: 'a::linorder list)"
  by (induction xs rule: rev_induct) (auto simp: sorted_wrt_append intro: less_imp_le)

lemma slot_step:
  assumes "ann_pass inp st = Inr st'" "as_exit st = None" "slot_inv i d st"
    and c: "ann_load_config (ai_env inp) = Inr config" "i < length (ac_schedule config)"
    and t: "se_trigger (ac_schedule config ! i) = Daily t"
    and days: "d \<le> pass_day inp config" "pass_day inp config \<le> fire_day i inp config"
  shows "slot_days i (as_calls st') \<noteq> slot_days i (as_calls st) \<Longrightarrow>
      slot_days i (as_calls st') = slot_days i (as_calls st) @ [fire_day i inp config]"
    and "as_exit st' = None \<Longrightarrow> slot_inv i (fire_day i inp config) st'"
    and "sorted_wrt (<) (slot_days i (as_calls st'))"
proof -
  let ?days = "slot_days i (as_calls st)" and ?today = "pass_day inp config" and ?fd = "fire_day i inp config"
  note inv = assms(3) [unfolded slot_inv_def]
  have "(slot_days i (as_calls st') \<noteq> ?days \<longrightarrow> slot_days i (as_calls st') = ?days @ [?fd]) \<and>
    (as_exit st' = None \<longrightarrow> slot_inv i ?fd st') \<and> sorted_wrt (<) (slot_days i (as_calls st'))"
    using assms(1,2) conjunct1 [OF inv] c
  proof (cases rule: schedule_pass_cases)
    case stop
    with inv show ?thesis by auto
  next
    case (fire st1)
    note r = reconcile_view [OF fire(1) c(2)]
    note pm = pass_mode [OF fire(2) ann_load_config_valid [OF c(1)]]
    obtain s s' where s: "view i s = view i st1" "fire_entry inp config ?today (i, ac_schedule config ! i) s = Inr s'"
      "view i st' = view i s'"
      using pass_entry [OF fire(2) ann_load_config_valid [OF c(1)] c(2)] unfolding pass_day_def .
    have s_inv: "slot_days i (as_calls s) = ?days" "as_fired s i = as_fired st i"
      using s(1) r(3) r(4) [OF t] by (simp_all add: view_def)
    have le: "\<forall>x \<in> set ?days. x \<le> ?fd" using inv days by (meson order_trans)
    from s(2) t ann_load_config_valid [OF c(1)] show ?thesis
    proof (cases rule: fire_daily)
      case wait
      with s s_inv inv le pm r(1) show ?thesis by (simp add: view_def slot_inv_def)
    next
      case (fire cursor m sent ok)
      have less: "\<forall>x \<in> set ?days. x < ?fd"
      proof (cases "?days = []")
        case False
        then have "as_fired st i = Some (last ?days)" "last ?days \<in> set ?days" using inv by simp_all
        with fire(1) s_inv have "last ?days < ?today" using inv days by (metis le_less le_less_trans)
        moreover have "\<forall>x \<in> set ?days. x \<le> last ?days"
          using inv sorted_le_last by blast
        ultimately show ?thesis using days by (meson le_less_trans less_le_trans)
      qed simp
      from fire(5) s s_inv have st': "slot_days i (as_calls st') = ?days @ (if ok then [?fd] else [])"
        "as_fired st' i = (if ok then Some ?fd else as_fired st i)"
        by (auto simp: view_def fire_day_def)
      with inv le less pm r(1) show ?thesis by (auto simp: slot_inv_def sorted_wrt_append)
    qed
  qed
  then show "slot_days i (as_calls st') \<noteq> ?days \<Longrightarrow> slot_days i (as_calls st') = ?days @ [?fd]"
    "as_exit st' = None \<Longrightarrow> slot_inv i ?fd st'" "sorted_wrt (<) (slot_days i (as_calls st'))" by auto
qed

lemma daily_entry: "\<not> every_entry e \<Longrightarrow> \<exists>t. se_trigger e = Daily t"
  by (auto simp: every_entry_def split: trigger.splits)

lemma slot_run:
  assumes "slot_inv i d st" "days_ascend i d inputs" "foldR ann_pass inputs st = Inr st'"
  shows "sorted_wrt (<) (slot_days i (as_calls st')) \<and>
    (\<exists>ds. slot_days i (as_calls st') = slot_days i (as_calls st) @ ds \<and> (\<forall>x \<in> set ds. d \<le> x))"
  using assms
proof (induction inputs arbitrary: d st)
  case Nil
  then show ?case by (simp add: slot_inv_def)
next
  case (Cons inp inputs)
  show ?case
  proof (cases "as_exit st = None")
    case False
    from exited [OF False Cons.prems(3)] Cons.prems(1) show ?thesis by (simp add: slot_inv_def)
  next
    case True
    obtain s where s: "ann_pass inp st = Inr s" "foldR ann_pass inputs s = Inr st'"
      using Cons.prems(3) by (auto simp: bindR_eq_Inr)
    show ?thesis
    proof (cases "ann_load_config (ai_env inp)")
      case (Inl e)
      with s(1) True have "s = st\<lparr>as_exit := Some 0\<rparr>" by (auto simp: ann_pass_def split: if_splits)
      with exited [OF _ s(2)] Cons.prems(1) show ?thesis by (auto simp: slot_inv_def)
    next
      case (Inr config)
      with Cons.prems(2) obtain t where
        c: "i < length (ac_schedule config)" "se_trigger (ac_schedule config ! i) = Daily t"
        and d: "d \<le> pass_day inp config" "pass_day inp config \<le> fire_day i inp config"
        "days_ascend i (fire_day i inp config) inputs"
        by (auto dest: daily_entry)
      note step = slot_step [OF s(1) True Cons.prems(1) Inr c d(1,2)]
      have app: "\<exists>ds. slot_days i (as_calls s) = slot_days i (as_calls st) @ ds \<and> (\<forall>x \<in> set ds. d \<le> x)"
        using step(1) order_trans [OF d(1,2)]
        by (cases "slot_days i (as_calls s) = slot_days i (as_calls st)") auto
      show ?thesis
      proof (cases "as_exit s = None")
        case True
        from Cons.IH [OF step(2) [OF True] d(3) s(2)] obtain ds where
          ds: "sorted_wrt (<) (slot_days i (as_calls st'))" "slot_days i (as_calls st') = slot_days i (as_calls s) @ ds"
          "\<forall>x \<in> set ds. fire_day i inp config \<le> x" by blast
        from app obtain ds1 where "slot_days i (as_calls s) = slot_days i (as_calls st) @ ds1" "\<forall>x \<in> set ds1. d \<le> x"
          by blast
        with ds order_trans [OF d(1,2)] show ?thesis by (auto intro!: exI [of _ "ds1 @ ds"] intro: order_trans)
      next
        case False
        with exited [OF False s(2)] step(3) app show ?thesis by simp
      qed
    qed
  qed
qed

lemma schedule_start_state:
  assumes "schedule_start base schedule worker_init = Inr st"
  shows "as_mode st = ScheduleMode" "as_calls st = []" "as_exit st = None"
  using assms by (auto simp: schedule_start_def worker_init_def bindR_eq_Inr)

text \<open>
  C4.  Each daily slot is announced at most once per day: in a run of the scheduled loop in which the
  entry stays a daily slot and the dates do not run backwards, the days of its successful
  announcements are strictly increasing.  The server's answers, failed announcements, restarts of the
  clock within a day and all other entries are arbitrary.
\<close>

theorem ann_daily_once:
  assumes "schedule_start base schedule worker_init = Inr st0"
    and "days_ascend i d inputs" "foldR ann_pass inputs st0 = Inr st"
  shows "sorted_wrt (<) (slot_days i (as_calls st))"
proof -
  have "slot_inv i d st0"
    using schedule_start_state [OF assms(1)] by (simp add: slot_inv_def slot_days_def List.map_filter_simps)
  from slot_run [OF this assms(2,3)] show ?thesis by simp
qed

text \<open>
  A daily slot can be lost: when a pass that computed its sleep on one day only gets to the firing
  after midnight, the slot of the first day is never announced, because the firing compares the clock
  with the slot of the new day.
\<close>

theorem ann_slot_missed:
  assumes "schedule_start base schedule worker_init = Inr st0"
    and "ann_load_config (ai_env inp) = Inr config" "pass_day inp config < fire_day i inp config"
    and "days_ascend i d (inp # inps)" "foldR ann_pass (inp # inps) st0 = Inr st"
  shows "pass_day inp config \<notin> set (slot_days i (as_calls st))"
proof -
  have start: "slot_inv i d st0" "slot_days i (as_calls st0) = []" "as_exit st0 = None"
    using schedule_start_state [OF assms(1)] by (simp_all add: slot_inv_def slot_days_def List.map_filter_simps)
  obtain s where s: "ann_pass inp st0 = Inr s" "foldR ann_pass inps s = Inr st"
    using assms(5) by (auto simp: bindR_eq_Inr)
  from assms(2,4) obtain t where
    c: "i < length (ac_schedule config)" "se_trigger (ac_schedule config ! i) = Daily t"
    and d: "d \<le> pass_day inp config" "pass_day inp config \<le> fire_day i inp config" "days_ascend i (fire_day i inp config) inps"
    by (auto dest: daily_entry)
  note step = slot_step [OF s(1) start(3,1) assms(2) c d(1,2)]
  have first: "pass_day inp config \<notin> set (slot_days i (as_calls s))"
    using step(1) start(2) assms(3) by (cases "slot_days i (as_calls s) = []") auto
  show ?thesis
  proof (cases "as_exit s = None")
    case True
    from slot_run [OF step(2) [OF True] d(3) s(2)] first assms(3) show ?thesis by (auto simp: not_le [symmetric])
  next
    case False
    with exited [OF False s(2)] first show ?thesis by simp
  qed
qed

text \<open>
  A pass in which the daily slot \<open>i\<close> is due on the day \<open>d\<close>, from the beginning of the pass to the firing, and a pass
  whose announcement for it succeeds: there is a password, the port and the timeout are usable, and the server
  does not reject the password.
\<close>

definition slot_due_pass :: "nat \<Rightarrow> date \<Rightarrow> ann_input \<Rightarrow> bool" where
  "slot_due_pass i d inp \<longleftrightarrow>
     (case ann_load_config (ai_env inp) of
        Inl _ \<Rightarrow> False
      | Inr config \<Rightarrow> i < length (ac_schedule config) \<and> pass_day inp config = d \<and> fire_day i inp config = d \<and>
          (case se_trigger (ac_schedule config ! i) of
             Every _ \<Rightarrow> False
           | Daily t \<Rightarrow> tod_seconds t \<le> day_seconds (ac_tz config (ai_fire inp i))))"

definition slot_delivers :: "nat \<Rightarrow> ann_input \<Rightarrow> bool" where
  "slot_delivers i inp \<longleftrightarrow>
     (case ann_load_config (ai_env inp) of
        Inl _ \<Rightarrow> False
      | Inr config \<Rightarrow> (\<exists>pw port. rcon_ready (fst (ai_call inp i)) config pw port) \<and> net_accepts (snd (ai_call inp i)))"

lemma due_pass:
  assumes "ann_pass inp st = Inr st'" "as_exit st = None" "as_mode st = ScheduleMode" "as_exit st' = None"
    and "slot_due_pass i d inp"
  shows "as_mode st' = ScheduleMode \<and>
    slot_days i (as_calls st') = slot_days i (as_calls st) @
      (if as_fired st i \<noteq> Some d \<and> slot_delivers i inp then [d] else []) \<and>
    (as_fired st' i = Some d \<longleftrightarrow> as_fired st i = Some d \<or> slot_delivers i inp)"
proof -
  from assms(5) obtain config t where c: "ann_load_config (ai_env inp) = Inr config" "i < length (ac_schedule config)"
    "se_trigger (ac_schedule config ! i) = Daily t" "pass_day inp config = d" "fire_day i inp config = d"
    "tod_seconds t \<le> day_seconds (ac_tz config (ai_fire inp i))"
    by (auto simp: slot_due_pass_def split: sum.splits trigger.splits)
  from assms(1,2,3) c(1,2) show ?thesis
  proof (cases rule: schedule_pass_cases)
    case stop
    with assms(4) show ?thesis by simp
  next
    case (fire st1)
    note v = ann_load_config_valid [OF c(1)] and r = reconcile_view [OF fire(1) c(2)]
    have mode: "as_mode st' = ScheduleMode" using pass_mode [OF fire(2) v] r(1) assms(3) by simp
    obtain s s' where s: "view i s = view i st1"
      "fire_entry inp config (pass_day inp config) (i, ac_schedule config ! i) s = Inr s'" "view i st' = view i s'"
      using pass_entry [OF fire(2) v c(2)] unfolding pass_day_def .
    have st: "slot_days i (as_calls s) = slot_days i (as_calls st)" "as_fired s i = as_fired st i"
      using s(1) r(3) r(4) [OF c(3)] by (simp_all add: view_def)
    have due: "\<not> wall_seconds (ac_tz config (ai_fire inp i)) < wall_seconds (today_target (ac_tz config (ai_fire inp i)) t)"
      using c(6) by (simp add: wall_seconds_eq)
    from s(2) c(3) v show ?thesis
    proof (cases rule: fire_daily)
      case wait
      with due c(4) s st mode show ?thesis by (auto simp: view_def)
    next
      case (fire cursor m sent ok)
      have "ok = slot_delivers i inp" using dispatch_ok_iff [OF fire(4)] by (simp add: slot_delivers_def c(1))
      with fire(1,5) s st c(4,5) mode show ?thesis by (simp add: view_def fire_day_def)
    qed
  qed
qed

text \<open>
  C7.  A due daily slot is tried again until it is announced, and then not again: in any run of passes of the
  scheduled loop in which the slot is due on one day and the worker does not end, the slot is announced for that day
  exactly once if it was not announced before and some pass delivers (there is a password, port and timeout are
  usable, the exchange with the server does not fail and the password is not rejected), and otherwise not at all;
  afterwards it carries the mark of the day exactly if it has been announced.
\<close>

theorem ann_daily_fires:
  assumes "foldR ann_pass inps st = Inr st'" "as_exit st = None" "as_mode st = ScheduleMode" "as_exit st' = None"
    and "\<forall>inp \<in> set inps. slot_due_pass i d inp"
  shows "slot_days i (as_calls st') = slot_days i (as_calls st) @
      (if as_fired st i \<noteq> Some d \<and> (\<exists>inp \<in> set inps. slot_delivers i inp) then [d] else []) \<and>
    (as_fired st' i = Some d \<longleftrightarrow> as_fired st i = Some d \<or> (\<exists>inp \<in> set inps. slot_delivers i inp))"
  using assms
proof (induction inps arbitrary: st)
  case (Cons inp inps)
  then obtain st1 where st1: "ann_pass inp st = Inr st1" "foldR ann_pass inps st1 = Inr st'" by (auto simp: bindR_eq_Inr)
  have "as_exit st1 = None" by (rule ccontr) (use exited [OF _ st1(2)] Cons.prems(4) in auto)
  with due_pass [OF st1(1) Cons.prems(2,3)] Cons.prems(5) Cons.IH [OF st1(2)] Cons.prems(4) show ?case by auto
qed simp

subsection \<open>The spacing of periodic entries\<close>

definition every_at :: "nat \<Rightarrow> int \<Rightarrow> ann_input \<Rightarrow> bool" where
  "every_at i n inp \<longleftrightarrow>
     (case ann_load_config (ai_env inp) of
        Inl _ \<Rightarrow> True
      | Inr config \<Rightarrow> i < length (ac_schedule config) \<and> se_trigger (ac_schedule config ! i) = Every n)"

definition periodic_inv :: "nat \<Rightarrow> int \<Rightarrow> rat \<Rightarrow> ann_state \<Rightarrow> bool" where
  "periodic_inv i n base st \<longleftrightarrow>
     successively (\<lambda>a b. a + of_int n \<le> b) (base # periodic_times i (as_calls st)) \<and>
     (as_exit st = None \<longrightarrow> as_mode st = ScheduleMode \<and>
        as_deadlines st i = Some (last (base # periodic_times i (as_calls st)) + of_int n))"

lemma successively_snoc:
  "xs \<noteq> [] \<Longrightarrow> successively P (xs @ [x]) \<longleftrightarrow> successively P xs \<and> P (last xs) x"
  by (simp add: successively_append_iff)

lemma periodic_step:
  assumes "ann_pass inp st = Inr st'" "periodic_inv i n base st" "every_at i n inp"
  shows "periodic_inv i n base st'"
proof (cases "as_exit st = None")
  case False
  with assms(1) have "st' = st" by (auto simp: ann_pass_def)
  with assms(2) show ?thesis by simp
next
  case True
  note inv = assms(2) [unfolded periodic_inv_def]
  show ?thesis
  proof (cases "ann_load_config (ai_env inp)")
    case (Inl e)
    with assms(1) True have "st' = st\<lparr>as_exit := Some 0\<rparr>" by (auto simp: ann_pass_def split: if_splits)
    with assms(2) show ?thesis by (simp add: periodic_inv_def)
  next
    case (Inr config)
    with assms(3) have c: "i < length (ac_schedule config)" "se_trigger (ac_schedule config ! i) = Every n"
      by (simp_all add: every_at_def)
    from inv True have mode: "as_mode st = ScheduleMode" by simp
    from assms(1) True mode Inr c(1) show ?thesis
    proof (cases rule: schedule_pass_cases)
      case stop
      with inv show ?thesis by (auto simp: periodic_inv_def)
    next
      case (fire st1)
      note v = ann_load_config_valid [OF Inr] and r = reconcile_view [OF fire(1) c(1)]
      note pm = pass_mode [OF fire(2) v]
      obtain s s' where s: "view i s = view i st1"
        "fire_entry inp config (dt_date (ac_tz config (ai_today inp))) (i, ac_schedule config ! i) s = Inr s'"
        "view i st' = view i s'"
        using pass_entry [OF fire(2) v c(1)] .
      have st: "periodic_times i (as_calls s) = periodic_times i (as_calls st)"
        "as_deadlines s i = Some (last (base # periodic_times i (as_calls st)) + of_int n)"
        using s(1) r(3) r(5) [OF c(2)] inv True by (simp_all add: view_def)
      from s(2) c(2) v show ?thesis
      proof (cases rule: fire_every)
        case wait
        with s(3) st inv pm r(1) True show ?thesis by (simp add: periodic_inv_def view_def)
      next
        case (fire cursor m sent ok d)
        have new: "periodic_times i (as_calls st') = periodic_times i (as_calls st) @ [ai_mono3 inp]"
          "as_deadlines st' i = Some (ai_mono3 inp + of_int n)"
          using fire(5) s(3) st by (simp_all add: view_def)
        have "successively (\<lambda>a b. a + of_int n \<le> b) ((base # periodic_times i (as_calls st)) @ [ai_mono3 inp])"
          using inv fire(1,2) st(2) by (subst successively_snoc) simp_all
        with new pm r(1) inv True show ?thesis by (simp add: periodic_inv_def)
      qed
    qed
  qed
qed

lemma start_deadline:
  assumes "schedule_start base schedule worker_init = Inr st" "i < length schedule" "se_trigger (schedule ! i) = Every n"
  shows "as_deadlines st i = Some (base + of_int n)"
proof -
  have gen: "ds' i = Some (base + of_int n)"
    if "foldR (add_deadline base) (enumerate k es) ds = Inr ds'" "k \<le> i" "i - k < length es"
      "se_trigger (es ! (i - k)) = Every n" for k es ds ds'
    using that
  proof (induction es arbitrary: k ds)
    case (Cons e es)
    then obtain d1 where d1: "add_deadline base (k, e) ds = Inr d1" "foldR (add_deadline base) (enumerate (Suc k) es) d1 = Inr ds'"
      by (auto simp: bindR_eq_Inr)
    show ?case
    proof (cases "i = k")
      case True
      have keep: "b i = a i" if "foldR (add_deadline base) (enumerate l xs) a = Inr b" "i < l" for l xs a b
        using that
        by (induction xs arbitrary: l a)
          (force simp: bindR_eq_Inr add_deadline_def split: trigger.splits)+
      from True d1(1) Cons.prems(4) have "d1 i = Some (base + of_int n)"
        by (auto simp: add_deadline_def float_of_int_def bindR_eq_Inr split: if_splits)
      with keep [OF d1(2)] True show ?thesis by simp
    next
      case False
      with Cons.prems have "Suc k \<le> i" "i - Suc k < length es" "se_trigger (es ! (i - Suc k)) = Every n"
        by (auto simp: nth_Cons')
      from Cons.IH [OF d1(2) this] show ?thesis .
    qed
  qed simp
  obtain ds where ds: "foldR (add_deadline base) (enumerate 0 schedule) (\<lambda>_. None) = Inr ds" "as_deadlines st = ds"
    using assms(1) by (auto simp: schedule_start_def bindR_eq_Inr)
  from gen [OF ds(1)] assms(2,3) ds(2) show ?thesis by simp
qed

text \<open>
  C8.  A periodic entry keeps its distance: while the entry stays at its place with a period of n seconds,
  its first announcement comes at least n seconds after the loop started, and two successive
  announcements are at least n seconds apart on the monotonic clock, however long the passes take.
\<close>

theorem ann_periodic_spaced:
  assumes "schedule_start base schedule worker_init = Inr st0"
    and "i < length schedule" "se_trigger (schedule ! i) = Every n"
    and "list_all (every_at i n) inputs" "foldR ann_pass inputs st0 = Inr st"
  shows "successively (\<lambda>a b. a + of_int n \<le> b) (base # periodic_times i (as_calls st))"
proof -
  have "periodic_inv i n base st0"
    using schedule_start_state [OF assms(1)] start_deadline [OF assms(1-3)]
    by (simp add: periodic_inv_def periodic_times_def List.map_filter_simps)
  then have "periodic_inv i n base st"
    by (rule foldR_invariant [where P = "periodic_inv i n base", OF _ _ assms(5), rotated])
      (use assms(4) periodic_step in \<open>auto simp: list_all_iff\<close>)
  then show ?thesis by (simp add: periodic_inv_def)
qed

end
