(* ===== verification/Announcer_Demo.thy ===== *)
theory Announcer_Demo
  imports Announcer_Slots
begin

section \<open>\<open>announcer.py\<close>: concrete runs\<close>

text \<open>
  Runs of the two loops on a concrete configuration (a daily slot at 7:30, an entry of 60 seconds,
  the messages of the sample), at which the guarantees are applied.
\<close>

definition sample_pass :: "rat \<Rightarrow> rat \<Rightarrow> ann_input" where
  "sample_pass w t =
     \<lparr>ai_set = False, ai_env = ann_sample_env, ai_base = 0, ai_mono = w, ai_mono2 = w, ai_today = w,
      ai_wall = (\<lambda>_. w), ai_stop = False, ai_stop2 = False, ai_mono3 = t, ai_fire = (\<lambda>_. t),
      ai_call = (\<lambda>_. (ann_sample_os, TimesOut))\<rparr>"

lemma sample_pass_fields [simp]:
  "ai_set (sample_pass w t) = False" "ai_env (sample_pass w t) = ann_sample_env" "ai_mono (sample_pass w t) = w"
  "ai_mono2 (sample_pass w t) = w" "ai_today (sample_pass w t) = w" "ai_wall (sample_pass w t) i = w"
  "ai_stop (sample_pass w t) = False" "ai_stop2 (sample_pass w t) = False" "ai_mono3 (sample_pass w t) = t"
  "ai_fire (sample_pass w t) i = t" "ai_call (sample_pass w t) i = (ann_sample_os, TimesOut)"
  by (simp_all add: sample_pass_def)

lemma sample_config_fields [simp]:
  "ac_schedule ann_sample_config = [\<lparr>se_trigger = Daily (Tod 7 30 0), se_message = None\<rparr>,
     \<lparr>se_trigger = Every 60, se_message = Some ''hi''\<rparr>]"
  "ac_tz ann_sample_config = sample_clock" "ac_enabled ann_sample_config = True"
  "ac_messages ann_sample_config = [''hello'']"
  by (simp_all add: ann_sample_config_def)

lemma sample_dispatch [simp]:
  "dispatch_announcement ann_sample_os TimesOut ann_sample_config m =
     ([announcement_datagram ann_sample_config 29070 ''pw'' m], Inr True)"
  by (simp add: dispatch_ready [OF ann_sample_ready])

lemma sample_clock_ok: "clock_ok (sample_clock t)"
proof -
  define s where "s = \<lfloor>t\<rfloor>"
  have m: "0 \<le> s mod k" "s mod k \<le> k - 1" if "0 < k" for k :: int
    using pos_mod_bound [OF that, of s] pos_mod_sign [OF that, of s] by simp_all
  have "s mod 86400 div 3600 \<le> 86399 div 3600" "s mod 3600 div 60 \<le> 3599 div 60"
    using m [of 86400] m [of 3600] by (intro zdiv_mono1; simp)+
  moreover have "0 \<le> s mod 86400 div 3600" "0 \<le> s mod 3600 div 60"
    using m [of 86400] m [of 3600] by (simp_all add: pos_imp_zdiv_nonneg_iff)
  moreover note m [of 60]
  ultimately show ?thesis by (simp add: clock_ok_def sample_clock_def s_def [symmetric] Let_def)
qed

definition sample_start :: ann_state where
  "sample_start =
     worker_init\<lparr>as_mode := ScheduleMode, as_deadlines := (\<lambda>_. None)(1 \<mapsto> 60)\<rparr>"

lemma sample_started: "schedule_start 0 (ac_schedule ann_sample_config) worker_init = Inr sample_start"
  by (simp add: schedule_start_def add_deadline_def float_of_int_def sample_start_def worker_init_def)

abbreviation "hello \<equiv> [announcement_datagram ann_sample_config 29070 ''pw'' ''hello'']"
abbreviation "hi \<equiv> [announcement_datagram ann_sample_config 29070 ''pw'' ''hi'']"

text \<open>Two passes: at eight o'clock on the first day, and at the same time on the second.\<close>

lemma sample_pass_run:
  "\<exists>st. foldR ann_pass [sample_pass 28800 28860, sample_pass 115200 115260] sample_start = Inr st \<and>
     as_calls st = [Slot 0 (Date 2024 1 1) ''hello'' hello True, Periodic 1 28860 ''hi'' hi True,
                    Slot 0 (Date 2024 1 2) ''hello'' hello True, Periodic 1 115260 ''hi'' hi True]"
  by (simp add: ann_pass_def ann_sample_load schedule_pass_def reconcile_def missing_deadline_def every_entry_def
      sample_start_def worker_init_def wakeups_def wakeup_def seconds_until_slot_def wall_seconds_def today_target_def
      sample_clock_def sleep_for_def max_sleep_interval_seconds_def fire_entry_def slot_due_now_def float_of_int_def
      announce_entry_def next_message_def days_before_year_def days_before_month_def add_deadline_def Let_def)

lemma sample_days:
  "days_ascend 0 (Date 2024 1 1) [sample_pass 28800 28860, sample_pass 115200 115260]"
  by (simp add: ann_sample_load every_entry_def pass_day_def fire_day_def sample_clock_def Let_def
      less_eq_date_def less_date_def)

theorem ann_daily_once_witness:
  "\<exists>st. foldR ann_pass [sample_pass 28800 28860, sample_pass 115200 115260] sample_start = Inr st \<and>
     slot_days 0 (as_calls st) = [Date 2024 1 1, Date 2024 1 2] \<and> sorted_wrt (<) (slot_days 0 (as_calls st))"
proof -
  obtain st where st: "foldR ann_pass [sample_pass 28800 28860, sample_pass 115200 115260] sample_start = Inr st"
    "slot_days 0 (as_calls st) = [Date 2024 1 1, Date 2024 1 2]"
    using sample_pass_run by (fastforce simp: slot_days_def daily_slot_def List.map_filter_simps)
  from ann_daily_once [OF sample_started sample_days st(1)] st show ?thesis by blast
qed

theorem ann_periodic_spaced_witness:
  "\<exists>st. foldR ann_pass [sample_pass 28800 28860, sample_pass 115200 115260] sample_start = Inr st \<and>
     successively (\<lambda>a b. a + of_int 60 \<le> b) ((0 :: rat) # periodic_times 1 (as_calls st))"
proof -
  have e: "list_all (every_at 1 60) [sample_pass 28800 28860, sample_pass 115200 115260]"
    by (simp add: every_at_def ann_sample_load)
  obtain st where st: "foldR ann_pass [sample_pass 28800 28860, sample_pass 115200 115260] sample_start = Inr st"
    using sample_pass_run by blast
  from ann_periodic_spaced [OF sample_started _ _ e st] st show ?thesis by simp
qed

text \<open>A pass around midnight, half a minute before and a second after.\<close>

lemma sample_midnight_run:
  "\<exists>st. foldR ann_pass [sample_pass 86370 86401] sample_start = Inr st \<and>
     as_calls st = [Periodic 1 86401 ''hi'' hi True]"
  by (simp add: ann_pass_def ann_sample_load schedule_pass_def reconcile_def missing_deadline_def every_entry_def
      sample_start_def worker_init_def wakeups_def wakeup_def seconds_until_slot_def wall_seconds_def today_target_def
      sample_clock_def sleep_for_def max_sleep_interval_seconds_def fire_entry_def slot_due_now_def float_of_int_def
      announce_entry_def next_message_def days_before_year_def days_before_month_def add_deadline_def Let_def)

theorem ann_slot_missed_witness:
  "\<exists>st. foldR ann_pass [sample_pass 86370 86401] sample_start = Inr st \<and>
     Date 2024 1 1 \<notin> set (slot_days 0 (as_calls st))"
proof -
  obtain st where st: "foldR ann_pass [sample_pass 86370 86401] sample_start = Inr st"
    using sample_midnight_run by blast
  have d: "pass_day (sample_pass 86370 86401) ann_sample_config = Date 2024 1 1"
    "fire_day 0 (sample_pass 86370 86401) ann_sample_config = Date 2024 1 2"
    by (simp_all add: pass_day_def fire_day_def sample_clock_def Let_def)
  have load: "ann_load_config (ai_env (sample_pass 86370 86401)) = Inr ann_sample_config"
    by (simp add: ann_sample_load)
  have "days_ascend 0 (Date 2024 1 1) [sample_pass 86370 86401]"
    by (simp add: ann_sample_load every_entry_def d less_eq_date_def less_date_def)
  from ann_slot_missed [OF sample_started load _ this st] st show ?thesis
    by (simp add: d less_date_def)
qed

theorem ann_daily_fires_witness:
  "\<exists>st. ann_pass (sample_pass 28800 28860) sample_start = Inr st \<and>
     as_fired st 0 = Some (Date 2024 1 1) \<and> slot_days 0 (as_calls st) = [Date 2024 1 1]"
proof -
  obtain st where st: "ann_pass (sample_pass 28800 28860) sample_start = Inr st" "as_exit st = None"
    by (simp add: ann_pass_def ann_sample_load schedule_pass_def reconcile_def missing_deadline_def every_entry_def
      sample_start_def worker_init_def wakeups_def wakeup_def seconds_until_slot_def wall_seconds_def today_target_def
      sample_clock_def sleep_for_def max_sleep_interval_seconds_def fire_entry_def slot_due_now_def float_of_int_def
      announce_entry_def next_message_def days_before_year_def days_before_month_def add_deadline_def Let_def)
  have s0: "as_exit sample_start = None" "as_mode sample_start = ScheduleMode" "as_calls sample_start = []"
    "as_fired sample_start 0 = None"
    by (simp_all add: sample_start_def worker_init_def)
  have d: "pass_day (sample_pass 28800 28860) ann_sample_config = Date 2024 1 1"
    "fire_day 0 (sample_pass 28800 28860) ann_sample_config = Date 2024 1 1"
    by (simp_all add: pass_day_def fire_day_def sample_clock_def Let_def)
  have "tod_seconds (Tod 7 30 0) \<le> day_seconds (ac_tz ann_sample_config (ai_fire (sample_pass 28800 28860) 0))"
    by (simp add: tod_seconds_def day_seconds_def sample_clock_def Let_def)
  then have due: "\<forall>inp \<in> set [sample_pass 28800 28860]. slot_due_pass 0 (Date 2024 1 1) inp"
    by (simp add: slot_due_pass_def ann_sample_load d)
  have delivers: "slot_delivers 0 (sample_pass 28800 28860)"
    using ann_sample_ready by (auto simp: slot_delivers_def ann_sample_load net_accepts_def)
  have "foldR ann_pass [sample_pass 28800 28860] sample_start = Inr st" using st(1) by simp
  from ann_daily_fires [OF this s0(1,2) st(2) due] st(1) delivers show ?thesis
    by (simp add: s0 slot_days_def List.map_filter_simps)
qed

theorem ann_sleep_horizon_witness:
  "wakeups (sample_pass 0 0) ann_sample_config (Date 2024 1 1) sample_start = Inr [27000, 60] \<and>
   sleep_for [27000, 60] \<le> 60 \<and> 0 \<le> sleep_for [27000, 60]"
proof -
  have w: "wakeups (sample_pass 0 0) ann_sample_config (Date 2024 1 1) sample_start = Inr [27000, 60]"
    by (simp add: wakeups_def wakeup_def seconds_until_slot_def wall_seconds_def today_target_def sample_clock_def
        sample_start_def worker_init_def days_before_year_def days_before_month_def Let_def)
  have "ac_schedule ann_sample_config \<noteq> []" by simp
  from ann_sleep_horizon [OF ann_sample_load this _ w] w show ?thesis by (simp add: sample_clock_ok)
qed

subsection \<open>The interval loop\<close>

definition rotation_section :: dict where
  "rotation_section = [(''messages'', JList [JStr ''one'', JStr ''two''])]"

definition rotation_env :: ann_env where
  "rotation_env = ann_sample_env\<lparr>ae_os := (ae_os ann_sample_env)\<lparr>json_loads := (\<lambda>t. Inr (JObj rotation_section))\<rparr>\<rparr>"

definition rotation_pass :: ann_input where
  "rotation_pass = (sample_pass 0 0)\<lparr>ai_env := rotation_env\<rparr>"

definition rotation_config :: ann_config where
  "rotation_config = ann_sample_config\<lparr>ac_interval := 900, ac_schedule := [], ac_messages := [''one'', ''two'']\<rparr>"

lemma rotation_values:
  "loaded_section (ae_os rotation_env) (ann_addons_config_path (ae_os rotation_env)) ''announcer'' =
     Inr (Some rotation_section)"
  "ann_safe_bool (get_default (dict_update ann_default_config rotation_section) ''enabled'' (JBool True)) True = True"
  "ann_safe_int (get_none (dict_update ann_default_config rotation_section) ''startup_delay_seconds'') 60 0 = Inr 60"
  "ann_safe_int (get_none (dict_update ann_default_config rotation_section) ''interval_seconds'') 900 30 = Inr 900"
  "ann_safe_int (get_none (dict_update ann_default_config rotation_section) ''rcon_timeout_seconds'') 3 1 = Inr 3"
  "normalise_announce_command (get_none (dict_update ann_default_config rotation_section) ''announce_command'') = ''svsay''"
  "resolve_sibling_path (ae_script_dir rotation_env)
     (py_str (get_default (dict_update ann_default_config rotation_section) ''log_file'' (JStr default_log_path)))
     default_log_path = default_log_path"
  "host_or_local (dict_update ann_default_config rotation_section) = ''127.0.0.1''"
  "normalise_schedule (get_default (dict_update ann_default_config rotation_section) ''schedule'' (JList [])) = Inr []"
  "valid_messages (get_none (dict_update ann_default_config rotation_section) ''messages'') = [''one'', ''two'']"
  "get_default (dict_update ann_default_config rotation_section) ''timezone'' (JStr ''local'') = JStr ''local''"
  by code_simp+

lemma rotation_load: "ann_load_config rotation_env = Inr rotation_config"
proof -
  have "ae_local rotation_env = sample_clock" by (simp add: rotation_env_def ann_sample_local)
  then show ?thesis
    by (simp add: ann_load_config_def ann_loaded_def ann_validate_def rotation_values ann_sample_values
      resolve_timezone_def rotation_config_def ann_sample_config_def)
qed

lemma rotation_ready: "rcon_ready ann_sample_os rotation_config ''pw'' 29070"
  using ann_sample_ready by (simp add: rcon_ready_def rotation_config_def)

lemma rotation_fields:
  "ai_env rotation_pass = rotation_env" "\<not> ai_set rotation_pass" "\<not> ai_stop rotation_pass"
  "ai_call rotation_pass i = (ann_sample_os, TimesOut)"
  by (simp_all add: rotation_pass_def sample_pass_def)

lemma rotation_config_fields:
  "ac_enabled rotation_config" "ac_schedule rotation_config = []" "ac_interval rotation_config = 900"
  "ac_messages rotation_config = [''one'', ''two'']"
  by (simp_all add: rotation_config_def)

theorem ann_rotation_witness:
  "\<exists>st. foldR ann_pass [rotation_pass, rotation_pass, rotation_pass] worker_init = Inr st \<and>
     rotated_messages st = [''one'', ''two'', ''one'']"
proof -
  have g: "list_all (interval_going [''one'', ''two'']) [rotation_pass, rotation_pass, rotation_pass]"
    by (simp add: interval_going_def rotation_fields rotation_load rotation_config_fields)
  obtain st where st: "foldR ann_pass [rotation_pass, rotation_pass, rotation_pass] worker_init = Inr st"
    by (simp add: ann_pass_def rotation_fields rotation_load rotation_config_fields worker_init_def interval_pass_def next_message_def
        dispatch_ready [OF rotation_ready] interruptible_sleep_def max_timeout_seconds_def)
  from ann_rotation [OF g st] st show ?thesis by (simp add: upt_rec)
qed

end
