(* ===== verification/Announcer_Outcome.thy ===== *)
theory Announcer_Outcome
  imports Announcer_Demo
begin

section \<open>\<open>announcer.py\<close>: what leaves the worker, and what ends it\<close>

subsection \<open>Announcements of a pass\<close>

fun call_message :: "call \<Rightarrow> string" where
  "call_message (Rotated m s ok) = m"
| "call_message (Slot i d m s ok) = m"
| "call_message (Periodic i t m s ok) = m"

fun call_sent :: "call \<Rightarrow> datagram list" where
  "call_sent (Rotated m s ok) = s"
| "call_sent (Slot i d m s ok) = s"
| "call_sent (Periodic i t m s ok) = s"

fun call_ok :: "call \<Rightarrow> bool" where
  "call_ok (Rotated m s ok) = ok"
| "call_ok (Slot i d m s ok) = ok"
| "call_ok (Periodic i t m s ok) = ok"

text \<open>
  An admissible announcement: a non-empty message, at most one datagram, which carries the message quoted
  in a whitelisted command, and a datagram for every success.
\<close>

definition quoted_in :: "datagram \<Rightarrow> string \<Rightarrow> bool" where
  "quoted_in d m \<longleftrightarrow>
     (\<exists>password. d_payload d = rcon_payload password (''svsay '' @ quote_rcon_arg m) \<or>
                 d_payload d = rcon_payload password (''say '' @ quote_rcon_arg m))"

definition proper_call :: "call \<Rightarrow> bool" where
  "proper_call c \<longleftrightarrow> call_message c \<noteq> [] \<and>
     (call_sent c = [] \<and> \<not> call_ok c \<or> (\<exists>d. call_sent c = [d] \<and> quoted_in d (call_message c)))"

lemma dispatch_proper:
  assumes "dispatch_announcement os net config m = (sent, Inr ok)" "ann_valid config"
  shows "sent = [] \<and> \<not> ok \<or> (\<exists>d. sent = [d] \<and> quoted_in d m)"
proof (cases "sent = []")
  case True
  with dispatch_ok_sent [of os net config m sent] assms(1) have "\<not> ok" by (cases ok) auto
  with True show ?thesis by simp
next
  case False
  with dispatch_sent [OF assms(1)] obtain port pw where d: "sent = [announcement_datagram config port pw m]" by blast
  have "ac_command config = ''svsay'' \<or> ac_command config = ''say''"
    using assms(2) by (simp add: ann_valid_def allowed_announce_commands_def)
  then have "quoted_in (announcement_datagram config port pw m) m"
    unfolding quoted_in_def announcement_datagram_def command_line_def by auto
  with d show ?thesis by blast
qed

lemma fire_entry_calls:
  assumes "fire_entry inp config today ie st = Inr st'" "ann_valid config"
  shows "\<exists>cs. as_calls st' = as_calls st @ cs \<and> list_all proper_call cs"
proof (cases "se_trigger (snd ie)")
  case (Daily t)
  from assms(1) have "fire_entry inp config today (fst ie, snd ie) st = Inr st'" by simp
  from this Daily assms(2) show ?thesis
  proof (cases rule: fire_daily)
    case (fire cursor m sent ok)
    with dispatch_proper [OF fire(4) assms(2)] show ?thesis by (simp add: proper_call_def)
  qed simp
next
  case (Every n)
  from assms(1) have "fire_entry inp config today (fst ie, snd ie) st = Inr st'" by simp
  from this Every assms(2) show ?thesis
  proof (cases rule: fire_every)
    case (fire cursor m sent ok d)
    with dispatch_proper [OF fire(4) assms(2)] show ?thesis by (simp add: proper_call_def)
  qed simp
qed

lemma schedule_start_calls: "schedule_start base schedule st = Inr st' \<Longrightarrow> as_calls st' = as_calls st \<and> as_exit st' = as_exit st"
  by (auto simp: schedule_start_def bindR_eq_Inr)

lemma interval_pass_calls:
  assumes "interval_pass inp config st = Inr st'" "ann_valid config" "as_exit st = None"
  shows "(\<exists>cs. as_calls st' = as_calls st @ cs \<and> list_all proper_call cs) \<and> as_exit st' \<in> {None, Some 0}"
proof (cases "ac_schedule config = []")
  case False
  with assms schedule_start_calls [of "ai_base inp" "ac_schedule config" st st'] show ?thesis
    by (simp add: interval_pass_def)
next
  case True
  obtain m cursor where m: "next_message (ac_messages config) (as_cursor st) = (Some m, cursor)"
    using assms(2) by (auto simp: ann_valid_def next_message_def)
  then have "m \<noteq> []" using valid_messages_nonblank [OF assms(2)] next_message_Some by blast
  obtain sent r where d: "dispatch_announcement (fst (ai_call inp 0)) (snd (ai_call inp 0)) config m = (sent, r)"
    by (rule prod.exhaust)
  from assms(1,3) True m \<open>m \<noteq> []\<close> d obtain ok where ok: "r = Inr ok"
    "st' = st\<lparr>as_cursor := cursor, as_calls := as_calls st @ [Rotated m sent ok]\<rparr> \<or>
     st' = st\<lparr>as_cursor := cursor, as_calls := as_calls st @ [Rotated m sent ok], as_exit := Some 0\<rparr>"
    by (auto simp: interval_pass_def bindR_eq_Inr split: if_splits)
  from dispatch_proper [OF d [unfolded ok(1)] assms(2)] \<open>m \<noteq> []\<close> have "proper_call (Rotated m sent ok)"
    by (simp add: proper_call_def)
  with ok(2) assms(3) show ?thesis by auto
qed

lemma schedule_pass_calls:
  assumes "schedule_pass inp config st = Inr st'" "ann_valid config" "as_exit st = None"
  shows "(\<exists>cs. as_calls st' = as_calls st @ cs \<and> list_all proper_call cs) \<and> as_exit st' \<in> {None, Some 0}"
proof (cases "ac_schedule config = []")
  case True
  with assms show ?thesis by (auto simp: schedule_pass_def interval_start_def)
next
  case False
  with assms(1) obtain st1 where st1: "reconcile (ai_mono inp) (ac_schedule config) st = Inr st1"
    "st' = st1\<lparr>as_exit := Some 0\<rparr> \<or>
     foldR (fire_entry inp config (dt_date (ac_tz config (ai_today inp)))) (enumerate 0 (ac_schedule config)) st1 = Inr st'"
    by (auto simp: schedule_pass_def bindR_eq_Inr Let_def split: if_splits)
  have c: "as_calls st1 = as_calls st" "as_exit st1 = None"
    using reconcile_view [OF st1(1), of 0] False assms(3) by auto
  from st1(2) show ?thesis
  proof
    assume "st' = st1\<lparr>as_exit := Some 0\<rparr>"
    with c show ?thesis by simp
  next
    assume run: "foldR (fire_entry inp config (dt_date (ac_tz config (ai_today inp)))) (enumerate 0 (ac_schedule config)) st1 = Inr st'"
    have "\<exists>cs. as_calls st' = as_calls st1 @ cs \<and> list_all proper_call cs"
    proof (rule foldR_invariant [where P = "\<lambda>s. \<exists>cs. as_calls s = as_calls st1 @ cs \<and> list_all proper_call cs", OF _ _ run])
      fix ie s s'
      assume "\<exists>cs. as_calls s = as_calls st1 @ cs \<and> list_all proper_call cs"
        "fire_entry inp config (dt_date (ac_tz config (ai_today inp))) ie s = Inr s'"
      with fire_entry_calls [OF _ assms(2)] show "\<exists>cs. as_calls s' = as_calls st1 @ cs \<and> list_all proper_call cs"
        by (metis append.assoc list_all_append)
    qed simp
    with c pass_mode [OF run assms(2)] show ?thesis by simp
  qed
qed

lemma ann_pass_calls:
  assumes "ann_pass inp st = Inr st'" "as_exit st \<in> {None, Some 0}"
  shows "(\<exists>cs. as_calls st' = as_calls st @ cs \<and> list_all proper_call cs) \<and> as_exit st' \<in> {None, Some 0}"
proof (cases "as_exit st = None \<and> \<not> ai_set inp")
  case False
  with assms show ?thesis by (auto simp: ann_pass_def split: if_splits)
next
  case True
  with assms(1) obtain config where c: "ann_load_config (ai_env inp) = Inr config"
    by (auto simp: ann_pass_def bindR_eq_Inr)
  show ?thesis
  proof (cases "ac_enabled config")
    case False
    with True c assms(1) have "st' = st\<lparr>as_exit := Some 0\<rparr>" by (simp add: ann_pass_def)
    then show ?thesis by simp
  next
    case en: True
    show ?thesis
    proof (cases "as_mode st")
      case IntervalMode
      with True c en assms(1) have "interval_pass inp config st = Inr st'" by (simp add: ann_pass_def)
      from interval_pass_calls [OF this ann_load_config_valid [OF c]] True show ?thesis by simp
    next
      case ScheduleMode
      with True c en assms(1) have "schedule_pass inp config st = Inr st'" by (simp add: ann_pass_def)
      from schedule_pass_calls [OF this ann_load_config_valid [OF c]] True show ?thesis by simp
    qed
  qed
qed

interpretation ann_wire: emitting_machine ann_pass "\<lambda>st. as_exit st \<in> {None, Some 0}" as_calls proper_call
  by unfold_locales (auto dest: ann_pass_calls)

text \<open>
  C15.  Whatever the configuration files, the clocks and the server do, in either loop and across switches
  between them, every announcement the worker attempts has a message, sends at most one datagram,
  whose payload is that message quoted behind one of the two whitelisted commands, and counts
  as a success only if a datagram was sent; and the only exit status is 0.
\<close>

theorem ann_calls_proper:
  assumes "foldR ann_pass inputs worker_init = Inr st"
  shows "list_all proper_call (as_calls st) \<and> as_exit st \<in> {None, Some 0}"
  using ann_wire.run_all_ok [OF _ _ assms] ann_wire.run_inv [OF _ assms] by (simp add: worker_init_def)

theorem ann_calls_proper_witness:
  "\<exists>st. foldR ann_pass [rotation_pass] worker_init = Inr st \<and> length (as_calls st) = 1 \<and>
     list_all proper_call (as_calls st)"
proof -
  obtain st where st: "foldR ann_pass [rotation_pass] worker_init = Inr st" "length (as_calls st) = 1"
    by (simp add: ann_pass_def rotation_fields rotation_load rotation_config_fields worker_init_def interval_pass_def
        next_message_def dispatch_ready [OF rotation_ready] interruptible_sleep_def max_timeout_seconds_def)
  with ann_calls_proper [OF st(1)] show ?thesis by blast
qed

subsection \<open>Passes that do not raise\<close>

definition entry_benign :: "sched_entry \<Rightarrow> bool" where
  "entry_benign e \<longleftrightarrow> (case se_trigger e of Every n \<Rightarrow> n < 2 ^ 1024 - 2 ^ 970 | Daily _ \<Rightarrow> True)"

definition config_benign :: "ann_input \<Rightarrow> ann_config \<Rightarrow> bool" where
  "config_benign inp config \<longleftrightarrow>
     ac_interval config \<le> max_timeout_seconds \<and> list_all entry_benign (ac_schedule config) \<and>
     (\<forall>i. dispatch_benign (fst (ai_call inp i)) (snd (ai_call inp i)) config) \<and>
     (\<forall>t. ordinal (dt_date (ac_tz config t)) < max_ordinal)"

definition pass_benign :: "ann_input \<Rightarrow> bool" where
  "pass_benign inp \<longleftrightarrow> (case ann_load_config (ai_env inp) of Inl _ \<Rightarrow> False | Inr config \<Rightarrow> config_benign inp config)"

lemma benign_entries: "list_all entry_benign es \<Longrightarrow> ie \<in> set (enumerate k es) \<Longrightarrow> entry_benign (snd ie)"
  by (induction es arbitrary: k) auto

lemma add_deadline_total: "entry_benign (snd ie) \<Longrightarrow> \<exists>ds'. add_deadline base ie ds = Inr ds'"
  by (simp add: add_deadline_def entry_benign_def float_of_int_def split: trigger.splits)

lemma deadlines_total:
  assumes "list_all entry_benign es"
  shows "\<exists>ds'. foldR (add_deadline base) (enumerate k es) ds = Inr ds'"
    and "\<exists>ds'. foldR (missing_deadline base) (enumerate k es) ds = Inr ds'"
proof -
  have m: "\<exists>ds'. missing_deadline base ie ds = Inr ds'" if "entry_benign (snd ie)" for ie ds
    using add_deadline_total [OF that] by (simp add: missing_deadline_def)
  show "\<exists>ds'. foldR (add_deadline base) (enumerate k es) ds = Inr ds'"
    using foldR_total [of "enumerate k es" "\<lambda>_. True" "add_deadline base" ds] benign_entries [OF assms] add_deadline_total
    by blast
  show "\<exists>ds'. foldR (missing_deadline base) (enumerate k es) ds = Inr ds'"
    using foldR_total [of "enumerate k es" "\<lambda>_. True" "missing_deadline base" ds] benign_entries [OF assms] m
    by blast
qed

lemma announce_entry_total:
  assumes "dispatch_benign (fst (ai_call inp i)) (snd (ai_call inp i)) config"
  shows "\<exists>st'. announce_entry inp config i e mark on_ok st = Inr st'"
proof -
  have d: "\<exists>sent ok. dispatch_announcement (fst (ai_call inp i)) (snd (ai_call inp i)) config m = (sent, Inr ok)" for m
    using dispatch_total [OF assms] .
  obtain message cursor where mc:
    "(case se_message e of
        Some m \<Rightarrow> if m \<noteq> [] then (Some m, as_cursor st) else next_message (ac_messages config) (as_cursor st)
      | None \<Rightarrow> next_message (ac_messages config) (as_cursor st)) = (message, cursor)" by (rule prod.exhaust)
  show ?thesis
  proof (cases message)
    case None
    then show ?thesis by (simp add: announce_entry_def mc)
  next
    case (Some m)
    obtain sent ok where "dispatch_announcement (fst (ai_call inp i)) (snd (ai_call inp i)) config m = (sent, Inr ok)"
      using d by blast
    with Some show ?thesis by (simp add: announce_entry_def mc Let_def)
  qed
qed

lemma fire_entry_total:
  assumes "config_benign inp config" "entry_benign (snd ie)"
  shows "\<exists>st'. fire_entry inp config today ie st = Inr st'"
proof -
  obtain i e where ie: "ie = (i, e)" by (rule prod.exhaust)
  have d: "dispatch_benign (fst (ai_call inp i)) (snd (ai_call inp i)) config"
    using assms(1) by (simp add: config_benign_def)
  note total = announce_entry_total [OF d]
  show ?thesis
  proof (cases "se_trigger e")
    case (Daily t)
    with total show ?thesis by (simp add: fire_entry_def ie slot_due_now_def)
  next
    case (Every n)
    with assms(2) ie have "float_of_int n = Inr (of_int n)" by (simp add: entry_benign_def float_of_int_def)
    with Every total show ?thesis by (simp add: fire_entry_def ie split: option.splits)
  qed
qed

lemma wakeups_total:
  assumes "\<And>i. ordinal (dt_date (ac_tz config (ai_wall inp i))) < max_ordinal"
  shows "\<exists>wakes. wakeups inp config today st = Inr wakes"
proof -
  have "\<not> max_ordinal \<le> ordinal (dt_date (ac_tz config (ai_wall inp i)))" for i using assms by (simp add: not_le)
  then have "\<exists>w. wakeup inp config today st ie = Inr w" for ie
    by (auto simp: wakeup_def seconds_until_slot_def Let_def not_less split: trigger.splits)
  then have "\<exists>ws'. (case wakeup inp config today st ie of Inl e \<Rightarrow> Inl e | Inr w \<Rightarrow> Inr (wakes @ [w])) = Inr ws'" for ie wakes
    by (metis old.sum.simps(6))
  then show ?thesis unfolding wakeups_def
    using foldR_total [of "enumerate 0 (ac_schedule config)" "\<lambda>_. True"
        "\<lambda>ie wakes. bindR (wakeup inp config today st ie) (\<lambda>w. Inr (wakes @ [w]))" "[]"]
    by (simp add: bindR_def)
qed

lemma schedule_pass_total:
  assumes "config_benign inp config"
  shows "\<exists>st'. schedule_pass inp config st = Inr st'"
proof (cases "ac_schedule config = []")
  case True
  then show ?thesis by (simp add: schedule_pass_def)
next
  case False
  have es: "list_all entry_benign (ac_schedule config)" using assms by (simp add: config_benign_def)
  obtain st1 where st1: "reconcile (ai_mono inp) (ac_schedule config) st = Inr st1"
    using deadlines_total(2) [OF es, of "ai_mono inp" 0 "as_deadlines st"] by (auto simp: reconcile_def)
  let ?today = "dt_date (ac_tz config (ai_today inp))"
  obtain wakes where wakes: "wakeups inp config ?today st1 = Inr wakes"
    using wakeups_total [of config inp ?today st1] assms by (auto simp: config_benign_def)
  have "(if sleep_for wakes > 0 then interruptible_sleep (sleep_for wakes) (ai_stop inp) else Inr False) =
      Inr (0 < sleep_for wakes \<and> ai_stop inp)"
    using sleep_for_bounds [of wakes] by (simp add: interruptible_sleep_def max_timeout_seconds_def)
  then obtain stop where stop:
    "(if sleep_for wakes > 0 then interruptible_sleep (sleep_for wakes) (ai_stop inp) else Inr False) = Inr stop" by (rule that)
  have "\<exists>st'. foldR (fire_entry inp config ?today) (enumerate 0 (ac_schedule config)) st1 = Inr st'"
    using foldR_total [of "enumerate 0 (ac_schedule config)" "\<lambda>_. True" "fire_entry inp config ?today" st1]
      fire_entry_total [OF assms] benign_entries [OF es] by blast
  with False st1 wakes stop show ?thesis by (auto simp: schedule_pass_def Let_def)
qed

lemma interval_pass_total:
  assumes "config_benign inp config"
  shows "\<exists>st'. interval_pass inp config st = Inr st'"
proof (cases "ac_schedule config = []")
  case False
  have es: "list_all entry_benign (ac_schedule config)" using assms by (simp add: config_benign_def)
  from False deadlines_total(1) [OF es, of "ai_base inp" 0 "\<lambda>_. None"] show ?thesis
    by (auto simp: interval_pass_def schedule_start_def)
next
  case True
  have d: "\<exists>sent ok. dispatch_announcement (fst (ai_call inp 0)) (snd (ai_call inp 0)) config m = (sent, Inr ok)" for m
    by (rule dispatch_total) (use assms in \<open>simp add: config_benign_def\<close>)
  have "\<exists>st'. (case next_message (ac_messages config) (as_cursor st) of
      (None, cursor) \<Rightarrow> Inr st
    | (Some message, cursor) \<Rightarrow>
        if message = [] then Inr (st\<lparr>as_cursor := cursor\<rparr>)
        else let (sent, r) = dispatch_announcement (fst (ai_call inp 0)) (snd (ai_call inp 0)) config message
             in bindR r (\<lambda>ok. Inr (st\<lparr>as_cursor := cursor, as_calls := as_calls st @ [Rotated message sent ok]\<rparr>))) = Inr st'"
    (is "\<exists>st'. ?body = Inr st'")
  proof (cases "fst (next_message (ac_messages config) (as_cursor st))")
    case None
    then show ?thesis by (simp add: case_prod_unfold)
  next
    case (Some m)
    obtain sent ok where "dispatch_announcement (fst (ai_call inp 0)) (snd (ai_call inp 0)) config m = (sent, Inr ok)"
      using d by blast
    with Some show ?thesis by (simp add: case_prod_unfold)
  qed
  then obtain st1 where "?body = Inr st1" by blast
  moreover have "interruptible_sleep (of_int (ac_interval config)) (ai_stop inp) = Inr (ai_stop inp)"
    using assms by (simp add: interruptible_sleep_def config_benign_def)
  ultimately show ?thesis using True by (simp add: interval_pass_def)
qed

lemma ann_pass_total:
  assumes "pass_benign inp"
  shows "\<exists>st'. ann_pass inp st = Inr st'"
proof -
  obtain config where c: "ann_load_config (ai_env inp) = Inr config" "config_benign inp config"
    using assms by (auto simp: pass_benign_def split: sum.splits)
  show ?thesis
    using schedule_pass_total [OF c(2)] interval_pass_total [OF c(2)]
    by (cases "as_mode st") (simp_all add: ann_pass_def c(1))
qed

interpretation ann_machine: surviving_machine ann_pass "\<lambda>st. as_exit st \<in> {None, Some 0}" pass_benign
  by unfold_locales (rule ann_pass_total)

text \<open>
  In a benign environment the worker survives: if every configuration it loads has intervals that
  fit the clock, and each announcement meets a readable runtime state, a port a socket accepts, and a
  network that fails with \<open>OSError\<close> only, no sequence of passes raises, with or without a password.
\<close>

theorem ann_loop_survives:
  assumes "list_all pass_benign inputs"
  shows "\<exists>st. foldR ann_pass inputs worker_init = Inr st"
proof -
  have "as_exit worker_init \<in> {None, Some 0}" by (simp add: worker_init_def)
  from ann_machine.run_total [OF this assms] show ?thesis by blast
qed

lemma sample_dispatch_benign:
  "dispatch_benign ann_sample_os TimesOut c \<longleftrightarrow> ac_timeout c \<le> max_timeout_seconds"
proof -
  have p: "ann_current_server_port ann_sample_os = Inr 29070"
    using ann_sample_ready by (simp add: rcon_ready_def)
  then obtain st where "load_runtime_state ann_sample_os = Inr st"
    by (auto simp: ann_current_server_port_def bindR_eq_Inr)
  with p show ?thesis by (simp add: dispatch_benign_def net_benign_def)
qed

text \<open>A zone that shows one instant for ever.\<close>

definition still_env :: ann_env where
  "still_env = ann_sample_env\<lparr>ae_local := (\<lambda>_. sample_clock 0)\<rparr>"

lemma still_load: "ann_load_config still_env = Inr (ann_sample_config\<lparr>ac_tz := (\<lambda>_. sample_clock 0)\<rparr>)"
  by (simp add: ann_load_config_def ann_loaded_def ann_validate_def ann_sample_values ann_sample_schedule
      resolve_timezone_def still_env_def ann_sample_config_def)

theorem ann_loop_survives_witness:
  "\<exists>st. foldR ann_pass [(sample_pass 0 30)\<lparr>ai_env := still_env\<rparr>] worker_init = Inr st"
proof -
  have "pass_benign ((sample_pass 0 30)\<lparr>ai_env := still_env\<rparr>)"
    by (simp add: pass_benign_def still_load config_benign_def sample_pass_def sample_dispatch_benign)
      (simp add: ann_sample_config_def max_timeout_seconds_def entry_benign_def sample_clock_def max_ordinal_def
        days_before_year_def days_before_month_def)
  with ann_loop_survives [of "[(sample_pass 0 30)\<lparr>ai_env := still_env\<rparr>]"] show ?thesis by simp
qed

subsection \<open>A slot that cannot be announced\<close>

text \<open>
  After a daily slot came due and its announcement failed, for instance because no RCON password was
  found, the marker of the day is not set, and the next pass on that day does not sleep at all: until
  the announcement succeeds or the day ends, the loop runs without a pause.
\<close>

theorem ann_failed_slot_spins:
  assumes "ann_load_config (ai_env inp) = Inr config" "ann_pass inp st = Inr st'"
    and "as_exit st = None" "as_mode st = ScheduleMode" "as_exit st' = None"
    and "i < length (ac_schedule config)" "se_trigger (ac_schedule config ! i) = Daily t" "as_fired st i \<noteq> Some day"
    and fails: "\<And>m. snd (dispatch_announcement (fst (ai_call inp i)) (snd (ai_call inp i)) config m) = Inr False"
    and "reconcile (ai_mono inp2) (ac_schedule config) st' = Inr st2" "wakeups inp2 config day st2 = Inr wakes"
    and "\<And>j. clock_ok (ac_tz config (ai_wall inp2 j))"
    and "tod_seconds t \<le> day_seconds (ac_tz config (ai_wall inp2 i))"
  shows "sleep_for wakes = 0"
proof -
  note v = ann_load_config_valid [OF assms(1)]
  have "as_fired st' i = as_fired st i"
    using assms(2,3,4,1,6)
  proof (cases rule: schedule_pass_cases)
    case stop
    with assms(5) show ?thesis by simp
  next
    case (fire st1)
    obtain s s' where s: "view i s = view i st1"
      "fire_entry inp config (dt_date (ac_tz config (ai_today inp))) (i, ac_schedule config ! i) s = Inr s'"
      "view i st' = view i s'"
      using pass_entry [OF fire(2) v assms(6)] .
    have "as_fired s' i = as_fired s i"
      using s(2) assms(7) v
    proof (cases rule: fire_daily)
      case (fire cursor m sent ok)
      with fails [of m] show ?thesis by simp
    qed simp
    with s reconcile_view(4) [OF fire(1) assms(6,7)] show ?thesis by (simp add: view_def)
  qed
  with reconcile_view(4) [OF assms(10,6,7)] assms(8) have "as_fired st2 i \<noteq> Some day" by simp
  with assms(7,13) have due: "due_entry inp2 config day st2 (i, ac_schedule config ! i)" by (simp add: due_entry_def)
  moreover have "(i, ac_schedule config ! i) \<in> set (enumerate 0 (ac_schedule config))"
    using assms(6) by (simp add: in_set_enumerate_eq)
  moreover have "ac_schedule config \<noteq> []" using assms(6) by auto
  ultimately show ?thesis using sleep_horizon [OF assms(1) _ assms(12,11)] by blast
qed

definition no_password_os :: os_env where
  "no_password_os = \<lparr>environ = (\<lambda>k. None), file_at = (\<lambda>p. Missing), json_loads = (\<lambda>t. Inl JSONDecodeError)\<rparr>"

lemma no_password: "dispatch_announcement no_password_os net config m = ([], Inr False)"
proof -
  have "bindR (active_server_config_path no_password_os) (ann_effective_rcon_password no_password_os) = Inr None"
    by code_simp
  then show ?thesis by (simp add: dispatch_announcement_def)
qed

definition failing_pass :: "rat \<Rightarrow> ann_input" where
  "failing_pass t = (sample_pass t t)\<lparr>ai_call := (\<lambda>_. (no_password_os, TimesOut))\<rparr>"

lemma failing_fields [simp]:
  "ai_set (failing_pass t) = False" "ai_env (failing_pass t) = ann_sample_env" "ai_mono (failing_pass t) = t"
  "ai_mono2 (failing_pass t) = t" "ai_today (failing_pass t) = t" "ai_wall (failing_pass t) i = t"
  "ai_stop (failing_pass t) = False" "ai_stop2 (failing_pass t) = False" "ai_mono3 (failing_pass t) = t"
  "ai_fire (failing_pass t) i = t" "ai_call (failing_pass t) i = (no_password_os, TimesOut)"
  by (simp_all add: failing_pass_def sample_pass_def)

lemmas pass_evaluation = ann_pass_def ann_sample_load schedule_pass_def reconcile_def missing_deadline_def every_entry_def
  sample_start_def worker_init_def wakeups_def wakeup_def seconds_until_slot_def wall_seconds_def today_target_def
  sample_clock_def sleep_for_def max_sleep_interval_seconds_def fire_entry_def slot_due_now_def float_of_int_def
  announce_entry_def next_message_def days_before_year_def days_before_month_def add_deadline_def Let_def

theorem ann_failed_slot_spins_witness:
  "\<exists>st st2 wakes. ann_pass (failing_pass 28800) sample_start = Inr st \<and>
     reconcile 28801 (ac_schedule ann_sample_config) st = Inr st2 \<and>
     wakeups (failing_pass 28801) ann_sample_config (Date 2024 1 1) st2 = Inr wakes \<and> sleep_for wakes = 0"
proof -
  obtain st where st: "ann_pass (failing_pass 28800) sample_start = Inr st" "as_exit st = None"
    by (simp add: pass_evaluation no_password)
  have "list_all entry_benign (ac_schedule ann_sample_config)" by (simp add: entry_benign_def)
  from deadlines_total(2) [OF this, of 28801 0 "as_deadlines st"] obtain st2 where
    st2: "reconcile 28801 (ac_schedule ann_sample_config) st = Inr st2" by (auto simp: reconcile_def simp del: sample_config_fields)
  obtain wakes where wakes: "wakeups (failing_pass 28801) ann_sample_config (Date 2024 1 1) st2 = Inr wakes"
    using wakeups_total [of ann_sample_config "failing_pass 28801"]
    by (auto simp: sample_clock_def days_before_year_def days_before_month_def max_ordinal_def)
  have load: "ann_load_config (ai_env (failing_pass 28800)) = Inr ann_sample_config" by (simp add: ann_sample_load)
  have s0: "as_exit sample_start = None" "as_mode sample_start = ScheduleMode" "as_fired sample_start 0 \<noteq> Some (Date 2024 1 1)"
    by (simp_all add: sample_start_def worker_init_def)
  have "sleep_for wakes = 0"
    by (rule ann_failed_slot_spins [OF load st(1) s0(1,2) st(2), of 0 "Tod 7 30 0" "Date 2024 1 1" "failing_pass 28801" st2])
      (use s0 st2 wakes in \<open>simp_all add: no_password tod_seconds_def day_seconds_def sample_clock_def clock_ok_def\<close>)
  with st st2 wakes show ?thesis by blast
qed

text \<open>
  An interval beyond the clock's range ends the worker: \<open>load_config\<close> bounds the interval from below
  only, and the wait behind the first announcement raises \<open>OverflowError\<close>.
\<close>

theorem ann_interval_overflow:
  assumes "ann_load_config (ai_env inp) = Inr config" "ac_enabled config" "ac_schedule config = []"
    and "max_timeout_seconds < ac_interval config" "\<not> ai_set inp"
    and "dispatch_benign (fst (ai_call inp 0)) (snd (ai_call inp 0)) config"
  shows "ann_pass inp worker_init = Inl OverflowError"
proof -
  have "ac_messages config \<noteq> []" using ann_load_config_valid [OF assms(1)] by (simp add: ann_valid_def)
  moreover have "(of_int max_timeout_seconds :: rat) < of_int (ac_interval config)" using assms(4) by simp
  moreover have d: "\<exists>sent ok. dispatch_announcement (fst (ai_call inp 0)) (snd (ai_call inp 0)) config m = (sent, Inr ok)" for m
    using dispatch_total [OF assms(6)] .
  obtain m cursor where m: "next_message (ac_messages config) 0 = (m, cursor)" by (rule prod.exhaust)
  obtain sent ok where "dispatch_announcement (fst (ai_call inp 0)) (snd (ai_call inp 0)) config (the m) = (sent, Inr ok)"
    using d by blast
  ultimately show ?thesis
    using assms(1-3,5) m
    by (cases m) (simp_all add: ann_pass_def worker_init_def interval_pass_def interruptible_sleep_def Let_def)
qed

definition slow_section :: dict where
  "slow_section = [(''interval_seconds'', JInt 9223372037)]"

definition slow_env :: ann_env where
  "slow_env = ann_sample_env\<lparr>ae_os := (ae_os ann_sample_env)\<lparr>json_loads := (\<lambda>t. Inr (JObj slow_section))\<rparr>\<rparr>"

lemma slow_load:
  "\<exists>c. ann_load_config slow_env = Inr c \<and> ac_enabled c \<and> ac_schedule c = [] \<and> ac_interval c = 9223372037 \<and> ac_timeout c = 3"
proof -
  have "loaded_section (ae_os slow_env) (ann_addons_config_path (ae_os slow_env)) ''announcer'' = Inr (Some slow_section)"
    "ann_safe_bool (get_default (dict_update ann_default_config slow_section) ''enabled'' (JBool True)) True = True"
    "ann_safe_int (get_none (dict_update ann_default_config slow_section) ''startup_delay_seconds'') 60 0 = Inr 60"
    "ann_safe_int (get_none (dict_update ann_default_config slow_section) ''interval_seconds'') 900 30 = Inr 9223372037"
    "ann_safe_int (get_none (dict_update ann_default_config slow_section) ''rcon_timeout_seconds'') 3 1 = Inr 3"
    "normalise_schedule (get_default (dict_update ann_default_config slow_section) ''schedule'' (JList [])) = Inr []"
    "get_default (dict_update ann_default_config slow_section) ''timezone'' (JStr ''local'') = JStr ''local''"
    by code_simp+
  then show ?thesis
    by (simp add: ann_load_config_def ann_loaded_def ann_validate_def resolve_timezone_def ann_sample_values Let_def)
qed

theorem ann_interval_overflow_witness:
  "ann_pass ((sample_pass 0 0)\<lparr>ai_env := slow_env\<rparr>) worker_init = Inl OverflowError"
proof -
  obtain c where c: "ann_load_config slow_env = Inr c" "ac_enabled c" "ac_schedule c = []" "ac_interval c = 9223372037"
    "ac_timeout c = 3"
    using slow_load by blast
  then have "ann_load_config (ai_env ((sample_pass 0 0)\<lparr>ai_env := slow_env\<rparr>)) = Inr c" by simp
  from ann_interval_overflow [OF this c(2,3)] c show ?thesis
    by (simp add: max_timeout_seconds_def sample_pass_def sample_dispatch_benign)
qed

text \<open>
  A zone name is looked up with \<open>ZoneInfo(name)\<close>; only \<open>ZoneInfoNotFoundError\<close> leads to the local zone.  A name
  that is no relative path in normal form (\<open>/etc/localtime\<close>, \<open>../UTC\<close>) is refused with \<open>ValueError\<close> by
  \<open>zoneinfo\<close>, and \<open>load_config\<close> raises it, whatever else is configured.
\<close>

theorem ann_zone_raises:
  assumes "ann_validate (env\<lparr>ae_zone := (\<lambda>_. ZoneNotFound)\<rparr>) d = Inr c"
    and "name = strip (py_str (py_or (get_default d ''timezone'' (JStr ''local'')) (JStr [])))"
    and "name \<noteq> []" "lower name \<noteq> ''local''" "ae_zone env name = ZoneRaises e"
  shows "ann_validate env d = Inl e"
proof -
  have z: "resolve_timezone env (get_default d ''timezone'' (JStr ''local'')) = Inl e"
    using assms(3-5) unfolding resolve_timezone_def Let_def assms(2) [symmetric] by simp
  obtain n1 n2 n3 sched where
    "ann_safe_int (get_none d ''startup_delay_seconds'') 60 0 = Inr n1"
    "ann_safe_int (get_none d ''interval_seconds'') 900 30 = Inr n2"
    "ann_safe_int (get_none d ''rcon_timeout_seconds'') 3 1 = Inr n3"
    "normalise_schedule (get_default d ''schedule'' (JList [])) = Inr sched"
    using assms(1) unfolding ann_validate_def Let_def bindR_eq_Inr by blast
  with z show ?thesis by (simp add: ann_validate_def)
qed

end
