(* ===== verification/Announcer_Lock.thy ===== *)
theory Announcer_Lock
  imports Announcer_Config
begin

section \<open>\<open>announcer.py\<close>: one worker at a time\<close>

text \<open>
  Launchers and workers are processes that run at the same time and share the lock file and the PID
  file.  A state of the system holds the phase of every process, the process that holds the
  exclusive \<open>flock\<close>, and the contents of the two files; one step is one system call (or the calls
  between two that others can see) of one process.  A lock goes with its process, however it ends.
\<close>

subsection \<open>State\<close>

type_synonym pid = int

datatype phase =
    Absent
  | Launcher                 \<comment> \<open>in front of \<open>previous_worker_alive\<close>\<close>
  | Probing                  \<comment> \<open>in \<open>previous_worker_alive\<close>, holding the lock\<close>
  | Launching                \<comment> \<open>told that no worker is alive\<close>
  | Launched pid             \<comment> \<open>has started this worker\<close>
  | Starting                 \<comment> \<open>a worker in front of \<open>acquire_worker_lock\<close>\<close>
  | Holding                  \<comment> \<open>behind it, in front of writing the PID file\<close>
  | Running
  | Leaving                  \<comment> \<open>in the \<open>atexit\<close> handler\<close>

record lock_sys =
  phases :: "pid \<Rightarrow> phase"
  holder :: "pid option"
  lock_text :: string
  pid_file :: file_read

definition lock_init :: lock_sys where
  "lock_init = \<lparr>phases = (\<lambda>_. Absent), holder = None, lock_text = [], pid_file = Missing\<rparr>"

subsection \<open>Operations\<close>

definition pid_text :: "pid \<Rightarrow> string" where
  "pid_text p = str_of_int p @ [CHR 0x0A]"

text \<open>
  \<open>flock(LOCK_EX | LOCK_NB)\<close> on a fresh handle: \<open>None\<close> if another handle has the lock.
\<close>

definition flock_exclusive :: "pid \<Rightarrow> lock_sys \<Rightarrow> lock_sys option" where
  "flock_exclusive p s = (if holder s = None then Some (s\<lparr>holder := Some p\<rparr>) else None)"

definition flock_release :: "pid \<Rightarrow> lock_sys \<Rightarrow> lock_sys" where
  "flock_release p s = (if holder s = Some p then s\<lparr>holder := None\<rparr> else s)"

definition acquire_worker_lock :: "pid \<Rightarrow> lock_sys \<Rightarrow> lock_sys option" where
  "acquire_worker_lock p s =
     (case flock_exclusive p s of
        None \<Rightarrow> None
      | Some s \<Rightarrow> Some (s\<lparr>lock_text := pid_text p\<rparr>))"

text \<open>
  \<open>previous_worker_alive\<close> up to its result; the lock it takes for the test is still held.  The result
  without the lock file (\<open>opened\<close> is false) is that no worker is alive.
\<close>

definition previous_worker_alive :: "pid \<Rightarrow> bool \<Rightarrow> lock_sys \<Rightarrow> bool \<times> lock_sys" where
  "previous_worker_alive p opened s =
     (if \<not> opened then (False, s)
      else case flock_exclusive p s of None \<Rightarrow> (True, s) | Some s' \<Rightarrow> (False, s'))"

definition read_existing_pid :: "lock_sys \<Rightarrow> int option" where
  "read_existing_pid s =
     (case pid_file s of
        Text t \<Rightarrow> (case py_int_text (strip t) of Inr n \<Rightarrow> Some n | Inl _ \<Rightarrow> None)
      | _ \<Rightarrow> None)"

text \<open>\<open>unlink_ok\<close>: whether the removal succeeds.\<close>

definition remove_pid_if_owned :: "pid \<Rightarrow> bool \<Rightarrow> lock_sys \<Rightarrow> lock_sys" where
  "remove_pid_if_owned p unlinks s =
     (if read_existing_pid s = Some p \<and> unlinks then s\<lparr>pid_file := Missing\<rparr> else s)"

definition write_pid :: "pid \<Rightarrow> lock_sys \<Rightarrow> lock_sys" where
  "write_pid p s = s\<lparr>pid_file := Text (pid_text p)\<rparr>"

definition set_phase :: "pid \<Rightarrow> phase \<Rightarrow> lock_sys \<Rightarrow> lock_sys" where
  "set_phase p ph s = s\<lparr>phases := (phases s)(p := ph)\<rparr>"

text \<open>\<open>launch_background_worker\<close> in front of the liveness test.\<close>

definition launch_wanted :: "ann_config \<Rightarrow> bool" where
  "launch_wanted config \<longleftrightarrow> ac_enabled config \<and>
     (ac_messages config \<noteq> [] \<or> (\<exists>e \<in> set (ac_schedule config). se_message e \<noteq> None \<and> se_message e \<noteq> Some []))"

subsection \<open>Steps\<close>

inductive lock_step :: "lock_sys \<Rightarrow> lock_sys \<Rightarrow> bool" where
  Launch: "phases s p = Absent \<Longrightarrow> launch_wanted config \<Longrightarrow> lock_step s (set_phase p Launcher s)"
| Probe: "phases s p = Launcher \<Longrightarrow> previous_worker_alive p opened s = (False, s') \<Longrightarrow> opened \<Longrightarrow>
    lock_step s (set_phase p Probing s')"
| Probe_unopened: "phases s p = Launcher \<Longrightarrow> previous_worker_alive p False s = (False, s') \<Longrightarrow>
    lock_step s (set_phase p Launching s')"
| Probe_alive: "phases s p = Launcher \<Longrightarrow> previous_worker_alive p opened s = (True, s') \<Longrightarrow>
    lock_step s (set_phase p Absent s')"
| Probe_release: "phases s p = Probing \<Longrightarrow> lock_step s (set_phase p Launching (flock_release p s))"
| Spawn: "phases s p = Launching \<Longrightarrow> phases s c = Absent \<Longrightarrow>
    lock_step s (set_phase c Starting (set_phase p (Launched c) s))"
| Spawn_fails: "phases s p = Launching \<Longrightarrow> lock_step s (set_phase p Absent s)"
| Record: "phases s p = Launched c \<Longrightarrow> lock_step s (set_phase p Absent (write_pid c s))"
| Record_fails: "phases s p = Launched c \<Longrightarrow> lock_step s (set_phase p Absent s)"
| Acquire: "phases s p = Starting \<Longrightarrow> acquire_worker_lock p s = Some s' \<Longrightarrow> lock_step s (set_phase p Holding s')"
| Acquire_fails: "phases s p = Starting \<Longrightarrow> acquire_worker_lock p s = None \<Longrightarrow> lock_step s (set_phase p Absent s)"
| Write: "phases s p = Holding \<Longrightarrow> lock_step s (set_phase p Running (write_pid p s))"
| Finish: "phases s p = Running \<Longrightarrow> lock_step s (set_phase p Leaving (flock_release p s))"
| Disabled: "phases s p = Running \<Longrightarrow>
    lock_step s (set_phase p Absent (flock_release p (remove_pid_if_owned p unlinks s)))"
| Leave: "phases s p = Leaving \<Longrightarrow> lock_step s (set_phase p Absent (remove_pid_if_owned p unlinks s))"
| Die: "phases s p \<noteq> Absent \<Longrightarrow> lock_step s (set_phase p Absent (flock_release p s))"

inductive lock_reachable :: "lock_sys \<Rightarrow> bool" where
  initial: "lock_reachable lock_init"
| further: "lock_reachable s \<Longrightarrow> lock_step s s' \<Longrightarrow> lock_reachable s'"

inductive_cases lock_stepE: "lock_step s s'"

subsection \<open>Mutual exclusion\<close>

definition lock_phases :: "phase set" where
  "lock_phases = {Probing, Holding, Running}"

text \<open>The lock is held by exactly the process whose phase says so.\<close>

definition lock_inv :: "lock_sys \<Rightarrow> bool" where
  "lock_inv s \<longleftrightarrow> (\<forall>p. holder s = Some p \<longleftrightarrow> phases s p \<in> lock_phases)"

lemma lock_fields [simp]:
  "phases (set_phase p ph s) = (phases s)(p := ph)" "holder (set_phase p ph s) = holder s"
  "pid_file (set_phase p ph s) = pid_file s"
  "phases (flock_release p s) = phases s" "pid_file (flock_release p s) = pid_file s"
  "holder (flock_release p s) = (if holder s = Some p then None else holder s)"
  "phases (write_pid p s) = phases s" "holder (write_pid p s) = holder s"
  "pid_file (write_pid p s) = Text (pid_text p)"
  "phases (remove_pid_if_owned p u s) = phases s" "holder (remove_pid_if_owned p u s) = holder s"
  by (simp_all add: set_phase_def flock_release_def write_pid_def remove_pid_if_owned_def)

lemma acquire_Some: "acquire_worker_lock p s = Some s' \<longleftrightarrow>
    holder s = None \<and> s' = s\<lparr>holder := Some p, lock_text := pid_text p\<rparr>"
  by (auto simp: acquire_worker_lock_def flock_exclusive_def)

lemma acquire_None: "acquire_worker_lock p s = None \<longleftrightarrow> holder s \<noteq> None"
  by (simp add: acquire_worker_lock_def flock_exclusive_def)

lemma probe_cases:
  "previous_worker_alive p opened s = (alive, s') \<longleftrightarrow>
     (if opened \<and> holder s = None then \<not> alive \<and> s' = s\<lparr>holder := Some p\<rparr> else alive = opened \<and> s' = s)"
  by (auto simp: previous_worker_alive_def flock_exclusive_def)

lemma set_phase_inv:
  assumes "lock_inv s" "phases t = phases s"
    and "ph \<in> lock_phases \<longrightarrow> (holder s = None \<or> holder s = Some p) \<and> holder t = Some p"
    and "ph \<notin> lock_phases \<longrightarrow> holder t = (if holder s = Some p then None else holder s)"
  shows "lock_inv (set_phase p ph t)"
  unfolding lock_inv_def
proof
  fix q
  have q: "holder s = Some q \<longleftrightarrow> phases s q \<in> lock_phases" for q
    using assms(1) by (simp add: lock_inv_def)
  show "(holder (set_phase p ph t) = Some q) = (phases (set_phase p ph t) q \<in> lock_phases)"
    using assms(2-4) q [of q] q [of p] by (cases "ph \<in> lock_phases") (auto split: if_splits)
qed

lemma holder_phase: "lock_inv s \<Longrightarrow> holder s = Some p \<longleftrightarrow> phases s p \<in> lock_phases"
  by (simp add: lock_inv_def)

lemma step_inv: "lock_step s s' \<Longrightarrow> lock_inv s \<Longrightarrow> lock_inv s'"
proof (induction rule: lock_step.induct)
  case (Spawn s p c)
  then have h: "holder s \<noteq> Some p" "holder s \<noteq> Some c" by (simp_all add: holder_phase lock_phases_def)
  from Spawn(3) h have "lock_inv (set_phase p (Launched c) s)" by (intro set_phase_inv) (auto simp: lock_phases_def)
  with h show ?case by (intro set_phase_inv) (auto simp: lock_phases_def)
next
  case (Launch s p config)
  with holder_phase [of s p] show ?case
    by (intro set_phase_inv [of s]) (auto simp: probe_cases acquire_Some lock_phases_def split: if_splits)
next
  case (Probe_unopened s p s')
  with holder_phase [of s p] show ?case
    by (intro set_phase_inv [of s]) (auto simp: probe_cases acquire_Some lock_phases_def split: if_splits)
next
  case (Probe_alive s p opened s')
  with holder_phase [of s p] show ?case
    by (intro set_phase_inv [of s]) (auto simp: probe_cases acquire_Some lock_phases_def split: if_splits)
next
  case (Probe_release s p)
  with holder_phase [of s p] show ?case
    by (intro set_phase_inv [of s]) (auto simp: probe_cases acquire_Some lock_phases_def split: if_splits)
next
  case (Spawn_fails s p)
  with holder_phase [of s p] show ?case
    by (intro set_phase_inv [of s]) (auto simp: probe_cases acquire_Some lock_phases_def split: if_splits)
next
  case (Record s p c)
  with holder_phase [of s p] show ?case
    by (intro set_phase_inv [of s]) (auto simp: probe_cases acquire_Some lock_phases_def split: if_splits)
next
  case (Record_fails s p c)
  with holder_phase [of s p] show ?case
    by (intro set_phase_inv [of s]) (auto simp: probe_cases acquire_Some lock_phases_def split: if_splits)
next
  case (Acquire_fails s p)
  with holder_phase [of s p] show ?case
    by (intro set_phase_inv [of s]) (auto simp: probe_cases acquire_Some lock_phases_def split: if_splits)
next
  case (Write s p)
  with holder_phase [of s p] show ?case
    by (intro set_phase_inv [of s]) (auto simp: probe_cases acquire_Some lock_phases_def split: if_splits)
next
  case (Finish s p)
  with holder_phase [of s p] show ?case
    by (intro set_phase_inv [of s]) (auto simp: probe_cases acquire_Some lock_phases_def split: if_splits)
next
  case (Disabled s p unlinks)
  with holder_phase [of s p] show ?case
    by (intro set_phase_inv [of s]) (auto simp: probe_cases acquire_Some lock_phases_def split: if_splits)
next
  case (Leave s p unlinks)
  with holder_phase [of s p] show ?case
    by (intro set_phase_inv [of s]) (auto simp: probe_cases acquire_Some lock_phases_def split: if_splits)
next
  case (Die s p)
  with holder_phase [of s p] show ?case
    by (intro set_phase_inv [of s]) (auto simp: probe_cases acquire_Some lock_phases_def split: if_splits)
next
  case (Probe s p opened s')
  with holder_phase [of s p] show ?case
    by (intro set_phase_inv [of s]) (auto simp: probe_cases acquire_Some lock_phases_def split: if_splits)
next
  case (Acquire s p s')
  with holder_phase [of s p] show ?case
    by (intro set_phase_inv [of s]) (auto simp: probe_cases acquire_Some lock_phases_def split: if_splits)
qed

lemma reachable_inv: "lock_reachable s \<Longrightarrow> lock_inv s"
proof (induction rule: lock_reachable.induct)
  case initial
  show ?case by (simp add: lock_init_def lock_inv_def lock_phases_def)
next
  case (further s s')
  from step_inv [OF further(2,3)] show ?case .
qed

text \<open>
  C3.  At most one worker runs: in every state the launchers and workers can reach, in any interleaving,
  with processes dying at any point, two processes that are past \<open>acquire_worker_lock\<close> and have not
  released the lock are the same process; and the lock is only ever held by a living process.
\<close>

theorem lock_exclusive:
  assumes "lock_reachable s" "phases s p \<in> {Holding, Running}" "phases s q \<in> {Holding, Running}"
  shows "p = q \<and> holder s = Some p"
proof -
  have "holder s = Some p" "holder s = Some q"
    using holder_phase [OF reachable_inv [OF assms(1)]] assms(2,3) by (auto simp: lock_phases_def)
  then show ?thesis by simp
qed

text \<open>
  A crash never locks the worker out: in every reachable state in which no process is alive that
  tests or holds the lock, a new worker acquires it.
\<close>

theorem lock_available:
  assumes "lock_reachable s" "\<And>q. phases s q \<notin> {Probing, Holding, Running}"
  shows "acquire_worker_lock p s = Some (s\<lparr>holder := Some p, lock_text := pid_text p\<rparr>)"
proof -
  have "holder s = None"
  proof (cases "holder s")
    case (Some q)
    with holder_phase [OF reachable_inv [OF assms(1)], of q] assms(2) [of q] show ?thesis by (simp add: lock_phases_def)
  qed
  then show ?thesis by (simp add: acquire_Some)
qed

subsection \<open>The PID file\<close>

lemma str_of_nonneg_length: "0 \<le> n \<Longrightarrow> n < 10 ^ Suc k \<Longrightarrow> length (str_of_nonneg n) \<le> Suc k"
proof (induction k arbitrary: n)
  case 0
  then show ?case by (simp add: str_of_nonneg.simps [of n])
next
  case (Suc k)
  show ?case
  proof (cases "n < 10")
    case True
    then show ?thesis by (simp add: str_of_nonneg.simps [of n])
  next
    case False
    define x :: int where "x = 10 ^ Suc k"
    from Suc.prems(2) have "n < 10 * x" by (simp add: x_def)
    then have "n div 10 < x" by presburger
    then have "n div 10 < 10 ^ Suc k" by (simp only: x_def)
    with Suc.IH [of "n div 10"] Suc.prems(1) False show ?thesis by (simp add: str_of_nonneg.simps [of n] pos_imp_zdiv_nonneg_iff)
  qed
qed

lemma str_of_pid:
  assumes "0 \<le> p" "p < 10 ^ 7"
  shows "py_int_text (str_of_int p) = Inr p" "strip (pid_text p) = str_of_int p"
proof -
  have "length (str_of_nonneg p) \<le> 7" using str_of_nonneg_length [of p 6] assms by simp
  with assms(1) show "py_int_text (str_of_int p) = Inr p"
    by (intro py_int_text_str_of_int) (simp add: int_max_str_digits_def)
  have ds: "str_of_int p \<noteq> []" "\<forall>c \<in> set (str_of_int p). \<not> is_space c"
    using str_of_nonneg_decimals [OF assms(1)] assms(1)
    by (auto simp: str_of_int_def list_all_iff is_decimal_not_space)
  have "rstrip (str_of_int p @ [CHR 0x0A]) = rstrip (str_of_int p)"
    by (simp add: rstrip_snoc is_space_def in_range_def code_def)
  moreover have "lstrip (str_of_int p @ [CHR 0x0A]) = str_of_int p @ [CHR 0x0A]"
    using ds by (intro lstrip_id) (simp add: hd_append)
  ultimately show "strip (pid_text p) = str_of_int p"
    using ds by (simp add: pid_text_def strip_def rstrip_id)
qed

lemma read_written: "0 \<le> p \<Longrightarrow> p < 10 ^ 7 \<Longrightarrow> read_existing_pid (write_pid p s) = Some p"
  by (simp add: read_existing_pid_def str_of_pid)

text \<open>
  A process number written to the PID file is read back, and the handler at the end of a process
  removes the file exactly if it names that process.
\<close>

theorem pid_file_owned:
  assumes "0 \<le> p" "p < 10 ^ 7"
  shows "read_existing_pid (write_pid p s) = Some p \<and>
    pid_file (remove_pid_if_owned q True (write_pid p s)) = (if q = p then Missing else Text (pid_text p))"
  using read_written [OF assms, of s] by (auto simp: remove_pid_if_owned_def)

theorem pid_file_owned_witness:
  "pid_file (remove_pid_if_owned 4711 True (write_pid 4711 lock_init)) = Missing"
  using pid_file_owned [of 4711 lock_init 4711] by simp

text \<open>
  The PID file can name a process that is not the worker: two launchers that test the lock one after
  the other both start a worker; the second worker finds the lock taken and exits, and the second
  launcher then writes the number of that dead process over the number of the running worker.
\<close>

theorem pid_file_race:
  "\<exists>s p q. lock_reachable s \<and> phases s p = Running \<and> read_existing_pid s = Some q \<and> q \<noteq> p \<and> phases s q = Absent"
proof -
  note go = lock_reachable.further
  have wanted: "launch_wanted ann_sample_config" by (simp add: launch_wanted_def ann_sample_config_def)
  define a where "a = set_phase 2 Launcher (set_phase 1 Launcher lock_init)"
  have a: "lock_reachable a" unfolding a_def
    by (rule go [OF go [OF initial lock_step.Launch [OF _ wanted]] lock_step.Launch [OF _ wanted]])
      (simp_all add: lock_init_def)
  define b where "b = set_phase 1 Launching (flock_release 1 (set_phase 1 Probing (a\<lparr>holder := Some 1\<rparr>)))"
  have b: "lock_reachable b" unfolding b_def
    by (rule go [OF go [OF a Probe [of _ 1 True]] Probe_release]) (simp_all add: probe_cases a_def lock_init_def)
  define c where "c = set_phase 2 Launching (flock_release 2 (set_phase 2 Probing (b\<lparr>holder := Some 2\<rparr>)))"
  have c: "lock_reachable c" unfolding c_def
    by (rule go [OF go [OF b Probe [of _ 2 True]] Probe_release]) (simp_all add: probe_cases b_def a_def lock_init_def)
  have pc: "phases c = (\<lambda>_. Absent)(1 := Launching, 2 := Launching)" "holder c = None"
    by (auto simp: c_def b_def a_def lock_init_def)
  define d where "d = set_phase 3 Starting (set_phase 1 (Launched 3) c)"
  define e where "e = set_phase 4 Starting (set_phase 2 (Launched 4) d)"
  have e: "lock_reachable e" unfolding e_def
    by (rule go [OF go [OF c Spawn [of _ 1 3], folded d_def] Spawn]) (simp_all add: pc d_def)
  define f where "f = set_phase 4 Absent (set_phase 3 Holding (e\<lparr>holder := Some 3, lock_text := pid_text 3\<rparr>))"
  have f: "lock_reachable f" unfolding f_def
    by (rule go [OF go [OF e Acquire] Acquire_fails]) (simp_all add: acquire_Some acquire_None pc d_def e_def)
  have pf: "phases f = (\<lambda>_. Absent)(1 := Launched 3, 2 := Launched 4, 3 := Holding)"
    by (auto simp: f_def e_def d_def pc)
  define g where "g = set_phase 2 Absent (write_pid 4 (set_phase 3 Running (write_pid 3 f)))"
  have "lock_reachable g" unfolding g_def
    by (rule go [OF go [OF f lock_step.Write [of _ 3]] Record]) (simp_all add: pf)
  moreover have "read_existing_pid g = Some 4"
    using read_written [of 4 "set_phase 3 Running (write_pid 3 f)"] by (simp add: g_def read_existing_pid_def)
  ultimately show ?thesis by (intro exI [of _ g] exI [of _ 3] exI [of _ 4]) (simp add: g_def pf)
qed

subsection \<open>Witnesses\<close>

theorem lock_available_witness:
  "acquire_worker_lock 1 lock_init = Some (lock_init\<lparr>holder := Some 1, lock_text := pid_text 1\<rparr>)"
  using lock_available [OF initial, of 1] by (simp add: lock_init_def)

lemma running_reachable:
  "lock_reachable (set_phase 3 Running (write_pid 3 (set_phase 3 Holding
     ((set_phase 3 Starting (set_phase 1 (Launched 3) (set_phase 1 Launching (set_phase 1 Launcher lock_init))))
        \<lparr>holder := Some 3, lock_text := pid_text 3\<rparr>))))"
proof -
  note go = lock_reachable.further
  have wanted: "launch_wanted ann_sample_config" by (simp add: launch_wanted_def ann_sample_config_def)
  define a where "a = set_phase 3 Starting (set_phase 1 (Launched 3) (set_phase 1 Launching (set_phase 1 Launcher lock_init)))"
  have a: "lock_reachable a" unfolding a_def
    by (rule go [OF go [OF go [OF initial lock_step.Launch [OF _ wanted]] Probe_unopened] Spawn])
      (simp_all add: lock_init_def probe_cases)
  show ?thesis unfolding a_def [symmetric]
    by (rule go [OF go [OF a Acquire] lock_step.Write]) (simp_all add: acquire_Some a_def lock_init_def)
qed

theorem lock_exclusive_witness:
  "\<exists>s. lock_reachable s \<and> phases s 3 = Running \<and> holder s = Some 3"
  using lock_exclusive [OF running_reachable, of 3 3] running_reachable by fastforce

end
