(* ===== verification/Guard_Detect.thy ===== *)
theory Guard_Detect
  imports Announcer_Rcon Chat_Classify
begin

section \<open>\<open>50-rcon-live-guard.py\<close>: detecting RCON attempts and reading \<open>status\<close>\<close>

text \<open>
  The deprecated RCON guard: which lines of the server output count as an RCON attempt, which address
  they name, and which player of a \<open>status\<close> listing has that address.  A compiled pattern is its
  search function and its group names; \<open>re.compile\<close> is an argument where the operator gives patterns.
\<close>

subsection \<open>Helpers shared with the other scripts\<close>

definition guard_safe_int :: "json \<Rightarrow> int \<Rightarrow> int \<Rightarrow> int res" where
  "guard_safe_int = safe_int"

definition guard_safe_bool :: "json \<Rightarrow> bool \<Rightarrow> bool" where
  "guard_safe_bool = safe_bool"

definition guard_strip_ansi :: "string \<Rightarrow> string" where
  "guard_strip_ansi = strip_ansi"

definition guard_strip_quake_colors :: "string \<Rightarrow> string" where
  "guard_strip_quake_colors = strip_quake_colors"

definition normalize_player_name :: "string \<Rightarrow> string" where
  "normalize_player_name v = strip (guard_strip_quake_colors (guard_strip_ansi v))"

definition guard_escape_command_argument :: "string \<Rightarrow> string" where
  "guard_escape_command_argument = escape_command_argument"

lemmas guard_helper_defs = guard_safe_int_def guard_safe_bool_def guard_strip_ansi_def
  guard_strip_quake_colors_def guard_escape_command_argument_def

subsection \<open>Addresses\<close>

text \<open>\<open>s.rsplit(c, 1)\<close> for a text that contains the character.\<close>

definition rsplit_once :: "char \<Rightarrow> string \<Rightarrow> string \<times> string" where
  "rsplit_once c s = (let (b, a) = split_once c (rev s) in (rev a, rev b))"

definition isdigit :: "string \<Rightarrow> bool" where
  "isdigit s \<longleftrightarrow> s \<noteq> [] \<and> list_all is_digit_char s"

definition bare_ip :: "string \<Rightarrow> string" where
  "bare_ip address =
     (let addr = strip address
      in if startswith addr ''[''
         then (if CHR '']'' \<in> set addr then takeWhile (\<lambda>c. c \<noteq> CHR '']'') (tl addr) else tl addr)
         else if CHR '':'' \<in> set addr
         then (let (host, port) = rsplit_once (CHR '':'') addr in if isdigit port then host else addr)
         else addr)"

subsection \<open>Attempts\<close>

record pattern =
  p_search :: "string \<Rightarrow> caps option"
  p_groups :: "string list"

definition ip_port :: re where
  "ip_port = Grp ''ip'' (seqs [plus (Chr (\<lambda>c. \<not> is_space c \<and> c \<noteq> CHR '':'')), opt (seqs [lit '':'', plus digit])])"

definition attempt_re :: "string \<Rightarrow> re" where
  "attempt_re phrase = seqs [ilit phrase, ip_port, lit '':'', star ws, Grp ''command'' (star dot)]"

definition address_re :: "string \<Rightarrow> re" where
  "address_re phrase = seqs [ilit phrase, ip_port]"

definition compiled_re :: "re \<Rightarrow> string list \<Rightarrow> pattern" where
  "compiled_re r groups = \<lparr>p_search = re_search r, p_groups = groups\<rparr>"

text \<open>The five shipped patterns as text, and compiled with \<open>re.IGNORECASE\<close>.\<close>

definition raw_rcon_patterns :: "string list" where
  "raw_rcon_patterns =
     [''Bad rcon from (?P<ip>[^'' @ [CHR 0x5C] @ ''s:]+(?::'' @ [CHR 0x5C] @ ''d+)?):'' @ [CHR 0x5C] @ ''s*(?P<command>.*)'',
      ''bad rconpassword from (?P<ip>[^'' @ [CHR 0x5C] @ ''s:]+(?::'' @ [CHR 0x5C] @ ''d+)?)'',
      ''Rcon from (?P<ip>[^'' @ [CHR 0x5C] @ ''s:]+(?::'' @ [CHR 0x5C] @ ''d+)?):'' @ [CHR 0x5C] @ ''s*(?P<command>.*)'',
      ''rcon from (?P<ip>[^'' @ [CHR 0x5C] @ ''s:]+(?::'' @ [CHR 0x5C] @ ''d+)?):'' @ [CHR 0x5C] @ ''s*(?P<command>.*)'',
      ''remote command from (?P<ip>[^'' @ [CHR 0x5C] @ ''s:]+(?::'' @ [CHR 0x5C] @ ''d+)?)'']"

definition default_rcon_patterns :: "pattern list" where
  "default_rcon_patterns =
     [compiled_re (attempt_re ''Bad rcon from '') [''ip'', ''command''],
      compiled_re (address_re ''bad rconpassword from '') [''ip''],
      compiled_re (attempt_re ''Rcon from '') [''ip'', ''command''],
      compiled_re (attempt_re ''rcon from '') [''ip'', ''command''],
      compiled_re (address_re ''remote command from '') [''ip'']]"

text \<open>\<open>compile_patterns\<close>; \<open>re_compile\<close> gives \<open>None\<close> for \<open>re.error\<close>.\<close>

fun compile_patterns :: "(string \<Rightarrow> pattern option) \<Rightarrow> json list \<Rightarrow> pattern list" where
  "compile_patterns re_compile [] = []"
| "compile_patterns re_compile (raw # raws) =
     (case raw of
        JStr s \<Rightarrow>
          (case re_compile s of
             None \<Rightarrow> compile_patterns re_compile raws
           | Some p \<Rightarrow> if ''ip'' \<notin> set (p_groups p) then compile_patterns re_compile raws
                       else p # compile_patterns re_compile raws)
      | _ \<Rightarrow> compile_patterns re_compile raws)"

text \<open>
  \<open>match.group\<close> of a group that took no part in the match is \<open>None\<close>, and \<open>.strip()\<close> of it raises
  \<open>AttributeError\<close>.
\<close>

definition group_strip :: "caps \<Rightarrow> string \<Rightarrow> string res" where
  "group_strip cs n = (case group cs n of None \<Rightarrow> Inl AttributeError | Some t \<Rightarrow> Inr (strip t))"

definition attempt_of :: "pattern \<Rightarrow> caps \<Rightarrow> (string \<times> string option) res" where
  "attempt_of p cs =
     bindR (group_strip cs ''ip'') (\<lambda>ip_str.
       if ''command'' \<in> set (p_groups p)
       then bindR (group_strip cs ''command'') (\<lambda>c. Inr (ip_str, if c \<noteq> [] then Some c else None))
       else Inr (ip_str, None))"

fun detect_in :: "pattern list \<Rightarrow> string \<Rightarrow> (string \<times> string option) option res" where
  "detect_in [] cleaned = Inr None"
| "detect_in (p # ps) cleaned =
     (case p_search p cleaned of
        None \<Rightarrow> detect_in ps cleaned
      | Some cs \<Rightarrow> bindR (attempt_of p cs) (\<lambda>r. Inr (Some r)))"

definition try_detect_rcon_attempt :: "string \<Rightarrow> pattern list \<Rightarrow> (string \<times> string option) option res" where
  "try_detect_rcon_attempt line patterns = detect_in patterns (guard_strip_ansi line)"

definition is_ignored_ip :: "string \<Rightarrow> string list \<Rightarrow> bool" where
  "is_ignored_ip source_address ignore_list \<longleftrightarrow> lower (bare_ip source_address) \<in> set ignore_list"

subsection \<open>The \<open>status\<close> listing\<close>

definition status_player_re :: re where
  "status_player_re = seqs
     [Bol, star ws, Grp ''slot'' (plus digit), plus ws, plus (Chr (\<lambda>c. c = CHR ''-'' \<or> is_decimal c)), plus ws,
      plus digit, plus ws,
      Grp ''name'' (lazy_plus dot), plus ws,
      plus digit, plus ws,
      Grp ''address'' (seqs [digits_1_3, lit ''.'', digits_1_3, lit ''.'', digits_1_3, lit ''.'', digits_1_3,
                           opt (seqs [lit '':'', plus digit])]),
      plus ws, plus digit, plus ws, plus digit]"

definition status_header_re :: re where
  "status_header_re = seqs [Bol, star ws, ilit ''num'', plus ws, ilit ''score'', plus ws, ilit ''ping'', plus ws, ilit ''name'']"

definition status_separator_re :: re where
  "status_separator_re = seqs [Bol, plus (Chr (\<lambda>c. c = CHR ''-'' \<or> is_space c)), Eol]"

record player =
  pl_slot :: int
  pl_name :: string
  pl_address :: string

definition status_line ::
  "string \<Rightarrow> bool \<times> player list \<Rightarrow> (bool \<times> player list) res" where
  "status_line line st =
     (let (in_players, players) = st
      in if re_match status_header_re line \<noteq> None then Inr (True, players)
         else if \<not> in_players then Inr st
         else if re_match status_separator_re line \<noteq> None then Inr st
         else case re_match status_player_re line of
                None \<Rightarrow> Inr st
              | Some cs \<Rightarrow>
                  bindR (py_int_text (named_group cs ''slot'')) (\<lambda>slot.
                    Inr (True, players @ [\<lparr>pl_slot = slot,
                           pl_name = normalize_player_name (named_group cs ''name''),
                           pl_address = strip (named_group cs ''address'')\<rparr>])))"

definition parse_status_players :: "string \<Rightarrow> player list res" where
  "parse_status_players status_text =
     bindR (foldR status_line (splitlines status_text) (False, [])) (\<lambda>(_, players). Inr players)"

fun find_player_slot_by_ip :: "player list \<Rightarrow> string \<Rightarrow> (int \<times> string) option" where
  "find_player_slot_by_ip [] source_address = None"
| "find_player_slot_by_ip (p # ps) source_address =
     (if bare_ip (pl_address p) = bare_ip source_address then Some (pl_slot p, pl_name p)
      else find_player_slot_by_ip ps source_address)"

subsection \<open>The self-test\<close>

definition default_ignore_ip_hosts :: "string list" where
  "default_ignore_ip_hosts = [''127.0.0.1'', ''::1'', ''localhost'']"

definition selftest_cases :: "(string \<times> string option) list" where
  "selftest_cases =
     [(''Bad rcon from 203.0.113.1:29072: status'', Some ''203.0.113.1:29072''),
      (''bad rconpassword from 203.0.113.5'', Some ''203.0.113.5''),
      (''Rcon from 203.0.113.2:50000: map mp/ffa3'', Some ''203.0.113.2:50000''),
      (''rcon from 203.0.113.3:12345: kick 0'', Some ''203.0.113.3:12345''),
      (''remote command from 203.0.113.4'', Some ''203.0.113.4''),
      (''say: Akion: hello'', None),
      (''ClientConnect: 0 [203.0.113.1] (GUID) '' @ [CHR 0x22] @ ''Akion'' @ [CHR 0x22], None),
      ('''', None),
      (''Bad rcon from 127.0.0.1:29072: status'', Some ''127.0.0.1:29072'')]"

definition status_parse_cases :: "(string \<times> player list) list" where
  "status_parse_cases =
     [(''map: mp/ffa3'' @ [CHR 0x0A] @
       ''num score ping name            lastmsg address               qport rate'' @ [CHR 0x0A] @
       ''--- ----- ---- --------------- ------- --------------------- ----- -----'' @ [CHR 0x0A] @
       ''  0     0  999 ^7Akion               0 203.0.113.1:29071        32000 25000'' @ [CHR 0x0A] @
       ''  1    10   50 Robin               0 203.0.113.5:45678        32000 25000'' @ [CHR 0x0A],
       [\<lparr>pl_slot = 0, pl_name = ''Akion'', pl_address = ''203.0.113.1:29071''\<rparr>,
        \<lparr>pl_slot = 1, pl_name = ''Robin'', pl_address = ''203.0.113.5:45678''\<rparr>]),
      (''map: mp/duel1'' @ [CHR 0x0A], [])]"

text \<open>A case fails by its reading of the address, or by the players read.\<close>

definition detect_case_fails :: "pattern list \<Rightarrow> string \<times> string option \<Rightarrow> bool res" where
  "detect_case_fails compiled c =
     bindR (try_detect_rcon_attempt (fst c) compiled) (\<lambda>detected.
       let actual = map_option fst detected;
           ignored = (case actual of None \<Rightarrow> False | Some a \<Rightarrow> is_ignored_ip a (map lower default_ignore_ip_hosts))
       in Inr (case (snd c, actual) of
                 (None, Some _) \<Rightarrow> \<not> ignored
               | (Some e, a) \<Rightarrow> a \<noteq> Some e
               | (None, None) \<Rightarrow> False))"

definition status_case_fails :: "string \<times> player list \<Rightarrow> bool res" where
  "status_case_fails c = bindR (parse_status_players (fst c)) (\<lambda>parsed. Inr (parsed \<noteq> snd c))"

definition count_failures :: "('a \<Rightarrow> bool res) \<Rightarrow> 'a list \<Rightarrow> int \<Rightarrow> int res" where
  "count_failures fails cases n =
     foldR (\<lambda>c n. bindR (fails c) (\<lambda>b. Inr (if b then n + 1 else n))) cases n"

definition run_selftest :: "(string \<Rightarrow> pattern option) \<Rightarrow> int res" where
  "run_selftest re_compile =
     bindR (count_failures (detect_case_fails (compile_patterns re_compile (map JStr raw_rcon_patterns)))
              selftest_cases 0) (\<lambda>n.
     bindR (count_failures status_case_fails status_parse_cases n) (\<lambda>failures.
       Inr (if failures \<noteq> 0 then 1 else 0)))"

subsection \<open>Facts: the shipped patterns\<close>

text \<open>What is relied on of \<open>re.compile\<close>: it compiles the shipped patterns as they are read above.\<close>

definition compiles_defaults :: "(string \<Rightarrow> pattern option) \<Rightarrow> bool" where
  "compiles_defaults re_compile \<longleftrightarrow> map re_compile raw_rcon_patterns = map Some default_rcon_patterns"

definition sample_compile :: "string \<Rightarrow> pattern option" where
  "sample_compile = map_of (zip raw_rcon_patterns default_rcon_patterns)"

lemma raw_rcon_patterns_distinct: "distinct raw_rcon_patterns"
  by code_simp

lemma sample_compiles: "compiles_defaults sample_compile"
proof -
  have "length raw_rcon_patterns = length default_rcon_patterns"
    by (simp add: raw_rcon_patterns_def default_rcon_patterns_def)
  then show ?thesis
    by (auto simp: compiles_defaults_def sample_compile_def list_eq_iff_nth_eq map_of_zip_nth raw_rcon_patterns_distinct)
qed

lemma default_patterns_have_ip: "list_all (\<lambda>p. ''ip'' \<in> set (p_groups p)) default_rcon_patterns"
  by (simp add: default_rcon_patterns_def compiled_re_def)

lemma compile_all:
  "map re_compile raws = map Some ps \<Longrightarrow> list_all (\<lambda>p. ''ip'' \<in> set (p_groups p)) ps \<Longrightarrow>
   compile_patterns re_compile (map JStr raws) = ps"
proof (induction raws arbitrary: ps)
  case (Cons r raws)
  then show ?case by (cases ps) auto
qed simp

lemma compile_defaults: "compiles_defaults re_compile \<Longrightarrow>
  compile_patterns re_compile (map JStr raw_rcon_patterns) = default_rcon_patterns"
  unfolding compiles_defaults_def by (rule compile_all [OF _ default_patterns_have_ip])

lemma selftest_detection: "count_failures (detect_case_fails default_rcon_patterns) selftest_cases 0 = Inr 0"
  by code_simp

lemma selftest_status: "count_failures status_case_fails status_parse_cases 0 = Inr 0"
  by code_simp

text \<open>
  The self-test of the guard passes: every shipped sample line is read as its table says, and the
  two sample \<open>status\<close> listings give the listed players.
\<close>

theorem guard_selftest:
  assumes "compiles_defaults re_compile"
  shows "run_selftest re_compile = Inr 0"
  by (simp add: run_selftest_def compile_defaults [OF assms] selftest_detection selftest_status)

theorem guard_selftest_witness: "run_selftest sample_compile = Inr 0"
  by (rule guard_selftest [OF sample_compiles])

end
