(* ===== verification/Guard_Config.thy ===== *)
theory Guard_Config
  imports Guard_Detect Py_Format
begin

section \<open>\<open>50-rcon-live-guard.py\<close>: configuration and runtime environment\<close>

text \<open>
  \<open>load_config\<close> reads one JSON file of the operator and validates it; the runtime environment differs from
  that of the other addons in its six keys and in its fallback for badly quoted values.  \<open>re.compile\<close>
  and the format mini-language beyond plain fields are part of the environment record.
\<close>

record guard_env =
  ge_os :: os_env
  ge_compile :: "string \<Rightarrow> pattern option"
  ge_ext :: fmt_ext

record guard_config =
  gc_enabled :: bool
  gc_host :: string
  gc_timeout :: int
  gc_fallback :: bool
  gc_log_file :: string
  gc_period :: int
  gc_command :: string
  gc_kick_template :: string
  gc_broadcast_template :: string
  gc_ignore :: "string list"
  gc_patterns :: "pattern list"

subsection \<open>Configuration\<close>

definition guard_config_path :: string where
  "guard_config_path = home_container @ ''/addons/50-rcon-live-guard.config.json''"

definition guard_log_path :: string where
  "guard_log_path = home_container @ ''/logs/live-rcon-guard.log''"

definition default_kick_template :: string where
  "default_kick_template = ''clientkick {slot}''"

definition default_broadcast_template :: string where
  "default_broadcast_template = ''^1{player} was kicked for attempting to access server RCON.''"

definition guard_default_config :: dict where
  "guard_default_config =
     [(''enabled'', JBool True),
      (''rcon_host'', JStr ''127.0.0.1''),
      (''rcon_timeout_seconds'', JInt 3),
      (''broadcast_command'', JStr ''svsay''),
      (''kick_command_template'', JStr default_kick_template),
      (''broadcast_template'', JStr default_broadcast_template),
      (''log_file'', JStr guard_log_path),
      (''fallback_to_server_log'', JBool True),
      (''ignore_ip_hosts'', JList (map JStr default_ignore_ip_hosts)),
      (''rcon_attempt_patterns'', JList (map JStr raw_rcon_patterns)),
      (''min_seconds_between_actions'', JInt 10)]"

text \<open>\<open>config\<close> after the file was read; a missing, unreadable or malformed file leaves the defaults.\<close>

definition guard_loaded :: "os_env \<Rightarrow> dict res" where
  "guard_loaded os =
     (if \<not> is_file os guard_config_path then Inr guard_default_config
      else case bindR (read_text os guard_config_path) (json_loads os) of
             Inl e \<Rightarrow> if e = JSONDecodeError \<or> e = OSError then Inr guard_default_config else Inl e
           | Inr (JObj loaded) \<Rightarrow> Inr (dict_update guard_default_config loaded)
           | Inr _ \<Rightarrow> Inr guard_default_config)"

definition guard_text :: "dict \<Rightarrow> string \<Rightarrow> string \<Rightarrow> string" where
  "guard_text config key dflt =
     (let v = strip (py_str (get_default config key (JStr dflt))) in if v \<noteq> [] then v else dflt)"

definition guard_broadcast_command :: "dict \<Rightarrow> string" where
  "guard_broadcast_command config =
     (let c = lower (strip (py_str (get_default config ''broadcast_command'' (JStr ''svsay''))))
      in if c \<notin> {''say'', ''svsay''} then ''svsay'' else c)"

definition guard_ignore_list :: "dict \<Rightarrow> string list" where
  "guard_ignore_list config =
     (let raw = (case get_default config ''ignore_ip_hosts'' (JList (map JStr default_ignore_ip_hosts)) of
                   JList hs \<Rightarrow> hs | _ \<Rightarrow> map JStr default_ignore_ip_hosts)
      in map (\<lambda>h. lower (strip (py_str h))) (filter truthy raw))"

definition guard_pattern_list :: "(string \<Rightarrow> pattern option) \<Rightarrow> dict \<Rightarrow> pattern list" where
  "guard_pattern_list re_compile config =
     compile_patterns re_compile
       (case get_default config ''rcon_attempt_patterns'' (JList (map JStr raw_rcon_patterns)) of
          JList (p # ps) \<Rightarrow> p # ps | _ \<Rightarrow> map JStr raw_rcon_patterns)"

definition guard_validate :: "(string \<Rightarrow> pattern option) \<Rightarrow> dict \<Rightarrow> guard_config res" where
  "guard_validate re_compile config =
     bindR (guard_safe_int (get_none config ''rcon_timeout_seconds'') 3 1) (\<lambda>timeout.
     bindR (guard_safe_int (get_none config ''min_seconds_between_actions'') 10 0) (\<lambda>period.
       Inr \<lparr>gc_enabled = guard_safe_bool (get_default config ''enabled'' (JBool True)) True,
            gc_host = guard_text config ''rcon_host'' ''127.0.0.1'',
            gc_timeout = timeout,
            gc_fallback = guard_safe_bool (get_default config ''fallback_to_server_log'' (JBool True)) True,
            gc_log_file = guard_text config ''log_file'' guard_log_path,
            gc_period = period,
            gc_command = guard_broadcast_command config,
            gc_kick_template = guard_text config ''kick_command_template'' default_kick_template,
            gc_broadcast_template =
              strip (py_str (get_default config ''broadcast_template'' (JStr default_broadcast_template))),
            gc_ignore = guard_ignore_list config,
            gc_patterns = guard_pattern_list re_compile config\<rparr>))"

definition guard_load_config :: "guard_env \<Rightarrow> guard_config res" where
  "guard_load_config env = bindR (guard_loaded (ge_os env)) (guard_validate (ge_compile env))"

subsection \<open>Runtime environment\<close>

definition guard_tracked_keys :: "string list" where
  "guard_tracked_keys =
     [''TAYSTJK_ACTIVE_SERVER_CONFIG_PATH'', ''TAYSTJK_ACTIVE_SERVER_LOG_PATH'',
      ''TAYSTJK_EFFECTIVE_SERVER_PORT'', ''TAYSTJK_EFFECTIVE_SERVER_RCON_PASSWORD'',
      ''TAYSTJK_LIVE_OUTPUT_ENABLED'', ''TAYSTJK_LIVE_OUTPUT_PATH'']"

text \<open>A value that \<open>shlex\<close> rejects is taken as it is, without the quotes around it.\<close>

definition guard_tokens :: "string \<Rightarrow> string list res" where
  "guard_tokens raw_value =
     catchR (shlex_split raw_value) is_value_error
       (\<lambda>_. Inr [strip_chars [CHR 0x22, CHR 0x27] (strip raw_value)])"

definition guard_env_line :: "string \<Rightarrow> (string, string) pydict \<Rightarrow> (string, string) pydict res" where
  "guard_env_line raw_line state =
     (let line = strip raw_line
      in if line = [] \<or> CHR ''='' \<notin> set line then Inr state
         else let (k, raw_value) = split_once (CHR ''='') line;
                  key = strip k
              in if key \<notin> set guard_tracked_keys then Inr state
                 else bindR (guard_tokens raw_value) (\<lambda>tokens.
                        case tokens of
                          [] \<Rightarrow> Inr state
                        | t # _ \<Rightarrow> Inr (dict_setdefault key t state)))"

definition guard_load_runtime_env :: "os_env \<Rightarrow> (string, string) pydict res" where
  "guard_load_runtime_env os =
     (let state = runtime_from_environ os guard_tracked_keys
      in if is_file os runtime_env_path
         then catchR (bindR (read_text os runtime_env_path) (\<lambda>t. foldR guard_env_line (splitlines t) state))
                (\<lambda>e. e = OSError) (\<lambda>_. Inr state)
         else Inr state)"

text \<open>The path to follow and its label.\<close>

definition preferred_tail_source :: "os_env \<Rightarrow> guard_config \<Rightarrow> (string \<times> string) option res" where
  "preferred_tail_source os config =
     bindR (guard_load_runtime_env os) (\<lambda>runtime.
       let enabled = (lower (strip (dict_get_str runtime ''TAYSTJK_LIVE_OUTPUT_ENABLED'')) = ''true'');
           live_path = strip (dict_get_str runtime ''TAYSTJK_LIVE_OUTPUT_PATH'');
           server_log = strip (dict_get_str runtime ''TAYSTJK_ACTIVE_SERVER_LOG_PATH'')
       in Inr (if enabled \<and> live_path \<noteq> [] then Some (live_path, ''live-output'')
               else if \<not> gc_fallback config then None
               else if server_log = [] then None
               else Some (server_log, ''server-log'')))"

definition guard_effective_rcon_password :: "os_env \<Rightarrow> string option res" where
  "guard_effective_rcon_password os =
     bindR (guard_load_runtime_env os) (\<lambda>runtime.
       let direct = strip (dict_get_str runtime ''TAYSTJK_EFFECTIVE_SERVER_RCON_PASSWORD'')
       in if direct \<noteq> [] then Inr (Some direct)
          else let config_path_str = strip (dict_get_str runtime ''TAYSTJK_ACTIVE_SERVER_CONFIG_PATH'');
                   config_path =
                     (if config_path_str = []
                      then path_join (path_join home_container (env_or os ''FS_GAME_MOD'' ''taystjk''))
                             (env_or os ''SERVER_CONFIG'' ''server.cfg'')
                      else config_path_str)
               in Inr (if is_file os config_path
                       then case read_text_replace os config_path of
                              Inr t \<Rightarrow> password_of_lines (splitlines t)
                            | Inl _ \<Rightarrow> None
                       else None))"

definition guard_current_server_port :: "os_env \<Rightarrow> int res" where
  "guard_current_server_port os =
     bindR (guard_load_runtime_env os) (\<lambda>runtime.
       let raw = strip (dict_get_str runtime ''TAYSTJK_EFFECTIVE_SERVER_PORT'')
       in if raw \<noteq> [] then guard_safe_int (JStr raw) 29070 1
          else guard_safe_int (JStr (getenv os ''SERVER_PORT'' ''29070'')) 29070 1)"

end
