(* ===== verification/Guard_Enforce.thy ===== *)
theory Guard_Enforce
  imports Guard_Config Event_Machine
begin

section \<open>\<open>50-rcon-live-guard.py\<close>: enforcement and the worker loop\<close>

text \<open>
  One line of the followed output is one step of \<open>guard_line\<close>.  The input holds what the step reads: the
  line, the monotonic clock, the surroundings of the three RCON exchanges.  The state is the cooldown
  table and a trace of the enforcements: the input, the address, the datagrams sent and the result.  Lines of the guard's own log
  are not modelled.
\<close>

subsection \<open>One RCON exchange\<close>

text \<open>
  Code points beyond Latin-1, above all the replacement character, are read as a question mark: no
  character of the kinds the patterns ask for.
\<close>

definition narrow_char :: "int \<Rightarrow> char" where
  "narrow_char c = (if 0 \<le> c \<and> c < 256 then char_of c else CHR ''?'')"

definition guard_reply :: "byte list \<Rightarrow> string" where
  "guard_reply response = map narrow_char (reply_text response)"

text \<open>
  \<open>OSError\<close>, the timeout among them, gives the empty text; the \<open>OverflowError\<close> of an impossible port or
  timeout is not caught.
\<close>

definition guard_send_rcon_command ::
  "net \<Rightarrow> string \<Rightarrow> int \<Rightarrow> string \<Rightarrow> int \<Rightarrow> string \<Rightarrow> datagram list \<times> string res" where
  "guard_send_rcon_command net host port password timeout_seconds command =
     (let d = \<lparr>d_host = host, d_port = port, d_payload = rcon_payload password command\<rparr>
      in case socket_check port timeout_seconds of
           Some e \<Rightarrow> ([], Inl e)
         | None \<Rightarrow>
             (case net of
                SendFails e \<Rightarrow> ([], if e = OSError then Inr [] else Inl e)
              | TimesOut \<Rightarrow> ([d], Inr [])
              | RecvFails e \<Rightarrow> ([d], if e = OSError then Inr [] else Inl e)
              | Replies response \<Rightarrow> ([d], Inr (guard_reply response))))"

subsection \<open>Enforcement\<close>

record guard_input =
  gi_env :: guard_env
  gi_status :: net
  gi_kick :: net
  gi_broadcast :: net
  gi_now :: rat
  gi_line :: string

text \<open>A computation that sends datagrams and may raise.\<close>

definition bindS :: "datagram list \<times> 'a res \<Rightarrow> ('a \<Rightarrow> datagram list \<times> 'b res) \<Rightarrow> datagram list \<times> 'b res" where
  "bindS m f = (case snd m of Inl e \<Rightarrow> (fst m, Inl e) | Inr a \<Rightarrow> (fst m @ fst (f a), snd (f a)))"

definition quietS :: "'a res \<Rightarrow> datagram list \<times> 'a res" where
  "quietS r = ([], r)"

definition guard_broadcast_line :: "guard_config \<Rightarrow> string \<Rightarrow> string" where
  "guard_broadcast_line config msg =
     gc_command config @ '' '' @ [CHR 0x22] @ guard_escape_command_argument msg @ [CHR 0x22]"

text \<open>The second half of \<open>enforce_rcon_attempt\<close>: kick and broadcast for the player found.\<close>

definition punish ::
  "guard_input \<Rightarrow> guard_config \<Rightarrow> int \<Rightarrow> string \<Rightarrow> string \<Rightarrow> int \<times> string \<Rightarrow> datagram list \<times> bool res" where
  "punish inp config port password source_address found =
     (let (slot, player_name) = found;
          player_display = (if player_name \<noteq> [] then player_name else bare_ip source_address);
          ext = ge_ext (gi_env inp);
          send = (\<lambda>net cmd. guard_send_rcon_command net (gc_host config) port password (gc_timeout config) cmd)
      in bindS (quietS (py_format ext [(''slot'', JInt slot)] (gc_kick_template config))) (\<lambda>kick_cmd.
         bindS (send (gi_kick inp) kick_cmd) (\<lambda>_.
         bindS (quietS (py_format ext
                  [(''player'', JStr (guard_escape_command_argument player_display)),
                   (''slot'', JInt slot), (''ip'', JStr (bare_ip source_address))]
                  (gc_broadcast_template config))) (\<lambda>msg.
         bindS (send (gi_broadcast inp) (guard_broadcast_line config msg)) (\<lambda>_. ([], Inr True))))))"

definition players_of :: "string \<Rightarrow> player list res" where
  "players_of status_text = (if status_text \<noteq> [] then parse_status_players status_text else Inr [])"

definition enforce_rcon_attempt ::
  "guard_input \<Rightarrow> string \<Rightarrow> guard_config \<Rightarrow> datagram list \<times> bool res" where
  "enforce_rcon_attempt inp source_address config =
     (let os = ge_os (gi_env inp)
      in bindS (quietS (guard_effective_rcon_password os)) (\<lambda>pw.
         case pw of
           None \<Rightarrow> ([], Inr False)
         | Some password \<Rightarrow>
             if password = [] then ([], Inr False)
             else bindS (quietS (guard_current_server_port os)) (\<lambda>port.
                  bindS (guard_send_rcon_command (gi_status inp) (gc_host config) port password
                           (gc_timeout config) ''status'') (\<lambda>status_text.
                  bindS (quietS (players_of status_text)) (\<lambda>players.
                    case find_player_slot_by_ip players source_address of
                      None \<Rightarrow> ([], Inr False)
                    | Some found \<Rightarrow> punish inp config port password source_address found)))))"

subsection \<open>The loop\<close>

record guard_action =
  ga_input :: guard_input
  ga_source :: string
  ga_sent :: "datagram list"
  ga_result :: "bool res"

record guard_state =
  last_action_for_ip :: "(string, rat) pydict"
  actions :: "guard_action list"

definition guard_init :: guard_state where
  "guard_init = \<lparr>last_action_for_ip = [], actions = []\<rparr>"

text \<open>The cooldown per address; an address not yet seen counts as seen at time zero.\<close>

definition guard_gate :: "int \<Rightarrow> string \<Rightarrow> rat \<Rightarrow> (string, rat) pydict \<Rightarrow> (string, rat) pydict option" where
  "guard_gate period ip now table =
     (let last = (case dict_get table ip of Some t \<Rightarrow> t | None \<Rightarrow> 0)
      in if period > 0 \<and> now - last < of_int period then None else Some (dict_set ip now table))"

text \<open>Any exception of the enforcement is logged and the loop goes on.\<close>

definition guard_line :: "guard_config \<Rightarrow> guard_input \<Rightarrow> guard_state \<Rightarrow> guard_state res" where
  "guard_line config inp st =
     bindR (try_detect_rcon_attempt (gi_line inp) (gc_patterns config)) (\<lambda>detected.
       case detected of
         None \<Rightarrow> Inr st
       | Some (source_address, attempted_command) \<Rightarrow>
           if is_ignored_ip source_address (gc_ignore config) then Inr st
           else (case guard_gate (gc_period config) (bare_ip source_address) (gi_now inp) (last_action_for_ip st) of
                   None \<Rightarrow> Inr st
                 | Some table \<Rightarrow>
                     (let (sent, r) = enforce_rcon_attempt inp source_address config
                      in Inr \<lparr>last_action_for_ip = table,
                              actions = actions st @ [\<lparr>ga_input = inp, ga_source = source_address,
                                                       ga_sent = sent, ga_result = r\<rparr>]\<rparr>)))"

text \<open>
  \<open>run_worker\<close> behind the lock, over the lines that the processes \<open>tail\<close> give: a disabled guard returns at
  once; the start-up diagnostics read password, port and runtime environment.
\<close>

definition guard_diagnostics :: "os_env \<Rightarrow> unit res" where
  "guard_diagnostics os =
     bindR (guard_load_runtime_env os) (\<lambda>_.
     bindR (guard_effective_rcon_password os) (\<lambda>_.
     bindR (guard_current_server_port os) (\<lambda>_. Inr ())))"

text \<open>
  What a pass of the outer loop does before it reads lines: no source, a source that does not exist
  yet, a \<open>tail\<close> that does not start, or lines to read.  The numbers are the seconds slept.  \<open>gp_exists\<close> is the
  answer of \<open>exists()\<close> to the loop, which asks after the source was chosen and takes a directory, too.
\<close>

datatype tail_outcome = NoSource int | NotPresent int | TailFails int | Follow string

record guard_pass_input =
  gp_os :: os_env
  gp_exists :: "string \<Rightarrow> bool"
  gp_starts :: bool
  gp_lines :: "guard_input list"

definition tail_plan :: "guard_config \<Rightarrow> guard_pass_input \<Rightarrow> int \<Rightarrow> tail_outcome res" where
  "tail_plan config p backoff =
     bindR (preferred_tail_source (gp_os p) config) (\<lambda>target.
       Inr (case target of
              None \<Rightarrow> NoSource 5
            | Some (tail_path, source_label) \<Rightarrow>
                if \<not> gp_exists p tail_path then NotPresent 2
                else if \<not> gp_starts p then TailFails backoff
                else Follow tail_path))"

text \<open>One pass of the outer loop, with the backoff and the seconds slept in it.\<close>

record guard_worker =
  gw_state :: guard_state
  gw_backoff :: int
  gw_slept :: "int list"

definition guard_worker_init :: guard_worker where
  "guard_worker_init = \<lparr>gw_state = guard_init, gw_backoff = 1, gw_slept = []\<rparr>"

definition guard_pass :: "guard_config \<Rightarrow> guard_pass_input \<Rightarrow> guard_worker \<Rightarrow> guard_worker res" where
  "guard_pass config p w =
     bindR (tail_plan config p (gw_backoff w)) (\<lambda>plan.
       case plan of
         NoSource n \<Rightarrow> Inr (w\<lparr>gw_slept := gw_slept w @ [n]\<rparr>)
       | NotPresent n \<Rightarrow> Inr (w\<lparr>gw_slept := gw_slept w @ [n]\<rparr>)
       | TailFails n \<Rightarrow> Inr (w\<lparr>gw_slept := gw_slept w @ [n], gw_backoff := min (gw_backoff w * 2) 30\<rparr>)
       | Follow _ \<Rightarrow>
           bindR (foldR (guard_line config) (gp_lines p) (gw_state w)) (\<lambda>st.
             Inr \<lparr>gw_state = st, gw_backoff = 1, gw_slept = gw_slept w @ [1]\<rparr>))"

definition guard_worker_main :: "guard_env \<Rightarrow> guard_pass_input list \<Rightarrow> guard_worker res" where
  "guard_worker_main env passes =
     bindR (guard_load_config env) (\<lambda>config.
       if \<not> gc_enabled config then Inr guard_worker_init
       else bindR (guard_diagnostics (ge_os env)) (\<lambda>_. foldR (guard_pass config) passes guard_worker_init))"

end
