(* ===== verification/Guard_Patterns.thy ===== *)
theory Guard_Patterns
  imports Guard_Detect
begin

section \<open>Facts about the patterns of \<open>50-rcon-live-guard.py\<close>\<close>

text \<open>
  Which groups every match of a pattern captures, how the greedy matcher runs through a text it fits, and
  what follows for the shipped patterns: detection never raises, an attempt line of the engine is
  read exactly, and the same words anywhere in a line are an attempt as well.
\<close>

subsection \<open>Groups that always take part\<close>

fun always_captures :: "string \<Rightarrow> re \<Rightarrow> bool" where
  "always_captures n (Seq r q) \<longleftrightarrow> always_captures n r \<or> always_captures n q"
| "always_captures n (Alt r q) \<longleftrightarrow> always_captures n r \<and> always_captures n q"
| "always_captures n (Grp m r) \<longleftrightarrow> m = n \<or> always_captures n r"
| "always_captures n _ \<longleftrightarrow> False"

lemma captures_grow: "st' \<in> set (matches r st) \<Longrightarrow> set (snd (snd st)) \<subseteq> set (snd (snd st'))"
  by (drule matches_sound) (auto simp: consumes_def)

lemma always_captured:
  "always_captures n r \<Longrightarrow> st' \<in> set (matches r st) \<Longrightarrow> n \<in> fst ` set (snd (snd st'))"
proof (induction r arbitrary: st st')
  case (Seq r q)
  then obtain st1 where st1: "st1 \<in> set (matches r st)" "st' \<in> set (matches q st1)" by auto
  from Seq.prems(1) Seq.IH(1) [OF _ st1(1)] Seq.IH(2) [OF _ st1(2)] captures_grow [OF st1(2)]
  show ?case by auto
next
  case (Grp m r)
  then obtain st1 where st1: "st1 \<in> set (matches r st)" "st' = capture m st st1" by auto
  from Grp.prems(1) Grp.IH [OF _ st1(1)] st1(2) show ?case by (auto simp: capture_def)
qed auto

lemma match_at_in: "match_at r pv s = Some m \<Longrightarrow> m \<in> set (matches r (pv, s, []))"
  by (auto simp: match_at_def split: list.splits)

lemma search_from_match: "search_from r pv s = Some cs \<Longrightarrow> \<exists>pv t m. match_at r pv t = Some m \<and> cs = snd (snd m)"
proof (induction r pv s rule: search_from.induct)
  case (1 r pv s)
  show ?case
  proof (cases "match_at r pv s")
    case (Some m)
    with 1(2) have "cs = snd (snd m)" by (simp add: search_from.simps [of r pv s])
    with Some show ?thesis by blast
  next
    case None
    then obtain c t where s: "s = c # t" and t: "search_from r (Some c) t = Some cs"
      using 1(2) by (auto simp: search_from.simps [of r pv s] split: list.splits)
    from 1(1) [OF None s t] show ?thesis .
  qed
qed

lemma search_captured:
  assumes "re_search r s = Some cs" "always_captures n r"
  shows "\<exists>t. group cs n = Some t"
proof -
  from search_from_match [of r None s] assms(1) obtain pv t m where
    m: "match_at r pv t = Some m" "cs = snd (snd m)" by (auto simp: re_search_def)
  from always_captured [OF assms(2) match_at_in [OF m(1)]] m(2) show ?thesis
    unfolding group_def by (metis map_of_eq_None_iff not_None_eq)
qed

text \<open>A pattern whose groups are all captured by every match never makes \<open>group_strip\<close> raise.\<close>

definition sound_pattern :: "pattern \<Rightarrow> bool" where
  "sound_pattern p \<longleftrightarrow> (\<forall>s cs. p_search p s = Some cs \<longrightarrow>
     (\<exists>t. group cs ''ip'' = Some t) \<and> (''command'' \<in> set (p_groups p) \<longrightarrow> (\<exists>t. group cs ''command'' = Some t)))"

lemma compiled_re_sound:
  "always_captures ''ip'' r \<Longrightarrow> (''command'' \<in> set gs \<Longrightarrow> always_captures ''command'' r) \<Longrightarrow>
   sound_pattern (compiled_re r gs)"
  by (auto simp: sound_pattern_def compiled_re_def dest: search_captured)

lemma always_ip: "always_captures ''ip'' ip_port"
  by (simp add: ip_port_def seqs_def)

lemma default_patterns_sound: "list_all sound_pattern default_rcon_patterns"
proof -
  have "sound_pattern (compiled_re (attempt_re t) [''ip'', ''command''])" for t
    by (rule compiled_re_sound) (simp_all add: attempt_re_def seqs_def always_ip)
  moreover have "sound_pattern (compiled_re (address_re t) [''ip''])" for t
    by (rule compiled_re_sound) (simp_all add: address_re_def seqs_def always_ip)
  ultimately show ?thesis by (simp add: default_rcon_patterns_def)
qed

lemma detect_in_sound: "list_all sound_pattern ps \<Longrightarrow> \<exists>r. detect_in ps s = Inr r"
proof (induction ps)
  case (Cons p ps)
  show ?case
  proof (cases "p_search p s")
    case None
    with Cons show ?thesis by simp
  next
    case (Some cs)
    with Cons.prems obtain t where "group cs ''ip'' = Some t"
      "''command'' \<in> set (p_groups p) \<longrightarrow> (\<exists>t. group cs ''command'' = Some t)"
      by (auto simp: sound_pattern_def)
    with Some show ?thesis by (auto simp: attempt_of_def group_strip_def)
  qed
qed simp

text \<open>The only way in which detection fails.\<close>

definition group_missing :: "pattern \<Rightarrow> string \<Rightarrow> bool" where
  "group_missing p s \<longleftrightarrow>
     (case p_search p s of
        None \<Rightarrow> False
      | Some cs \<Rightarrow> group cs ''ip'' = None \<or> (''command'' \<in> set (p_groups p) \<and> group cs ''command'' = None))"

lemma sound_not_missing: "sound_pattern p \<Longrightarrow> \<not> group_missing p s"
  by (fastforce simp: sound_pattern_def group_missing_def split: option.splits)

lemma detect_in_error: "detect_in ps s = Inl e \<Longrightarrow> e = AttributeError \<and> (\<exists>p \<in> set ps. group_missing p s)"
  by (induction ps)
    (auto simp: attempt_of_def group_strip_def group_missing_def bindR_eq_Inl split: option.splits if_splits)

lemma detect_total: "list_all sound_pattern ps \<Longrightarrow> \<exists>r. try_detect_rcon_attempt l ps = Inr r"
  by (simp add: try_detect_rcon_attempt_def detect_in_sound)

text \<open>A line in which some pattern is found is an attempt.\<close>

lemma detect_in_hit:
  assumes "list_all sound_pattern ps" "p \<in> set ps" "p_search p s \<noteq> None"
  shows "\<exists>a. detect_in ps s = Inr (Some a)"
  using assms
proof (induction ps)
  case (Cons q ps)
  show ?case
  proof (cases "p_search q s")
    case None
    with Cons show ?thesis by auto
  next
    case (Some cs)
    with detect_in_sound [of "[q]" s] Cons.prems show ?thesis by (auto simp: bindR_eq_Inr split: option.splits)
  qed
qed simp

subsection \<open>Runs of the greedy matcher\<close>

text \<open>The character in front of the rest, after consuming a text.\<close>

definition adv :: "char option \<Rightarrow> string \<Rightarrow> char option" where
  "adv pv u = (if u = [] then pv else Some (last u))"

lemma adv_simps [simp]: "adv pv [] = pv" "adv pv (c # u) = adv (Some c) u" "adv pv (u @ v) = adv (adv pv u) v"
  by (simp_all add: adv_def)

declare first_match.simps(5) [simp del]

lemma fm_ilit:
  "map lower_char t = map lower_char p \<Longrightarrow> first_match (ilit p) k (pv, t @ s, cs) = k (adv pv t, s, cs)"
proof (induction p arbitrary: t pv)
  case (Cons c p)
  then obtain d t' where "t = d # t'" "lower_char d = lower_char c" "map lower_char t' = map lower_char p" by auto
  with Cons.IH [of t' "Some d"] show ?case by (simp add: ilit_def)
qed (simp add: ilit_def)

lemma fm_lit: "first_match (lit t) k (pv, t @ s, cs) = k (adv pv t, s, cs)"
proof (induction t arbitrary: pv)
  case (Cons c t)
  from Cons.IH [of "Some c"] show ?case by (simp add: lit_def)
qed (simp add: lit_def)

lemma fm_star:
  "list_all p u \<Longrightarrow> s = [] \<or> \<not> p (hd s) \<Longrightarrow> k (adv pv u, s, cs) = Some x \<Longrightarrow>
   first_match (Star True (Chr p)) k (pv, u @ s, cs) = Some x"
proof (induction u arbitrary: pv)
  case Nil
  then show ?case by (subst first_match.simps(5)) (cases s; simp)
next
  case (Cons c u)
  from Cons.IH [of "Some c"] Cons.prems
  have "first_match (Star True (Chr p)) k (Some c, u @ s, cs) = Some x" by simp
  with Cons.prems show ?case by (subst first_match.simps(5)) simp
qed

lemma fm_plus:
  "u \<noteq> [] \<Longrightarrow> list_all p u \<Longrightarrow> s = [] \<or> \<not> p (hd s) \<Longrightarrow> k (adv pv u, s, cs) = Some x \<Longrightarrow>
   first_match (plus (Chr p)) k (pv, u @ s, cs) = Some x"
proof (cases u)
  case (Cons c u')
  assume "list_all p u" "s = [] \<or> \<not> p (hd s)" "k (adv pv u, s, cs) = Some x"
  with Cons fm_star [of p u' s k "Some c" cs x] show ?thesis by (simp add: plus_def)
qed simp

lemma fm_unapplied:
  "first_match Eps k = k"
  "first_match (Seq r q) k = first_match r (first_match q k)"
  "first_match (Grp n r) k = (\<lambda>st. first_match r (\<lambda>st'. k (capture n st st')) st)"
  by (simp_all add: fun_eq_iff)

lemma fm_alt1: "first_match r k st = Some x \<Longrightarrow> first_match (Alt r q) k st = Some x"
  by simp

subsection \<open>The shipped patterns on the lines of the engine\<close>

definition address_char :: "char \<Rightarrow> bool" where
  "address_char c \<longleftrightarrow> \<not> is_space c \<and> c \<noteq> CHR '':''"

text \<open>The end of a line: nothing, or a newline.\<close>

definition line_end :: "string \<Rightarrow> bool" where
  "line_end e \<longleftrightarrow> e = [] \<or> e = [CHR 0x0A]"

definition command_text :: "string \<Rightarrow> bool" where
  "command_text cmd \<longleftrightarrow> CHR 0x0A \<notin> set cmd \<and> strip cmd = cmd"

definition attempt_line :: "string \<Rightarrow> string \<Rightarrow> string \<Rightarrow> string \<Rightarrow> string" where
  "attempt_line phrase addr port cmd = phrase @ addr @ '':'' @ port @ '': '' @ cmd"

lemma fm_ip_port:
  assumes "addr \<noteq> []" "list_all address_char addr" "port \<noteq> []" "list_all is_decimal port"
    and "s = [] \<or> \<not> is_decimal (hd s)"
    and "k (adv pv (addr @ '':'' @ port), s, (''ip'', addr @ '':'' @ port) # cs) = Some x"
  shows "first_match ip_port k (pv, addr @ '':'' @ port @ s, cs) = Some x"
  unfolding ip_port_def seqs_def foldr.simps comp_apply id_apply first_match.simps(6,3)
proof (rule fm_plus)
  let ?c = "CHR '':''"
  show "list_all (\<lambda>c. \<not> is_space c \<and> c \<noteq> ?c) addr" using assms(2) by (simp add: address_char_def list_all_iff)
  show "first_match (opt (Seq (lit '':'') (Seq (plus digit) Eps)))
     (\<lambda>st'. first_match Eps (\<lambda>st'. k (capture ''ip'' (pv, addr @ '':'' @ port @ s, cs) st')) st')
     (adv pv addr, '':'' @ port @ s, cs) = Some x"
    unfolding opt_def digit_def
  proof (rule fm_alt1)
    show "first_match (Seq (lit '':'') (Seq (plus (Chr is_decimal)) Eps))
       (\<lambda>st'. first_match Eps (\<lambda>st'. k (capture ''ip'' (pv, addr @ '':'' @ port @ s, cs) st')) st')
       (adv pv addr, '':'' @ port @ s, cs) = Some x"
      unfolding first_match.simps(3) fm_lit
      by (rule fm_plus) (use assms in \<open>auto simp: capture_def\<close>)
  qed
qed (use assms in auto)

text \<open>Behind the address: the colon, a blank, and the command up to the end of the line.\<close>

lemma fm_command:
  assumes "cmd \<noteq> []" "CHR 0x0A \<notin> set cmd" "\<not> is_space (hd cmd)" "line_end e"
    and "k (adv pv ('': '' @ cmd), e, (''command'', cmd) # cs) = Some x"
  shows "first_match (Seq (lit '':'') (Seq (star ws) (Seq (Grp ''command'' (star dot)) Eps))) k
     (pv, '':'' @ '' '' @ cmd @ e, cs) = Some x"
proof -
  let ?pv = "adv (adv pv '':'') '' ''"
  have dots: "list_all (\<lambda>c. c \<noteq> CHR 0x0A) cmd" "e = [] \<or> \<not> hd e \<noteq> CHR 0x0A"
    using assms(2,4) by (auto simp: line_end_def list_all_iff)
  have "first_match (Star True (Chr (\<lambda>c. c \<noteq> CHR 0x0A)))
      (\<lambda>st'. k (capture ''command'' (?pv, cmd @ e, cs) st')) (?pv, cmd @ e, cs) = Some x"
    by (rule fm_star [OF dots]) (use assms(5) in \<open>simp add: capture_def\<close>)
  then have "first_match (Star True (Chr is_space))
      (\<lambda>st'. first_match (Seq (Grp ''command'' (star dot)) Eps) k st') (adv pv '':'', '' '' @ cmd @ e, cs) = Some x"
    by (intro fm_star) (use assms(1,3) in \<open>auto simp: star_def dot_def is_space_def in_range_def code_def\<close>)
  then show ?thesis unfolding first_match.simps(3) fm_lit star_def ws_def by (simp add: fm_unapplied)
qed

text \<open>Text without an escape character has no ANSI sequence.\<close>

lemma sub_from_none:
  assumes "\<And>pv c t. c \<in> set s \<Longrightarrow> match_at r pv (c # t) = None"
  shows "sub_from r new pv s = s"
  using assms
proof (induction s arbitrary: pv)
  case (Cons c s)
  then show ?case by (simp add: sub_from.simps [of r new pv "c # s"])
qed (simp add: sub_from.simps)

lemma strip_ansi_id: "CHR 0x1B \<notin> set s \<Longrightarrow> strip_ansi s = s"
  unfolding strip_ansi_def re_sub_def
  by (rule sub_from_none) (auto simp: match_at_def ansi_re_def seqs_def lit_def)

lemma match_at_first: "first_match r Some (pv, s, []) = Some m \<Longrightarrow> match_at r pv s = Some m"
  by (cases "matches r (pv, s, [])") (simp_all add: match_at_def first_match)

definition attempt_parts :: "string \<Rightarrow> string \<Rightarrow> string \<Rightarrow> string \<Rightarrow> bool" where
  "attempt_parts addr port cmd e \<longleftrightarrow>
     addr \<noteq> [] \<and> list_all address_char addr \<and> port \<noteq> [] \<and> list_all is_decimal port \<and>
     cmd \<noteq> [] \<and> CHR 0x0A \<notin> set cmd \<and> strip cmd = cmd \<and> line_end e"

text \<open>The attempt pattern at the beginning of a text that starts with its phrase.\<close>

lemma attempt_match:
  assumes parts: "attempt_parts addr port cmd e" and ph: "map lower_char t = map lower_char phrase"
  shows "\<exists>m. match_at (attempt_re phrase) pv (attempt_line t addr port cmd @ e) = Some m \<and>
     snd (snd m) = [(''command'', cmd), (''ip'', addr @ '':'' @ port)]"
proof -
  have split: "attempt_line t addr port cmd @ e = t @ addr @ '':'' @ port @ '':'' @ '' '' @ cmd @ e"
    by (simp add: attempt_line_def)
  let ?pv = "adv (adv pv t) (addr @ '':'' @ port)" and ?caps = "[(''ip'', addr @ '':'' @ port)]"
  have cmd: "cmd \<noteq> []" "CHR 0x0A \<notin> set cmd" "\<not> is_space (hd cmd)" "line_end e"
    using parts strip_edges [of cmd] by (auto simp: attempt_parts_def)
  have addr: "addr \<noteq> []" "list_all address_char addr" "port \<noteq> []" "list_all is_decimal port"
    and colon: "'':'' @ '' '' @ cmd @ e = [] \<or> \<not> is_decimal (hd ('':'' @ '' '' @ cmd @ e))"
    using parts by (auto simp: attempt_parts_def is_decimal_def in_range_def code_def)
  have "first_match (attempt_re phrase) Some (pv, t @ addr @ '':'' @ port @ '':'' @ '' '' @ cmd @ e, []) =
      Some (adv ?pv ('': '' @ cmd), e, (''command'', cmd) # ?caps)"
    unfolding attempt_re_def seqs_def foldr.simps comp_apply id_apply first_match.simps(3) fm_ilit [OF ph]
    by (rule fm_ip_port [OF addr colon], rule fm_command [OF cmd, unfolded first_match.simps(3)]) (simp add: fm_unapplied)
  from match_at_first [OF this] show ?thesis by (simp add: split)
qed

subsection \<open>What is detected\<close>

lemma attempt_search:
  assumes "attempt_parts addr port cmd e" "map lower_char t = map lower_char phrase"
  shows "re_search (attempt_re phrase) (attempt_line t addr port cmd @ e) =
    Some [(''command'', cmd), (''ip'', addr @ '':'' @ port)]"
  using attempt_match [OF assms, of None] by (auto simp: re_search_def search_from.simps)

lemma search_from_anywhere:
  "(\<And>pv. match_at r pv s \<noteq> None) \<Longrightarrow> search_from r pv (pre @ s) \<noteq> None"
proof (induction pre arbitrary: pv)
  case Nil
  then obtain m where "match_at r pv s = Some m" by blast
  then show ?case by (simp add: search_from.simps [of r pv s])
next
  case (Cons c pre)
  then show ?case by (simp add: search_from.simps [of r pv "c # pre @ s"] split: option.split)
qed

lemma address_no_space:
  "list_all address_char addr \<Longrightarrow> list_all is_decimal port \<Longrightarrow> strip (addr @ '':'' @ port) = addr @ '':'' @ port"
proof (rule strip_no_space)
  assume "list_all address_char addr" "list_all is_decimal port"
  moreover have "\<not> is_space c" if "is_decimal c" for c
    using that by (auto simp: is_decimal_def is_space_def in_range_def)
  moreover have "\<not> is_space (CHR '':'')" by (simp add: is_space_def in_range_def code_def)
  ultimately show "\<forall>c \<in> set (addr @ '':'' @ port). \<not> is_space c"
    by (auto simp: list_all_iff address_char_def)
qed

text \<open>
  C14.  The line the engine writes for a rejected RCON command is an attempt, and it is read exactly: for every
  address without blanks and colons, every port and every command, in any capitalisation of the words
  and with or without a newline at the end.
\<close>

theorem guard_detects:
  assumes "attempt_parts addr port cmd e" and "lower t = lower ''Bad rcon from ''"
    and "CHR 0x1B \<notin> set (attempt_line t addr port cmd @ e)"
  shows "try_detect_rcon_attempt (attempt_line t addr port cmd @ e) default_rcon_patterns =
    Inr (Some (addr @ '':'' @ port, Some cmd))"
proof -
  have t: "map lower_char t = map lower_char ''Bad rcon from ''" using assms(2) by (simp only: lower_def)
  have "strip (addr @ '':'' @ port) = addr @ '':'' @ port" "strip cmd = cmd" "cmd \<noteq> []"
    using assms(1) address_no_space by (simp_all add: attempt_parts_def)
  then show ?thesis
    unfolding try_detect_rcon_attempt_def guard_strip_ansi_def strip_ansi_id [OF assms(3)]
    by (simp add: default_rcon_patterns_def compiled_re_def attempt_search [OF assms(1) t] attempt_of_def
        group_strip_def group_def)
qed

theorem guard_detects_witness:
  "try_detect_rcon_attempt (''BAD rcon from 203.0.113.1:29072: status'' @ [CHR 0x0A]) default_rcon_patterns =
     Inr (Some (''203.0.113.1:29072'', Some ''status''))"
proof -
  have "attempt_parts ''203.0.113.1'' ''29072'' ''status'' [CHR 0x0A]" "lower ''BAD rcon from '' = lower ''Bad rcon from ''"
    "CHR 0x1B \<notin> set (attempt_line ''BAD rcon from '' ''203.0.113.1'' ''29072'' ''status'' @ [CHR 0x0A])"
    by code_simp+
  from guard_detects [OF this] show ?thesis by (simp add: attempt_line_def)
qed

text \<open>
  The search is not anchored: the words \<open>rcon from\<close> with an address and a command make an attempt of
  every line that contains them, whatever stands in front, a chat message of a player for instance.
\<close>

theorem guard_chat_triggers:
  assumes "attempt_parts addr port cmd e" and "lower t = lower ''rcon from ''"
    and "CHR 0x1B \<notin> set (pre @ attempt_line t addr port cmd @ e)"
  shows "\<exists>source command. try_detect_rcon_attempt (pre @ attempt_line t addr port cmd @ e) default_rcon_patterns =
    Inr (Some (source, command))"
proof -
  have t: "map lower_char t = map lower_char ''rcon from ''" using assms(2) by (simp only: lower_def)
  let ?p = "compiled_re (attempt_re ''rcon from '') [''ip'', ''command'']"
  have "match_at (attempt_re ''rcon from '') pv (attempt_line t addr port cmd @ e) \<noteq> None" for pv
    using attempt_match [OF assms(1) t, of pv] by auto
  then have "p_search ?p (pre @ attempt_line t addr port cmd @ e) \<noteq> None"
    unfolding compiled_re_def re_search_def pattern.select_convs by (rule search_from_anywhere)
  moreover have "?p \<in> set default_rcon_patterns" by (simp add: default_rcon_patterns_def)
  ultimately have "\<exists>a. detect_in default_rcon_patterns (pre @ attempt_line t addr port cmd @ e) = Inr (Some a)"
    by (intro detect_in_hit [OF default_patterns_sound])
  then show ?thesis
    unfolding try_detect_rcon_attempt_def guard_strip_ansi_def strip_ansi_id [OF assms(3)] by auto
qed

theorem guard_chat_triggers_witness:
  "\<exists>source command. try_detect_rcon_attempt ''say: Mallory: rcon from 203.0.113.5:1: x'' default_rcon_patterns =
     Inr (Some (source, command))"
proof -
  have "attempt_parts ''203.0.113.5'' ''1'' ''x'' []" "lower ''rcon from '' = lower ''rcon from ''"
    "CHR 0x1B \<notin> set (''say: Mallory: '' @ attempt_line ''rcon from '' ''203.0.113.5'' ''1'' ''x'' @ [])"
    by code_simp+
  from guard_chat_triggers [OF this] show ?thesis by (simp add: attempt_line_def)
qed

end
