(* ===== verification/Guard_Outcome.thy ===== *)
theory Guard_Outcome
  imports Guard_Enforce Guard_Patterns
begin

section \<open>\<open>50-rcon-live-guard.py\<close>: what the guard does\<close>

text \<open>
  The facts about the guard: the configuration is usable, only a listed player with the address of the
  attempt is kicked, enforcements for one address are spaced, and no enforcement ends the worker.
\<close>

subsection \<open>Configuration and runtime environment\<close>

lemma compile_patterns_ip:
  "list_all (\<lambda>p. ''ip'' \<in> set (p_groups p)) (compile_patterns re_compile raws)"
  by (induction raws) (auto split: json.splits option.splits)

definition guard_valid :: "guard_config \<Rightarrow> bool" where
  "guard_valid c \<longleftrightarrow> gc_command c \<in> set allowed_announce_commands \<and> gc_host c \<noteq> [] \<and> 1 \<le> gc_timeout c \<and>
     0 \<le> gc_period c \<and> gc_kick_template c \<noteq> [] \<and> gc_log_file c \<noteq> [] \<and>
     list_all (\<lambda>p. ''ip'' \<in> set (p_groups p)) (gc_patterns c)"

lemma guard_broadcast_command_allowed: "guard_broadcast_command config \<in> set allowed_announce_commands"
  by (simp add: guard_broadcast_command_def allowed_announce_commands_def Let_def)

lemma guard_text_nonempty: "dflt \<noteq> [] \<Longrightarrow> guard_text config key dflt \<noteq> []"
  by (simp add: guard_text_def Let_def)

lemma default_names_nonempty: "guard_log_path \<noteq> []" "default_kick_template \<noteq> []"
  by (simp_all add: guard_log_path_def default_kick_template_def)

lemma guard_load_config_valid: "guard_load_config env = Inr c \<Longrightarrow> guard_valid c"
  using safe_int_min [of 1 3] safe_int_min [of 0 10]
  by (auto simp: guard_load_config_def guard_validate_def guard_valid_def guard_helper_defs bindR_eq_Inr
      guard_broadcast_command_allowed guard_text_nonempty default_names_nonempty guard_pattern_list_def
      compile_patterns_ip)

interpretation guard_rcon: rcon_config guard_load_config "\<lambda>c. [gc_command c]" gc_host gc_timeout
  by unfold_locales (auto simp: guard_valid_def dest!: guard_load_config_valid)

lemma guard_broadcast_command_line: "guard_broadcast_line c m = command_line (gc_command c) m"
  by (simp add: guard_broadcast_line_def command_line_def quote_rcon_arg_def guard_escape_command_argument_def
      escape_command_argument_def Let_def)

lemma guard_env_line_total: "\<exists>st'. guard_env_line l st = Inr st'"
proof -
  obtain k v where kv: "split_once (CHR ''='') (strip l) = (k, v)" by (rule prod.exhaust)
  have "\<exists>ts. guard_tokens v = Inr ts"
  proof (cases "shlex_split v")
    case (Inl e)
    then have "e = ValueError" by (auto simp: shlex_split_def dest: shlex_go_errors)
    with Inl show ?thesis by (simp add: guard_tokens_def is_value_error_def)
  next
    case (Inr ts)
    then show ?thesis by (simp add: guard_tokens_def)
  qed
  then show ?thesis by (auto simp: guard_env_line_def kv Let_def split: list.splits)
qed

lemma guard_env_lines_total: "\<exists>st'. foldR guard_env_line ls st = Inr st'"
  using foldR_total [of ls "\<lambda>_. True" guard_env_line st] guard_env_line_total by blast

lemma guard_load_runtime_env_errors:
  "guard_load_runtime_env os = Inl e \<Longrightarrow>
   e = UnicodeDecodeError \<and> (\<exists>t. file_at os runtime_env_path = Undecodable t)"
  using guard_env_lines_total
  by (auto simp: guard_load_runtime_env_def Let_def catchR_def bindR_def read_text_def is_file_def
      split: if_splits sum.splits file_read.splits) (metis Inl_Inr_False)+

definition env_decodable :: "os_env \<Rightarrow> bool" where
  "env_decodable os \<longleftrightarrow> (case file_at os runtime_env_path of Undecodable _ \<Rightarrow> False | _ \<Rightarrow> True)"

lemma guard_load_runtime_env_total: "env_decodable os \<Longrightarrow> \<exists>st. guard_load_runtime_env os = Inr st"
  using guard_load_runtime_env_errors [of os]
  by (cases "guard_load_runtime_env os") (auto simp: env_decodable_def)

lemma guard_password_port_total:
  assumes "env_decodable os"
  shows "\<exists>pw. guard_effective_rcon_password os = Inr pw" "\<exists>port. guard_current_server_port os = Inr port"
    "\<exists>t. preferred_tail_source os config = Inr t"
  using guard_load_runtime_env_total [OF assms] safe_int_text
  by (auto simp: guard_effective_rcon_password_def guard_current_server_port_def preferred_tail_source_def
      guard_helper_defs Let_def)

subsection \<open>One enforcement\<close>

definition guard_datagram :: "guard_config \<Rightarrow> int \<Rightarrow> string \<Rightarrow> string \<Rightarrow> datagram" where
  "guard_datagram config port password cmd =
     \<lparr>d_host = gc_host config, d_port = port, d_payload = rcon_payload password cmd\<rparr>"

definition guard_send :: "guard_config \<Rightarrow> int \<Rightarrow> string \<Rightarrow> net \<Rightarrow> string \<Rightarrow> datagram list \<times> string res" where
  "guard_send config port password net cmd =
     guard_send_rcon_command net (gc_host config) port password (gc_timeout config) cmd"

lemma guard_send_sent: "set (fst (guard_send config port pw net cmd)) \<subseteq> {guard_datagram config port pw cmd}"
  by (auto simp: guard_send_def guard_send_rcon_command_def guard_datagram_def Let_def split: option.splits net.splits)

text \<open>A reply text needs a reply.\<close>

lemma guard_send_text:
  "snd (guard_send config port pw net cmd) = Inr t \<Longrightarrow> t \<noteq> [] \<Longrightarrow>
   (\<exists>response. net = Replies response \<and> t = guard_reply response) \<and>
   fst (guard_send config port pw net cmd) = [guard_datagram config port pw cmd]"
  by (auto simp: guard_send_def guard_send_rcon_command_def guard_datagram_def Let_def
      split: option.splits net.splits if_splits)

lemma bindS_simps [simp]:
  "bindS (sent, Inl e) f = (sent, Inl e)"
  "bindS (sent, Inr a) f = (sent @ fst (f a), snd (f a))"
  "bindS (quietS (Inl e)) f = ([], Inl e)"
  "bindS (quietS (Inr a)) f = f a"
  by (simp_all add: bindS_def quietS_def)

lemma quietS_sel [simp]: "fst (quietS r) = []" "snd (quietS r) = r"
  by (simp_all add: quietS_def)

lemma bindS_sends:
  "set (fst m) \<subseteq> A \<Longrightarrow> (\<And>a. snd m = Inr a \<Longrightarrow> set (fst (f a)) \<subseteq> A) \<Longrightarrow> set (fst (bindS m f)) \<subseteq> A"
  by (auto simp: bindS_def split: sum.splits)

text \<open>The kick command for a slot, where the template can be formatted.\<close>

definition kick_commands :: "guard_input \<Rightarrow> guard_config \<Rightarrow> int \<Rightarrow> string set" where
  "kick_commands inp config slot =
     {cmd. py_format (ge_ext (gi_env inp)) [(''slot'', JInt slot)] (gc_kick_template config) = Inr cmd}"

definition broadcast_commands :: "guard_config \<Rightarrow> string set" where
  "broadcast_commands config = range (command_line (gc_command config))"

lemma punish_sent:
  "set (fst (punish inp config port pw src (slot, name))) \<subseteq>
     guard_datagram config port pw ` (kick_commands inp config slot \<union> broadcast_commands config)"
proof -
  define disp where "disp = (if name \<noteq> [] then name else bare_ip src)"
  define vals where "vals = [(''player'', JStr (guard_escape_command_argument disp)),
                   (''slot'', JInt slot), (''ip'', JStr (bare_ip src))]"
  define ext where "ext = ge_ext (gi_env inp)"
  have eq: "punish inp config port pw src (slot, name) =
     bindS (quietS (py_format ext [(''slot'', JInt slot)] (gc_kick_template config))) (\<lambda>kick_cmd.
     bindS (guard_send config port pw (gi_kick inp) kick_cmd) (\<lambda>_.
     bindS (quietS (py_format ext vals (gc_broadcast_template config))) (\<lambda>msg.
     bindS (guard_send config port pw (gi_broadcast inp) (guard_broadcast_line config msg)) (\<lambda>_. ([], Inr True)))))"
    by (simp add: punish_def guard_send_def Let_def disp_def vals_def ext_def)
  have sends: "set (fst (guard_send config port pw net cmd)) \<subseteq>
      guard_datagram config port pw ` (kick_commands inp config slot \<union> broadcast_commands config)"
    if "cmd \<in> kick_commands inp config slot \<union> broadcast_commands config" for net cmd
    using guard_send_sent [of config port pw net cmd] that by blast
  have msg: "guard_broadcast_line config m \<in> broadcast_commands config" for m
    by (simp add: broadcast_commands_def guard_broadcast_command_line)
  show ?thesis unfolding eq
    by (intro bindS_sends sends) (simp_all add: kick_commands_def ext_def msg)
qed

text \<open>
  What one enforcement may send: nothing; the status query; or also a kick of the first listed player with
  the address of the attempt, and a broadcast.
\<close>

definition enforcement_ok :: "guard_config \<Rightarrow> guard_input \<Rightarrow> string \<Rightarrow> datagram list \<Rightarrow> bool" where
  "enforcement_ok config inp src sent \<longleftrightarrow>
     sent = [] \<or> (\<exists>port pw more. sent = guard_datagram config port pw ''status'' # more \<and>
       (more \<noteq> [] \<longrightarrow> (\<exists>response players slot name.
          gi_status inp = Replies response \<and> players_of (guard_reply response) = Inr players \<and>
          find_player_slot_by_ip players src = Some (slot, name) \<and>
          set more \<subseteq> guard_datagram config port pw ` (kick_commands inp config slot \<union> broadcast_commands config))))"

lemma players_of_some: "players_of t = Inr players \<Longrightarrow> players \<noteq> [] \<Longrightarrow> t \<noteq> []"
  by (auto simp: players_of_def split: if_splits)

lemma find_nonempty: "find_player_slot_by_ip players src = Some f \<Longrightarrow> players \<noteq> []"
  by auto

lemma enforce_ok: "enforcement_ok config inp src (fst (enforce_rcon_attempt inp src config))"
proof -
  let ?os = "ge_os (gi_env inp)"
  let ?pw = "guard_effective_rcon_password ?os" and ?port = "guard_current_server_port ?os"
  show ?thesis
  proof (cases "\<exists>pw port. ?pw = Inr (Some pw) \<and> pw \<noteq> [] \<and> ?port = Inr port")
    case False
    then have "fst (enforce_rcon_attempt inp src config) = []"
      by (cases ?pw; cases ?port) (auto simp: enforce_rcon_attempt_def split: option.split)
    then show ?thesis by (simp add: enforcement_ok_def)
  next
    case True
    then obtain pw port where 2: "?pw = Inr (Some pw)" "pw \<noteq> []" "?port = Inr port" by blast
    define m where "m = guard_send config port pw (gi_status inp) ''status''"
    define d where "d = guard_datagram config port pw ''status''"
    define f where "f = (\<lambda>players. case find_player_slot_by_ip players src of None \<Rightarrow> ([], Inr False)
        | Some found \<Rightarrow> punish inp config port pw src found)"
    have eq: "enforce_rcon_attempt inp src config = bindS m (\<lambda>t. bindS (quietS (players_of t)) f)"
      using 2 by (simp add: enforce_rcon_attempt_def m_def guard_send_def f_def)
    show ?thesis
    proof (cases "\<exists>t players found. snd m = Inr t \<and> players_of t = Inr players \<and> find_player_slot_by_ip players src = Some found")
      case True
      then obtain t players slot name where t: "snd m = Inr t" "players_of t = Inr players"
        "find_player_slot_by_ip players src = Some (slot, name)" by auto
      from players_of_some [OF t(2) find_nonempty [OF t(3)]] t(1) obtain response where
        r: "gi_status inp = Replies response" "t = guard_reply response" "fst m = [d]"
        using guard_send_text unfolding m_def d_def by blast
      have "fst (enforce_rcon_attempt inp src config) = d # fst (punish inp config port pw src (slot, name))"
        using t r(3) by (cases m) (simp add: eq f_def)
      with t r punish_sent [of inp config port pw src slot name] show ?thesis
        unfolding enforcement_ok_def d_def by blast
    next
      case False
      then have "fst (enforce_rcon_attempt inp src config) = fst m"
        by (cases m; cases "snd m"; cases "players_of (projr (snd m))") (auto simp: eq f_def split: option.splits)
      moreover have "fst m = [] \<or> fst m = [d]"
        by (auto simp: m_def d_def guard_send_def guard_send_rcon_command_def guard_datagram_def Let_def
            split: option.splits net.splits)
      ultimately show ?thesis unfolding enforcement_ok_def d_def by auto
    qed
  qed
qed

subsection \<open>The loop over the lines\<close>

definition action_of :: "guard_config \<Rightarrow> guard_input \<Rightarrow> string \<Rightarrow> guard_action" where
  "action_of config inp src =
     \<lparr>ga_input = inp, ga_source = src, ga_sent = fst (enforce_rcon_attempt inp src config),
      ga_result = snd (enforce_rcon_attempt inp src config)\<rparr>"

text \<open>The address a line asks to act on, if it is an attempt from an address that is not ignored.\<close>

definition guard_request :: "guard_config \<Rightarrow> guard_input \<Rightarrow> string option" where
  "guard_request config inp =
     (case try_detect_rcon_attempt (gi_line inp) (gc_patterns config) of
        Inr (Some (src, _)) \<Rightarrow> if is_ignored_ip src (gc_ignore config) then None else Some src
      | _ \<Rightarrow> None)"

lemma guard_line_eq:
  "guard_line config inp st =
     (case try_detect_rcon_attempt (gi_line inp) (gc_patterns config) of
        Inl e \<Rightarrow> Inl e
      | Inr _ \<Rightarrow>
          (case guard_request config inp of
             None \<Rightarrow> Inr st
           | Some src \<Rightarrow>
               (case guard_gate (gc_period config) (bare_ip src) (gi_now inp) (last_action_for_ip st) of
                  None \<Rightarrow> Inr st
                | Some table \<Rightarrow> Inr \<lparr>last_action_for_ip = table, actions = actions st @ [action_of config inp src]\<rparr>)))"
proof (cases "try_detect_rcon_attempt (gi_line inp) (gc_patterns config)")
  case (Inr d)
  show ?thesis
  proof (cases d)
    case (Some p)
    then obtain src cmd where d: "d = Some (src, cmd)" by (cases p) simp
    obtain sent r where e: "enforce_rcon_attempt inp src config = (sent, r)" by (rule prod.exhaust)
    show ?thesis
      unfolding guard_line_def guard_request_def action_of_def Inr d
      by (simp add: e split: option.split)
  qed (use Inr in \<open>simp add: guard_line_def guard_request_def\<close>)
qed (simp add: guard_line_def)

lemma guard_line_Inr:
  assumes "guard_line config inp st = Inr st'"
  obtains "st' = st"
  | src table where "guard_request config inp = Some src"
      "guard_gate (gc_period config) (bare_ip src) (gi_now inp) (last_action_for_ip st) = Some table"
      "st' = \<lparr>last_action_for_ip = table, actions = actions st @ [action_of config inp src]\<rparr>"
proof (cases "try_detect_rcon_attempt (gi_line inp) (gc_patterns config)")
  case (Inl e)
  with assms show thesis by (simp add: guard_line_eq)
next
  case det: (Inr d)
  show thesis
  proof (cases "guard_request config inp")
    case None
    with assms det that(1) show thesis by (simp add: guard_line_eq)
  next
    case (Some src)
    show thesis
    proof (cases "guard_gate (gc_period config) (bare_ip src) (gi_now inp) (last_action_for_ip st)")
      case None
      with assms det Some that(1) show thesis by (simp add: guard_line_eq)
    next
      case (Some table)
      with assms det \<open>guard_request config inp = Some src\<close> show thesis
        by (intro that(2) [of src table]) (simp_all add: guard_line_eq)
    qed
  qed
qed

definition proper_action :: "guard_config \<Rightarrow> guard_action \<Rightarrow> bool" where
  "proper_action config a \<longleftrightarrow>
     guard_request config (ga_input a) = Some (ga_source a) \<and>
     enforcement_ok config (ga_input a) (ga_source a) (ga_sent a)"

lemma action_of_proper: "guard_request config inp = Some src \<Longrightarrow> proper_action config (action_of config inp src)"
  by (simp add: proper_action_def action_of_def enforce_ok)

interpretation guard_wire: emitting_machine "guard_line config" "\<lambda>_. True" actions "proper_action config" for config
proof unfold_locales
  fix s e s' assume "guard_line config e s = Inr s'"
  then show "\<exists>os. actions s' = actions s @ os \<and> list_all (proper_action config) os"
    by (rule guard_line_Inr) (auto simp: action_of_proper)
qed simp

text \<open>A detection that cannot raise makes the step total, whatever the network and the files do.\<close>

definition detects_soundly :: "guard_config \<Rightarrow> bool" where
  "detects_soundly config \<longleftrightarrow> list_all sound_pattern (gc_patterns config)"

lemma foldR_Inl: "foldR f xs s = Inl e \<Longrightarrow> \<exists>x \<in> set xs. \<exists>s'. f x s' = Inl e"
  by (induction xs arbitrary: s) (auto simp: bindR_eq_Inl)

lemma guard_line_error:
  assumes "guard_line config inp st = Inl e"
  shows "e = AttributeError \<and> (\<exists>p \<in> set (gc_patterns config). group_missing p (guard_strip_ansi (gi_line inp)))"
proof -
  have "try_detect_rcon_attempt (gi_line inp) (gc_patterns config) = Inl e"
    using assms by (auto simp: guard_line_eq split: sum.splits option.splits)
  then show ?thesis unfolding try_detect_rcon_attempt_def by (rule detect_in_error)
qed

lemma guard_line_total: "detects_soundly config \<Longrightarrow> \<exists>st'. guard_line config inp st = Inr st'"
  using detect_total [of "gc_patterns config" "gi_line inp"]
  by (auto simp: detects_soundly_def guard_line_eq split: option.splits)

interpretation guard_machine: surviving_machine
  "guard_line (config\<lparr>gc_patterns := default_rcon_patterns\<rparr>)" "\<lambda>_. True" "\<lambda>_. True" for config
  by unfold_locales (use guard_line_total default_patterns_sound in \<open>auto simp: detects_soundly_def\<close>)

subsection \<open>The cooldown\<close>

interpretation guard_cd: cooldown "\<lambda>ip (_::unit). guard_gate (int (Suc n)) ip"
  "\<lambda>table ip. map_option (Pair ()) (dict_get table ip)" "of_int (int (Suc n))" for n
  by unfold_locales (auto simp: guard_gate_def Let_def fun_eq_iff split: if_splits option.splits)

fun guard_requests :: "guard_config \<Rightarrow> guard_input list \<Rightarrow> (string \<times> unit \<times> rat) list" where
  "guard_requests config [] = []"
| "guard_requests config (inp # inps) =
     (case guard_request config inp of
        None \<Rightarrow> guard_requests config inps
      | Some src \<Rightarrow> (bare_ip src, (), gi_now inp) # guard_requests config inps)"

definition action_key :: "guard_action \<Rightarrow> string \<times> unit \<times> rat" where
  "action_key a = (bare_ip (ga_source a), (), gi_now (ga_input a))"

lemma guard_run_passed:
  assumes "gc_period config = int (Suc n)"
  shows "foldR (guard_line config) inps st = Inr st' \<Longrightarrow>
    map action_key (actions st') =
      map action_key (actions st) @ guard_cd.passed n (last_action_for_ip st) (guard_requests config inps)"
proof (induction inps arbitrary: st)
  case (Cons inp inps)
  then obtain st1 where step: "guard_line config inp st = Inr st1"
    and run: "foldR (guard_line config) inps st1 = Inr st'" by (auto simp: bindR_eq_Inr)
  note IH = Cons.IH [OF run]
  show ?case
  proof (cases "guard_request config inp")
    case None
    with step have "st1 = st" by (auto simp: guard_line_eq split: sum.splits)
    with IH None show ?thesis by simp
  next
    case (Some src)
    show ?thesis
    proof (cases "guard_gate (gc_period config) (bare_ip src) (gi_now inp) (last_action_for_ip st)")
      case None
      with step Some have "st1 = st" by (auto simp: guard_line_eq split: sum.splits)
      with IH Some None assms show ?thesis by (simp del: of_nat_Suc)
    next
      case (Some table)
      with step \<open>guard_request config inp = Some src\<close>
      have "st1 = \<lparr>last_action_for_ip = table, actions = actions st @ [action_of config inp src]\<rparr>"
        by (auto simp: guard_line_eq split: sum.splits)
      with IH Some \<open>guard_request config inp = Some src\<close> assms show ?thesis
        by (simp add: action_key_def action_of_def del: of_nat_Suc)
    qed
  qed
qed (simp del: of_nat_Suc)

end
