(* ===== verification/Guard_Worker.thy ===== *)
theory Guard_Worker
  imports Guard_Outcome Announcer_Lock
begin

section \<open>\<open>50-rcon-live-guard.py\<close>: runs of the worker\<close>

text \<open>
  A run of the outer loop is a run of the line loop over the lines of all the \<open>tail\<close> processes, so that
  the facts about lines hold for the worker; every pass sleeps once and never for long.
\<close>

subsection \<open>Lock and PID file\<close>

text \<open>The functions on the lock and the PID file are those of \<open>announcer.py\<close>, on files of their own.\<close>

definition guard_acquire_worker_lock :: "pid \<Rightarrow> lock_sys \<Rightarrow> lock_sys option" where
  "guard_acquire_worker_lock = acquire_worker_lock"

definition guard_previous_worker_alive :: "pid \<Rightarrow> bool \<Rightarrow> lock_sys \<Rightarrow> bool \<times> lock_sys" where
  "guard_previous_worker_alive = previous_worker_alive"

definition guard_read_existing_pid :: "lock_sys \<Rightarrow> int option" where
  "guard_read_existing_pid = read_existing_pid"

definition guard_remove_pid_if_owned :: "pid \<Rightarrow> bool \<Rightarrow> lock_sys \<Rightarrow> lock_sys" where
  "guard_remove_pid_if_owned = remove_pid_if_owned"

subsection \<open>Passes\<close>

lemma guard_pass_lines:
  assumes "guard_pass config p w = Inr w'"
  shows "\<exists>inps. foldR (guard_line config) inps (gw_state w) = Inr (gw_state w')"
proof -
  obtain plan where plan: "tail_plan config p (gw_backoff w) = Inr plan"
    using assms by (auto simp: guard_pass_def bindR_eq_Inr)
  show ?thesis
  proof (cases "\<exists>t. plan = Follow t")
    case True
    with assms plan have "foldR (guard_line config) (gp_lines p) (gw_state w) = Inr (gw_state w')"
      by (auto simp: guard_pass_def bindR_eq_Inr)
    then show ?thesis by blast
  next
    case False
    with assms plan have "gw_state w' = gw_state w" by (cases plan) (auto simp: guard_pass_def)
    then show ?thesis by (intro exI [of _ "[]"]) simp
  qed
qed

lemma guard_passes_lines:
  "foldR (guard_pass config) ps w = Inr w' \<Longrightarrow>
   \<exists>inps. foldR (guard_line config) inps (gw_state w) = Inr (gw_state w')"
proof (induction ps arbitrary: w)
  case Nil
  then show ?case by (intro exI [of _ "[]"]) simp
next
  case (Cons p ps)
  then obtain w1 where w1: "guard_pass config p w = Inr w1" "foldR (guard_pass config) ps w1 = Inr w'"
    by (auto simp: bindR_eq_Inr)
  obtain a where "foldR (guard_line config) a (gw_state w) = Inr (gw_state w1)"
    using guard_pass_lines [OF w1(1)] by blast
  moreover obtain b where "foldR (guard_line config) b (gw_state w1) = Inr (gw_state w')"
    using Cons.IH [OF w1(2)] by blast
  ultimately show ?case by (intro exI [of _ "a @ b"]) (simp add: foldR_append)
qed

lemma guard_worker_lines:
  assumes "guard_worker_main env ps = Inr w"
  obtains config inps where "guard_load_config env = Inr config"
    "foldR (guard_line config) inps guard_init = Inr (gw_state w)"
proof -
  obtain config where c: "guard_load_config env = Inr config"
    using assms by (auto simp: guard_worker_main_def bindR_eq_Inr)
  have "\<exists>inps. foldR (guard_line config) inps guard_init = Inr (gw_state w)"
  proof (cases "gc_enabled config")
    case False
    with assms c have "w = guard_worker_init" by (simp add: guard_worker_main_def)
    then show ?thesis by (intro exI [of _ "[]"]) (simp add: guard_worker_init_def)
  next
    case True
    with assms c have "foldR (guard_pass config) ps guard_worker_init = Inr w"
      by (auto simp: guard_worker_main_def bindR_eq_Inr)
    from guard_passes_lines [OF this] show ?thesis by (simp add: guard_worker_init_def)
  qed
  with c that show thesis by blast
qed

subsection \<open>Sleeping\<close>

definition backoff_ok :: "guard_worker \<Rightarrow> bool" where
  "backoff_ok w \<longleftrightarrow> 1 \<le> gw_backoff w \<and> gw_backoff w \<le> 30"

lemma tail_plan_seconds:
  assumes "tail_plan config p b = Inr plan"
  shows "plan = NoSource 5 \<or> plan = NotPresent 2 \<or> plan = TailFails b \<or> (\<exists>t. plan = Follow t)"
  using assms by (auto simp: tail_plan_def bindR_eq_Inr split: option.splits if_splits)

lemma guard_pass_sleeps:
  assumes "guard_pass config p w = Inr w'" "backoff_ok w"
  shows "backoff_ok w' \<and> (\<exists>n. gw_slept w' = gw_slept w @ [n] \<and> 1 \<le> n \<and> n \<le> 30)"
proof -
  obtain plan where plan: "tail_plan config p (gw_backoff w) = Inr plan"
    using assms(1) by (auto simp: guard_pass_def bindR_eq_Inr)
  from tail_plan_seconds [OF plan] assms plan show ?thesis
    by (auto simp: guard_pass_def backoff_ok_def bindR_eq_Inr)
qed

interpretation guard_sleeps: emitting_machine "guard_pass config" backoff_ok gw_slept "\<lambda>n. 1 \<le> n \<and> n \<le> 30" for config
  by unfold_locales (use guard_pass_sleeps in fastforce)+

lemma guard_passes_count:
  "foldR (guard_pass config) ps w = Inr w' \<Longrightarrow> backoff_ok w \<Longrightarrow>
   length (gw_slept w') = length (gw_slept w) + length ps"
proof (induction ps arbitrary: w)
  case (Cons p ps)
  then obtain w1 where "guard_pass config p w = Inr w1" "foldR (guard_pass config) ps w1 = Inr w'"
    by (auto simp: bindR_eq_Inr)
  with Cons guard_pass_sleeps show ?case by fastforce
qed simp

subsection \<open>Passes that end the worker\<close>

lemma guard_pass_error:
  assumes "guard_pass config p w = Inl e" "env_decodable (gp_os p)"
  shows "e = AttributeError \<and>
    (\<exists>inp \<in> set (gp_lines p). \<exists>pat \<in> set (gc_patterns config). group_missing pat (guard_strip_ansi (gi_line inp)))"
proof -
  obtain target where "preferred_tail_source (gp_os p) config = Inr target"
    using guard_password_port_total(3) [OF assms(2)] by blast
  then obtain plan where plan: "tail_plan config p (gw_backoff w) = Inr plan" by (simp add: tail_plan_def)
  with assms(1) have "foldR (guard_line config) (gp_lines p) (gw_state w) = Inl e"
    by (cases plan) (auto simp: guard_pass_def bindR_eq_Inl)
  then obtain inp st where "inp \<in> set (gp_lines p)" "guard_line config inp st = Inl e"
    using foldR_Inl by metis
  with guard_line_error show ?thesis by blast
qed

subsection \<open>The shipped configuration\<close>

definition guard_shipped :: guard_config where
  "guard_shipped = \<lparr>gc_enabled = True, gc_host = ''127.0.0.1'', gc_timeout = 3, gc_fallback = True,
     gc_log_file = guard_log_path, gc_period = 10, gc_command = ''svsay'',
     gc_kick_template = default_kick_template, gc_broadcast_template = default_broadcast_template,
     gc_ignore = default_ignore_ip_hosts, gc_patterns = default_rcon_patterns\<rparr>"

lemma guard_shipped_sel:
  "gc_enabled guard_shipped" "gc_host guard_shipped = ''127.0.0.1''" "gc_timeout guard_shipped = 3"
  "gc_period guard_shipped = 10" "gc_command guard_shipped = ''svsay''"
  "gc_kick_template guard_shipped = default_kick_template"
  "gc_broadcast_template guard_shipped = default_broadcast_template"
  "gc_ignore guard_shipped = default_ignore_ip_hosts" "gc_patterns guard_shipped = default_rcon_patterns"
  by (simp_all add: guard_shipped_def)

lemma guard_default_values:
  "guard_safe_int (get_none guard_default_config ''rcon_timeout_seconds'') 3 1 = Inr 3"
  "guard_safe_int (get_none guard_default_config ''min_seconds_between_actions'') 10 0 = Inr 10"
  "guard_safe_bool (get_default guard_default_config ''enabled'' (JBool True)) True = True"
  "guard_text guard_default_config ''rcon_host'' ''127.0.0.1'' = ''127.0.0.1''"
  "guard_safe_bool (get_default guard_default_config ''fallback_to_server_log'' (JBool True)) True = True"
  "guard_text guard_default_config ''log_file'' guard_log_path = guard_log_path"
  "guard_broadcast_command guard_default_config = ''svsay''"
  "guard_text guard_default_config ''kick_command_template'' default_kick_template = default_kick_template"
  "strip (py_str (get_default guard_default_config ''broadcast_template'' (JStr default_broadcast_template))) =
     default_broadcast_template"
  "guard_ignore_list guard_default_config = default_ignore_ip_hosts"
  "get_default guard_default_config ''rcon_attempt_patterns'' (JList (map JStr raw_rcon_patterns)) =
     JList (map JStr raw_rcon_patterns)"
  by code_simp+

lemma guard_shipped_loads:
  assumes "\<not> is_file (ge_os env) guard_config_path" "compiles_defaults (ge_compile env)"
  shows "guard_load_config env = Inr guard_shipped"
proof -
  obtain p ps where raw: "map JStr raw_rcon_patterns = p # ps" by (simp add: raw_rcon_patterns_def)
  have "guard_pattern_list (ge_compile env) guard_default_config = default_rcon_patterns"
    unfolding guard_pattern_list_def guard_default_values(11) compile_defaults [OF assms(2), symmetric]
    by (simp add: raw)
  with assms(1) show ?thesis
    by (simp add: guard_load_config_def guard_loaded_def guard_validate_def guard_default_values guard_shipped_def)
qed

end
