(* ===== verification/Guard_Status.thy ===== *)
theory Guard_Status
  imports Guard_Patterns Runtime_Env_File "HOL-Library.Sublist"
begin

section \<open>\<open>50-rcon-live-guard.py\<close>: the \<open>status\<close> listing is read back\<close>

text \<open>
  The listing that the engine prints, as text, and the proof that \<open>parse_status_players\<close> reads it back:
  slot, name and address of every row.  Names may have blanks, but a name with blanks can imitate the columns
  behind it; such names are left out, and the last theorem shows what happens with one.
\<close>

subsection \<open>More runs of the matcher\<close>

lemma re_match_first: "re_match r s = first_match r (\<lambda>st. Some (snd (snd st))) (None, s, [])"
proof -
  have "first_some (\<lambda>st. Some (f st)) xs = (case xs of [] \<Rightarrow> None | x # _ \<Rightarrow> Some (f x))"
    for f :: "mstate \<Rightarrow> caps" and xs by (cases xs) simp_all
  then show ?thesis by (simp add: re_match_def match_at_def first_match split: list.splits)
qed

lemma fm_grp_plus:
  assumes "u \<noteq> []" "list_all p u" "s = [] \<or> \<not> p (hd s)" "k (adv pv u, s, (n, u) # cs) = Some x"
  shows "first_match (Grp n (plus (Chr p))) k (pv, u @ s, cs) = Some x"
  unfolding first_match.simps(6)
  by (rule fm_plus [OF assms(1-3)]) (simp add: capture_def assms(4))

lemma fm_plus_None: "\<not> p c \<Longrightarrow> first_match (plus (Chr p)) k (pv, c # s, cs) = None"
  by (simp add: plus_def)

text \<open>A lazy repetition goes on as long as the rest of the pattern fails.\<close>

lemma fm_lazy_star:
  "list_all p u \<Longrightarrow> (\<And>u1 c u2 pv. u = u1 @ c # u2 \<Longrightarrow> k (pv, c # u2 @ s, cs) = None) \<Longrightarrow>
   k (adv pv u, s, cs) = Some x \<Longrightarrow> first_match (Star False (Chr p)) k (pv, u @ s, cs) = Some x"
proof (induction u arbitrary: pv)
  case Nil
  then show ?case by (subst first_match.simps(5)) simp
next
  case (Cons c u)
  have "k (pv, c # u @ s, cs) = None" using Cons.prems(2) [of "[]" c u pv] by simp
  moreover have "first_match (Star False (Chr p)) k (Some c, u @ s, cs) = Some x"
  proof (rule Cons.IH)
    fix u1 d u2 pv assume "u = u1 @ d # u2"
    then show "k (pv, d # u2 @ s, cs) = None" using Cons.prems(2) [of "c # u1" d u2 pv] by simp
  qed (use Cons.prems in simp_all)
  ultimately show ?case using Cons.prems(1) by (subst first_match.simps(5)) simp
qed

lemma fm_grp_lazy:
  assumes "u \<noteq> []" "list_all p u" "\<And>u1 c u2 pv cs. u = u1 @ c # u2 \<Longrightarrow> u1 \<noteq> [] \<Longrightarrow> k (pv, c # u2 @ s, cs) = None"
    and "k (adv pv u, s, (n, u) # cs) = Some x"
  shows "first_match (Grp n (lazy_plus (Chr p))) k (pv, u @ s, cs) = Some x"
proof -
  obtain c t where u: "u = c # t" using assms(1) by (cases u) auto
  have "first_match (Star False (Chr p)) (\<lambda>st. k (capture n (pv, u @ s, cs) st)) (Some c, t @ s, cs) = Some x"
  proof (rule fm_lazy_star)
    fix u1 d u2 pv' assume "t = u1 @ d # u2"
    then show "k (capture n (pv, u @ s, cs) (pv', d # u2 @ s, cs)) = None"
      using assms(3) [of "c # u1" d u2 pv'] by (simp add: u capture_def)
  qed (use assms(2,4) u in \<open>simp_all add: capture_def\<close>)
  then show ?thesis using assms(2) by (simp add: lazy_plus_def u)
qed

lemma fm_digits_1_3:
  assumes "list_all is_decimal u" "u \<noteq> []" "length u \<le> 3" "s = [] \<or> \<not> is_decimal (hd s)"
    and "k (adv pv u, s, cs) = Some x"
  shows "first_match digits_1_3 k (pv, u @ s, cs) = Some x"
proof -
  consider a where "u = [a]" | a b where "u = [a, b]" | a b c where "u = [a, b, c]"
    using assms(2,3) by (cases u; cases "tl u"; cases "tl (tl u)") auto
  then show ?thesis
    by cases (use assms in \<open>auto simp: digits_1_3_def digit_def opt_def adv_def split: list.split option.split\<close>)
qed

subsection \<open>Columns that are not there\<close>

text \<open>
  A text begins with runs of the given classes, each as long as it can be and none of them empty.  A pattern of
  such runs in which no class shares a character with the next one fails on every other text.
\<close>

fun has_runs :: "(char \<Rightarrow> bool) list \<Rightarrow> string \<Rightarrow> bool" where
  "has_runs [] s = True"
| "has_runs (p # ps) s = (s \<noteq> [] \<and> p (hd s) \<and> has_runs ps (dropWhile p s))"

definition stuck :: "(mstate \<Rightarrow> 'a option) \<Rightarrow> (char \<Rightarrow> bool) list \<Rightarrow> bool" where
  "stuck k ps \<longleftrightarrow> (\<forall>pv s cs. \<not> has_runs ps s \<longrightarrow> k (pv, s, cs) = None)"

lemma stuck_None: "stuck k ps \<Longrightarrow> \<not> has_runs ps s \<Longrightarrow> k (pv, s, cs) = None"
  by (simp add: stuck_def)

lemma fm_star_None:
  "(\<And>u1 u2 pv. s = u1 @ u2 \<Longrightarrow> list_all p u1 \<Longrightarrow> k (pv, u2, cs) = None) \<Longrightarrow>
   first_match (Star True (Chr p)) k (pv, s, cs) = None"
proof (induction s arbitrary: pv)
  case Nil
  from Nil [of "[]" "[]"] show ?case by (subst first_match.simps(5)) simp
next
  case (Cons c s)
  have here: "k (pv, c # s, cs) = None" using Cons.prems [of "[]" "c # s"] by simp
  show ?case
  proof (cases "p c")
    case True
    have "first_match (Star True (Chr p)) k (Some c, s, cs) = None"
    proof (rule Cons.IH)
      fix u1 u2 pv assume "s = u1 @ u2" "list_all p u1"
      then show "k (pv, u2, cs) = None" using Cons.prems [of "c # u1" u2 pv] True by simp
    qed
    with True here show ?thesis by (subst first_match.simps(5)) simp
  next
    case False
    with here show ?thesis by (subst first_match.simps(5)) simp
  qed
qed

lemma stuck_star_step:
  assumes "stuck k (q # qs)" "\<And>c. p c \<Longrightarrow> \<not> q c" "\<not> has_runs (q # qs) (dropWhile p (u1 @ u2))" "list_all p u1"
  shows "k (pv, u2, cs) = None"
proof (rule stuck_None [OF assms(1)])
  have all: "dropWhile p (u1 @ u2) = dropWhile p u2" using assms(4) by (simp add: list_all_iff)
  show "\<not> has_runs (q # qs) u2"
  proof (cases u2)
    case (Cons c t)
    show ?thesis
    proof (cases "q c")
      case True
      with assms(2) have "\<not> p c" by blast
      with Cons all assms(3) show ?thesis by simp
    qed (simp add: Cons)
  qed simp
qed

lemma stuck_plus:
  assumes "stuck k (q # qs)" "\<And>c. p c \<Longrightarrow> \<not> q c"
  shows "stuck (first_match (plus (Chr p)) k) (p # q # qs)"
  unfolding stuck_def
proof (intro allI impI)
  fix pv s cs assume no: "\<not> has_runs (p # q # qs) s"
  show "first_match (plus (Chr p)) k (pv, s, cs) = None"
  proof (cases "s \<noteq> [] \<and> p (hd s)")
    case True
    then obtain c t where s: "s = c # t" "p c" by (cases s) auto
    have "first_match (Star True (Chr p)) k (Some c, t, cs) = None"
      by (rule fm_star_None) (use no s stuck_star_step [OF assms, where ?u1.0 = "c # _"] in auto)
    with s show ?thesis by (simp add: plus_def)
  qed (cases s; simp add: plus_def)
qed

lemma stuck_lit:
  assumes "stuck k (q # qs)" "\<not> q d"
  shows "stuck (first_match (lit [d]) k) ((\<lambda>c. c = d) # q # qs)"
  unfolding stuck_def
proof (intro allI impI)
  fix pv s cs assume no: "\<not> has_runs ((\<lambda>c. c = d) # q # qs) s"
  show "first_match (lit [d]) k (pv, s, cs) = None"
  proof (cases s)
    case (Cons c t)
    then show ?thesis
      using no stuck_star_step [OF assms(1), where p = "\<lambda>c. c = d" and ?u1.0 = "[d]" and ?u2.0 = t] assms(2) by (auto simp: lit_def seqs_def)
  qed (simp add: lit_def seqs_def)
qed

lemma stuck_digits:
  assumes "stuck k (q # qs)" "\<And>c. is_decimal c \<Longrightarrow> \<not> q c"
  shows "stuck (first_match digits_1_3 k) (is_decimal # q # qs)"
  unfolding stuck_def
proof (intro allI impI)
  fix pv s cs assume no: "\<not> has_runs (is_decimal # q # qs) s"
  have step: "k (pv', u2, cs) = None" if "s = u1 @ u2" "u1 \<noteq> []" "list_all is_decimal u1" for pv' u1 u2
  proof (rule stuck_star_step [OF assms _ that(3)])
    have "s \<noteq> []" "is_decimal (hd s)" using that by (cases u1; simp)+
    with no that(1) show "\<not> has_runs (q # qs) (dropWhile is_decimal (u1 @ u2))" by (simp only: has_runs.simps) simp
  qed simp
  show "first_match digits_1_3 k (pv, s, cs) = None"
    using step [of "[_]"] step [of "[_, _]"] step [of "[_, _, _]"]
    by (auto simp: digits_1_3_def digit_def opt_def seqs_def split: list.split option.split)
qed

lemma stuck_last_digits: "stuck (first_match digits_1_3 k) [is_decimal]"
  by (auto simp: stuck_def digits_1_3_def digit_def opt_def seqs_def split: list.split)

lemma stuck_grp:
  fixes k :: "mstate \<Rightarrow> 'a option"
  shows "(\<And>k :: mstate \<Rightarrow> 'a option. stuck (first_match r k) ps) \<Longrightarrow> stuck (first_match (Grp n r) k) ps"
  by (simp add: stuck_def)

text \<open>
  The columns behind the name up to the last octet of the address, and the names that have them inside: behind
  their first character come blanks, a number, blanks and four groups of digits with full stops between them.
\<close>

definition column_runs :: "(char \<Rightarrow> bool) list" where
  "column_runs = [is_space, is_decimal, is_space, is_decimal, \<lambda>c. c = CHR ''.'', is_decimal, \<lambda>c. c = CHR ''.'', is_decimal,
     \<lambda>c. c = CHR ''.'', is_decimal]"

definition imitates_columns :: "string \<Rightarrow> bool" where
  "imitates_columns u \<longleftrightarrow> list_ex (has_runs column_runs) (suffixes (tl u))"

lemma column_classes:
  "is_space c \<Longrightarrow> \<not> is_decimal c" "is_decimal c \<Longrightarrow> \<not> is_space c" "is_decimal c \<Longrightarrow> c \<noteq> CHR ''.''"
  "\<not> is_decimal (CHR ''.'')" "\<not> is_decimal (CHR '' '')"
  by (auto simp: is_decimal_def is_space_def in_range_def code_def)

lemma stuck_columns:
  fixes k :: "mstate \<Rightarrow> 'a option"
  shows "stuck (first_match (seqs (plus ws # plus digit # plus ws # Grp ''address'' (seqs [digits_1_3, lit ''.'', digits_1_3, lit ''.'',
     digits_1_3, lit ''.'', digits_1_3, opt (seqs [lit '':'', plus digit])]) # rs)) k) column_runs"
proof -
  have seqs: "first_match (seqs (r # rs)) k = first_match r (first_match (seqs rs) k)" for r rs and k :: "mstate \<Rightarrow> 'a option"
    by (simp add: seqs_def fun_eq_iff)
  have address: "stuck (first_match (seqs [digits_1_3, lit ''.'', digits_1_3, lit ''.'', digits_1_3, lit ''.'', digits_1_3, r]) k)
      [is_decimal, \<lambda>c. c = CHR ''.'', is_decimal, \<lambda>c. c = CHR ''.'', is_decimal, \<lambda>c. c = CHR ''.'', is_decimal]" for r and k :: "mstate \<Rightarrow> 'a option"
    unfolding seqs by (intro stuck_digits stuck_lit stuck_last_digits) (simp_all add: column_classes)
  show ?thesis
    unfolding seqs(1) [of "plus ws"] seqs(1) [of "plus digit"] seqs(1) [of "Grp _ _"]
    unfolding ws_def digit_def column_runs_def
    by (intro stuck_plus stuck_grp address) (simp_all add: column_classes)
qed

text \<open>What follows a text cannot complete runs that begin inside it when it starts with a blank.\<close>

lemma has_runs_append:
  "has_runs ps (u @ CHR '' '' # s) \<Longrightarrow> list_all (\<lambda>p. \<not> p (CHR '' '')) ps \<Longrightarrow> has_runs ps u"
proof (induction ps arbitrary: u)
  case (Cons p ps)
  have u: "u \<noteq> []" "p (hd u)" using Cons.prems by (cases u; simp)+
  have "has_runs ps (dropWhile p u)"
  proof (rule Cons.IH)
    have "dropWhile p (u @ CHR '' '' # s) = dropWhile p u @ CHR '' '' # s"
      using Cons.prems(2) by (cases "\<forall>x \<in> set u. p x") (simp_all add: dropWhile_append)
    with Cons.prems(1) show "has_runs ps (dropWhile p u @ CHR '' '' # s)" by simp
  qed (use Cons.prems in simp)
  with u show ?case by simp
qed simp

subsection \<open>Rows\<close>

record status_row =
  sr_gap :: "nat \<Rightarrow> string"
  sr_slot :: string
  sr_score :: string
  sr_ping :: string
  sr_name :: string
  sr_lastmsg :: string
  sr_octets :: "string list"
  sr_port :: string
  sr_qport :: string
  sr_rate :: string

definition row_address :: "status_row \<Rightarrow> string" where
  "row_address r = join ''.'' (sr_octets r) @ '':'' @ sr_port r"

definition row_text :: "status_row \<Rightarrow> string" where
  "row_text r = sr_gap r 0 @ sr_slot r @ sr_gap r 1 @ sr_score r @ sr_gap r 2 @ sr_ping r @ sr_gap r 3 @ sr_name r @
     sr_gap r 4 @ sr_lastmsg r @ sr_gap r 5 @ row_address r @ sr_gap r 6 @ sr_qport r @ sr_gap r 7 @ sr_rate r"

definition number :: "string \<Rightarrow> bool" where
  "number s \<longleftrightarrow> s \<noteq> [] \<and> list_all is_decimal s"

definition gap_ok :: "string \<Rightarrow> bool" where
  "gap_ok g \<longleftrightarrow> g \<noteq> [] \<and> list_all (\<lambda>c. c = CHR '' '') g"

definition row_ok :: "status_row \<Rightarrow> bool" where
  "row_ok r \<longleftrightarrow>
     list_all (\<lambda>c. c = CHR '' '') (sr_gap r 0) \<and> list_all gap_ok (map (sr_gap r) [1, 2, 3, 4, 5, 6, 7]) \<and>
     list_all number [sr_slot r, sr_ping r, sr_lastmsg r, sr_port r, sr_qport r, sr_rate r] \<and>
     length (sr_slot r) \<le> 4300 \<and>
     sr_score r \<noteq> [] \<and> list_all (\<lambda>c. c = CHR ''-'' \<or> is_decimal c) (sr_score r) \<and>
     sr_name r \<noteq> [] \<and> \<not> is_space (hd (sr_name r)) \<and> \<not> is_space (last (sr_name r)) \<and>
     list_all (\<lambda>c. \<not> is_line_break c) (sr_name r) \<and> \<not> imitates_columns (sr_name r) \<and>
     length (sr_octets r) = 4 \<and> list_all (\<lambda>t. number t \<and> length t \<le> 3) (sr_octets r)"

definition row_player :: "status_row \<Rightarrow> player" where
  "row_player r = \<lparr>pl_slot = int_of_digits (sr_slot r), pl_name = normalize_player_name (sr_name r),
     pl_address = row_address r\<rparr>"

lemma gap_stops: "gap_ok g \<Longrightarrow> \<not> p (CHR '' '') \<Longrightarrow> g @ s = [] \<or> \<not> p (hd (g @ s))"
  by (cases g) (auto simp: gap_ok_def)

lemma token_stops: "u \<noteq> [] \<Longrightarrow> list_all (\<lambda>c. \<not> is_space c) u \<Longrightarrow> u @ s = [] \<or> \<not> is_space (hd (u @ s))"
  by (cases u) auto

lemma blank_is_space: "is_space (CHR '' '')" "\<not> is_decimal (CHR '' '')"
  by (simp_all add: is_space_def is_decimal_def in_range_def code_def)

lemma decimal_no_space: "is_decimal c \<Longrightarrow> \<not> is_space c"
  by (auto simp: is_decimal_def is_space_def in_range_def)

lemma list_all_equal: "list_all (\<lambda>c. c = a) g \<Longrightarrow> P a \<Longrightarrow> list_all P g"
  by (induction g) auto

lemma gap_spaces: "gap_ok g \<Longrightarrow> g \<noteq> [] \<and> list_all is_space g"
  unfolding gap_ok_def using list_all_equal [of _ g is_space, OF _ blank_is_space(1)] by blast

lemma token_head: "u \<noteq> [] \<and> list_all (\<lambda>c. \<not> is_space c) u \<Longrightarrow> u \<noteq> [] \<and> \<not> is_space (hd u)"
  by (cases u) auto

lemma number_token: "number u \<Longrightarrow> u \<noteq> [] \<and> list_all (\<lambda>c. \<not> is_space c) u"
  using decimal_no_space by (auto simp: number_def list_all_iff)

lemma fm_gap:
  assumes "gap_ok g" "u \<noteq> [] \<and> \<not> is_space (hd u)" "k (adv pv g, u @ s, cs) = Some x"
  shows "first_match (plus ws) k (pv, g @ u @ s, cs) = Some x"
  unfolding ws_def
  using gap_spaces [OF assms(1)] assms(2,3) by (intro fm_plus) auto

lemma fm_number:
  assumes "number u" "gap_ok g" "k (adv pv u, g @ s, cs) = Some x"
  shows "first_match (plus digit) k (pv, u @ g @ s, cs) = Some x"
  unfolding digit_def
  using gap_stops [where p = is_decimal, OF assms(2) blank_is_space(2), of s] assms(1,3) by (intro fm_plus) (auto simp: number_def)

lemma fm_seqs:
  "first_match (seqs []) k = k"
  "first_match (seqs (r # rs)) k = first_match r (first_match (seqs rs) k)"
  by (simp_all add: seqs_def fun_eq_iff)

lemma capture_run: "capture n (pv, u @ s, cs) (pv', s, cs') = (pv', s, (n, u) # cs')"
  by (simp add: capture_def)

text \<open>An octet and the full stop behind it.\<close>

lemma fm_octet:
  assumes "number t" "length t \<le> 3" "\<And>pv. first_match (seqs rs) k (pv, s, cs) = Some x"
  shows "first_match (seqs (digits_1_3 # lit ''.'' # rs)) k (pv, t @ ''.'' @ s, cs) = Some x"
proof -
  have "first_match (lit ''.'') (first_match (seqs rs) k) (pv', ''.'' @ s, cs) = Some x" for pv'
    unfolding fm_lit by (rule assms(3))
  then show ?thesis
    unfolding fm_seqs
    by (intro fm_digits_1_3) (use assms(1,2) in \<open>auto simp: number_def is_decimal_def in_range_def code_def\<close>)
qed

lemma fm_address:
  assumes octets: "list_all (\<lambda>t. number t \<and> length t \<le> 3) [a, b, c, d]" and port: "number port" and g: "gap_ok g"
    and k: "\<And>pv. k (pv, g @ s, (''address'', a @ ''.'' @ b @ ''.'' @ c @ ''.'' @ d @ '':'' @ port) # cs) = Some x"
  shows "first_match (Grp ''address'' (seqs [digits_1_3, lit ''.'', digits_1_3, lit ''.'', digits_1_3, lit ''.'', digits_1_3,
           opt (seqs [lit '':'', plus digit])])) k
     (pv, (a @ ''.'' @ b @ ''.'' @ c @ ''.'' @ d @ '':'' @ port) @ g @ s, cs) = Some x"
proof -
  define addr where "addr = a @ ''.'' @ b @ ''.'' @ c @ ''.'' @ d @ '':'' @ port"
  define K where "K = (\<lambda>st'. k (capture ''address'' (pv, addr @ g @ s, cs) st'))"
  have K: "K (pv', g @ s, cs) = Some x" for pv'
    unfolding K_def capture_run using k by (simp add: addr_def)
  have port': "first_match (seqs [opt (seqs [lit '':'', plus digit])]) K (pv', '':'' @ port @ g @ s, cs) = Some x" for pv'
    unfolding fm_seqs opt_def by (rule fm_alt1) (simp only: fm_seqs fm_lit, rule fm_number [where k = K, OF port g], rule K)
  have d: "first_match (seqs [digits_1_3, opt (seqs [lit '':'', plus digit])]) K
      (pv', d @ '':'' @ port @ g @ s, cs) = Some x" for pv'
    unfolding fm_seqs(2) [of digits_1_3]
    by (rule fm_digits_1_3)
       (use octets port' in \<open>auto simp: number_def is_decimal_def in_range_def code_def\<close>)
  have "first_match (seqs [digits_1_3, lit ''.'', digits_1_3, lit ''.'', digits_1_3, lit ''.'', digits_1_3,
      opt (seqs [lit '':'', plus digit])]) K (pv, a @ ''.'' @ b @ ''.'' @ c @ ''.'' @ d @ '':'' @ port @ g @ s, cs) = Some x"
    by (intro fm_octet d) (use octets in simp_all)
  then show ?thesis by (simp add: K_def addr_def)
qed

text \<open>The columns of a row, one rule each.\<close>

lemma col_gap:
  assumes "gap_ok g" "u \<noteq> [] \<and> \<not> is_space (hd u)" "\<And>pv. first_match (seqs rs) k (pv, u @ s, cs) = Some x"
  shows "first_match (seqs (plus ws # rs)) k (pv, g @ u @ s, cs) = Some x"
  unfolding fm_seqs(2) [of "plus ws"] by (rule fm_gap [OF assms(1,2)]) (rule assms(3))

lemma col_number:
  assumes "number u" "gap_ok g" "\<And>pv. first_match (seqs rs) k (pv, g @ s, cs) = Some x"
  shows "first_match (seqs (plus digit # rs)) k (pv, u @ g @ s, cs) = Some x"
  unfolding fm_seqs(2) [of "plus digit"] by (rule fm_number [OF assms(1,2)]) (rule assms(3))

lemma col_slot:
  assumes "number u" "gap_ok g" "\<And>pv. first_match (seqs rs) k (pv, g @ s, (''slot'', u) # cs) = Some x"
  shows "first_match (seqs (Grp ''slot'' (plus digit) # rs)) k (pv, u @ g @ s, cs) = Some x"
  unfolding digit_def fm_seqs(2)
  using gap_stops [where p = is_decimal, OF assms(2) blank_is_space(2), of s] assms(1,3)
  by (intro fm_grp_plus) (auto simp: number_def)

definition score_char :: "char \<Rightarrow> bool" where
  "score_char c \<longleftrightarrow> c = CHR ''-'' \<or> is_decimal c"

lemma dash_no_space: "\<not> is_space (CHR ''-'')" "\<not> is_space (CHR ''.'')" "\<not> is_space (CHR '':'')"
  by (simp_all add: is_space_def in_range_def code_def)

lemma score_no_space: "score_char c \<Longrightarrow> \<not> is_space c"
  using dash_no_space decimal_no_space by (auto simp: score_char_def)

lemma col_score:
  assumes "u \<noteq> []" "list_all score_char u" "gap_ok g" "\<And>pv. first_match (seqs rs) k (pv, g @ s, cs) = Some x"
  shows "first_match (seqs (plus (Chr (\<lambda>c. c = CHR ''-'' \<or> is_decimal c)) # rs)) k (pv, u @ g @ s, cs) = Some x"
proof -
  have blank: "\<not> score_char (CHR '' '')" by (simp add: score_char_def is_decimal_def in_range_def code_def)
  have "first_match (plus (Chr score_char)) (first_match (seqs rs) k) (pv, u @ g @ s, cs) = Some x"
    using gap_stops [where p = score_char, OF assms(3) blank, of s] assms(1,2,4) by (intro fm_plus) auto
  then show ?thesis unfolding fm_seqs(2) score_char_def .
qed

text \<open>
  The lazy name stops at its end and not before: at any earlier place the columns that must follow would begin
  inside the name.
\<close>

lemma last_dropped: "dropWhile p t \<noteq> [] \<Longrightarrow> last (dropWhile p t) = last t"
  by (induction t) auto

lemma columns_inside:
  assumes "has_runs column_runs (t @ g @ n @ g' @ s)" "t \<noteq> []" "\<not> is_space (last t)" "gap_ok g" "number n" "gap_ok g'"
  shows "has_runs column_runs t"
proof -
  have blank: "\<not> is_decimal (CHR '' '')" "is_space (CHR '' '')" using blank_is_space by simp_all
  obtain h where g': "g' = CHR '' '' # h" using assms(6) by (cases g') (auto simp: gap_ok_def)
  obtain e where g: "g = CHR '' '' # e" using assms(4) by (cases g) (auto simp: gap_ok_def)
  let ?tail = "[\<lambda>c. c = CHR ''.'', is_decimal, \<lambda>c. c = CHR ''.'', is_decimal, \<lambda>c. c = CHR ''.'', is_decimal]"
  define b where "b = dropWhile is_space t"
  have b: "b \<noteq> []" using assms(2,3) last_in_set [of t] by (auto simp: b_def)
  then have last_b: "\<not> is_space (last b)" using assms(3) by (simp add: b_def last_dropped)
  have "dropWhile is_space (t @ g @ n @ g' @ s) = b @ g @ n @ g' @ s"
    using assms(2,3) last_in_set [of t] by (auto simp: b_def dropWhile_append)
  with assms(1,2) have 1: "is_space (hd t)" "has_runs (tl column_runs) (b @ g @ n @ g' @ s)"
    by (simp_all add: column_runs_def)
  define d where "d = dropWhile is_decimal b"
  have d: "d \<noteq> []"
  proof
    assume "d = []"
    then have all: "\<forall>c \<in> set b. is_decimal c" by (simp add: d_def)
    have dots: "\<not> has_runs ?tail (g' @ s)" by (simp add: g')
    have "dropWhile is_decimal (n @ g' @ s) = g' @ s"
      using assms(5) blank by (simp add: number_def list_all_iff g' dropWhile_append)
    moreover have "dropWhile is_space (g @ n @ g' @ s) = n @ g' @ s"
      using gap_spaces [OF assms(4)] number_token [OF assms(5)] by (cases n) (simp_all add: dropWhile_append list_all_iff)
    moreover have "dropWhile is_decimal (b @ g @ n @ g' @ s) = g @ n @ g' @ s"
      using all blank by (simp add: dropWhile_append g)
    ultimately show False using 1(2) dots by (simp add: column_runs_def)
  qed
  then have "dropWhile is_decimal (b @ g @ n @ g' @ s) = d @ g @ n @ g' @ s"
    by (auto simp: d_def dropWhile_append)
  with 1(2) b have 2: "is_decimal (hd b)" "has_runs (is_space # is_decimal # ?tail) (d @ g @ n @ g' @ s)"
    by (simp_all add: column_runs_def)
  have "last d = last b" using d by (simp add: d_def last_dropped)
  with last_b d have "\<exists>c \<in> set d. \<not> is_space c" using last_in_set [of d] by auto
  then have "dropWhile is_space (d @ g @ n @ g' @ s) = dropWhile is_space d @ g @ n @ g' @ s"
    by (auto simp: dropWhile_append)
  with 2(2) d have 3: "is_space (hd d)" "has_runs (is_decimal # ?tail) (dropWhile is_space d @ CHR '' '' # (e @ n @ g' @ s))"
    by (simp_all add: g)
  have "has_runs (is_decimal # ?tail) (dropWhile is_space d)"
    by (rule has_runs_append [OF 3(2)]) (simp add: blank)
  with 1(1) 2(1) 3(1) b d assms(2) show ?thesis by (simp add: column_runs_def flip: b_def d_def)
qed

lemma col_name:
  assumes "u \<noteq> []" "\<not> is_space (last u)" "list_all (\<lambda>c. \<not> is_line_break c) u" "\<not> imitates_columns u"
    and "gap_ok g" "number n" "gap_ok g'"
    and "\<And>pv. first_match (seqs (plus ws # plus digit # plus ws # Grp ''address'' (seqs [digits_1_3, lit ''.'', digits_1_3, lit ''.'',
           digits_1_3, lit ''.'', digits_1_3, opt (seqs [lit '':'', plus digit])]) # rs)) k (pv, g @ n @ g' @ s, (''name'', u) # cs) = Some x"
  shows "first_match (seqs (Grp ''name'' (lazy_plus dot) # plus ws # plus digit # plus ws #
           Grp ''address'' (seqs [digits_1_3, lit ''.'', digits_1_3, lit ''.'', digits_1_3, lit ''.'', digits_1_3,
             opt (seqs [lit '':'', plus digit])]) # rs)) k (pv, u @ g @ n @ g' @ s, cs) = Some x"
proof -
  have nl: "is_line_break (CHR 0x0A)" by (simp add: is_line_break_def in_range_def code_def)
  have all: "list_all (\<lambda>c. c \<noteq> CHR 0x0A) u" using assms(3) nl by (auto simp: list_all_iff)
  have early: "first_match (seqs (plus ws # plus digit # plus ws # Grp ''address'' (seqs [digits_1_3, lit ''.'', digits_1_3, lit ''.'',
      digits_1_3, lit ''.'', digits_1_3, opt (seqs [lit '':'', plus digit])]) # rs)) k (pv, c # u2 @ g @ n @ g' @ s, cs) = None"
    if "u = u1 @ c # u2" "u1 \<noteq> []" for u1 c u2 pv cs
  proof (rule stuck_None [OF stuck_columns], rule notI)
    assume "has_runs column_runs (c # u2 @ g @ n @ g' @ s)"
    then have "has_runs column_runs (c # u2)"
      using columns_inside [of "c # u2" g n g' s] assms(2,5-7) that(1) by simp
    moreover have "c # u2 \<in> set (suffixes (tl u))" using that by (cases u1) (auto simp: suffix_def)
    ultimately show False using assms(4) by (auto simp: imitates_columns_def list_ex_iff)
  qed
  show ?thesis
    unfolding fm_seqs(2) [of "Grp ''name'' (lazy_plus dot)"] unfolding dot_def
    using assms(1,8) all early by (intro fm_grp_lazy) auto
qed

lemma col_address:
  assumes "list_all (\<lambda>t. number t \<and> length t \<le> 3) os" "length os = 4" "number port" "gap_ok g"
    and "\<And>pv. first_match (seqs rs) k (pv, g @ s, (''address'', join ''.'' os @ '':'' @ port) # cs) = Some x"
  shows "first_match (seqs (Grp ''address'' (seqs [digits_1_3, lit ''.'', digits_1_3, lit ''.'', digits_1_3, lit ''.'', digits_1_3,
      opt (seqs [lit '':'', plus digit])]) # rs)) k (pv, (join ''.'' os @ '':'' @ port) @ g @ s, cs) = Some x"
proof -
  obtain a b c d where os: "os = [a, b, c, d]"
    using assms(2) by (auto simp: numeral_eq_Suc length_Suc_conv)
  have join: "join ''.'' os @ '':'' @ port = a @ ''.'' @ b @ ''.'' @ c @ ''.'' @ d @ '':'' @ port"
    by (simp add: os)
  show ?thesis
    unfolding fm_seqs(2) [of "Grp ''address'' _"] join
    by (rule fm_address) (use assms os join in auto)
qed

lemma row_address_token:
  assumes "list_all (\<lambda>t. number t \<and> length t \<le> 3) (sr_octets r)" "length (sr_octets r) = 4" "number (sr_port r)"
  shows "row_address r \<noteq> [] \<and> list_all (\<lambda>c. \<not> is_space c) (row_address r)"
proof -
  obtain a b c d where "sr_octets r = [a, b, c, d]"
    using assms(2) by (auto simp: numeral_eq_Suc length_Suc_conv)
  with assms number_token dash_no_space show ?thesis by (simp add: row_address_def)
qed

lemma row_match:
  assumes "row_ok r"
  shows "re_match status_player_re (row_text r) =
    Some [(''address'', row_address r), (''name'', sr_name r), (''slot'', sr_slot r)]"
proof -
  let ?k = "\<lambda>st :: mstate. Some (snd (snd st))"
  let ?caps = "[(''address'', row_address r), (''name'', sr_name r), (''slot'', sr_slot r)]"
  from assms have gaps: "gap_ok (sr_gap r 1)" "gap_ok (sr_gap r 2)" "gap_ok (sr_gap r 3)" "gap_ok (sr_gap r 4)"
      "gap_ok (sr_gap r 5)" "gap_ok (sr_gap r 6)" "gap_ok (sr_gap r 7)"
    and nums: "number (sr_slot r)" "number (sr_ping r)" "number (sr_lastmsg r)" "number (sr_port r)"
      "number (sr_qport r)" "number (sr_rate r)"
    and score: "sr_score r \<noteq> []" "list_all score_char (sr_score r)"
    and name: "sr_name r \<noteq> []" "\<not> is_space (hd (sr_name r))" "\<not> is_space (last (sr_name r))"
      "list_all (\<lambda>c. \<not> is_line_break c) (sr_name r)" "\<not> imitates_columns (sr_name r)"
    and addr: "list_all (\<lambda>t. number t \<and> length t \<le> 3) (sr_octets r)" "length (sr_octets r) = 4"
    and lead: "list_all (\<lambda>c. c = CHR '' '') (sr_gap r 0)"
    by (auto simp: row_ok_def score_char_def list_all_iff)
  note tokens = nums(2,3,5,6) [THEN number_token, THEN token_head]
  have score_token: "sr_score r \<noteq> [] \<and> \<not> is_space (hd (sr_score r))"
    using score score_no_space by (cases "sr_score r") auto
  note addr_token = token_head [OF row_address_token [OF addr nums(4)]]
  have rate: "first_match (seqs [plus digit]) ?k (pv, sr_rate r @ [], cs) = Some cs" for pv cs
    unfolding fm_seqs digit_def by (rule fm_plus) (use nums(6) in \<open>auto simp: number_def\<close>)
  have cols: "first_match (seqs [Grp ''slot'' (plus digit), plus ws, plus (Chr (\<lambda>c. c = CHR ''-'' \<or> is_decimal c)), plus ws,
      plus digit, plus ws, Grp ''name'' (lazy_plus dot), plus ws, plus digit, plus ws,
      Grp ''address'' (seqs [digits_1_3, lit ''.'', digits_1_3, lit ''.'', digits_1_3, lit ''.'', digits_1_3,
                           opt (seqs [lit '':'', plus digit])]),
      plus ws, plus digit, plus ws, plus digit]) ?k
    (pv, sr_slot r @ sr_gap r 1 @ sr_score r @ sr_gap r 2 @ sr_ping r @ sr_gap r 3 @ sr_name r @
     sr_gap r 4 @ sr_lastmsg r @ sr_gap r 5 @ row_address r @ sr_gap r 6 @ sr_qport r @ sr_gap r 7 @ sr_rate r @ [], []) =
    Some ?caps" for pv
    apply (rule col_slot [OF nums(1) gaps(1)])
    apply (rule col_gap [OF gaps(1) score_token])
    apply (rule col_score [OF score gaps(2)])
    apply (rule col_gap [OF gaps(2) tokens(1)])
    apply (rule col_number [OF nums(2) gaps(3)])
    apply (rule col_gap [OF gaps(3) conjI [OF name(1,2)]])
    apply (rule col_name [OF name(1,3,4,5) gaps(4) nums(3) gaps(5)])
    apply (rule col_gap [OF gaps(4) tokens(2)])
    apply (rule col_number [OF nums(3) gaps(5)])
    apply (rule col_gap [OF gaps(5) addr_token])
    apply (unfold row_address_def)
    apply (rule col_address [OF addr nums(4) gaps(6)])
    apply (rule col_gap [OF gaps(6) tokens(3)])
    apply (rule col_number [OF nums(5) gaps(7)])
    apply (rule col_gap [OF gaps(7) tokens(4)])
    apply (rule rate)
    done
  have line: "row_text r = sr_gap r 0 @ (sr_slot r @ sr_gap r 1 @ sr_score r @ sr_gap r 2 @ sr_ping r @ sr_gap r 3 @
      sr_name r @ sr_gap r 4 @ sr_lastmsg r @ sr_gap r 5 @ row_address r @ sr_gap r 6 @ sr_qport r @ sr_gap r 7 @ sr_rate r @ [])"
    by (simp add: row_text_def)
  have bol: "first_match Bol k (None, s, cs) = k (None, s, cs)" for k :: "mstate \<Rightarrow> caps option" and s cs by simp
  show ?thesis
    unfolding re_match_first status_player_re_def fm_seqs(2) [of Bol] fm_seqs(2) [of "star ws"] bol line
    unfolding star_def ws_def
    by (rule fm_star [OF list_all_equal [where P = is_space, OF lead blank_is_space(1)] token_stops])
       (use number_token [OF nums(1)] cols [unfolded ws_def] in auto)
qed

subsection \<open>Rows are neither headers nor rules\<close>

lemma fm_bol: "first_match Bol k (None, s, cs) = k (None, s, cs)"
  by simp

text \<open>A header starts with the letter n behind white space.\<close>

lemma header_None:
  assumes "dropWhile is_space s = c # t" "lower_char c \<noteq> CHR ''n''"
  shows "re_match status_header_re s = None"
proof -
  have "lower_char d \<noteq> CHR ''n''" if "s = u1 @ d # u2" "list_all is_space u1" for u1 d u2
  proof (cases "is_space d")
    case True
    show ?thesis
    proof
      assume "lower_char d = CHR ''n''"
      then have "code (lower_char d) = 110" by (simp add: code_def)
      with True show False
        by (auto simp: is_space_def in_range_def lower_char_def code_char_of split: if_splits)
    qed
  next
    case False
    with that have "dropWhile is_space s = d # u2" by (simp add: dropWhile_append list_all_iff)
    with assms show ?thesis by simp
  qed
  then have "first_match (ilit ''num'') k (pv, u2, cs) = None" if "s = u1 @ u2" "list_all is_space u1" for k :: "mstate \<Rightarrow> caps option" and pv u1 u2 cs
    using that by (cases u2) (auto simp: ilit_def lower_char_def code_def in_range_def)
  then show ?thesis
    unfolding re_match_first status_header_re_def fm_seqs(2) fm_bol star_def ws_def
    by (intro fm_star_None)
qed

text \<open>A rule has no digits.\<close>

lemma separator_None:
  assumes "d \<in> set s" "is_decimal d"
  shows "re_match status_separator_re s = None"
proof -
  let ?p = "\<lambda>c. c = CHR ''-'' \<or> is_space c"
  have d: "\<not> ?p d" "d \<noteq> CHR 0x0A"
    using assms(2) decimal_no_space [OF assms(2)] by (auto simp: is_decimal_def in_range_def code_def)
  have eol: "first_match (seqs [Eol]) k (pv, u2, cs) = None" if "s = u1 @ u2" "list_all ?p u1"
    for k :: "mstate \<Rightarrow> caps option" and pv u1 u2 cs
  proof -
    have "d \<in> set u2" using assms(1) that d by (auto simp: list_all_iff)
    then show ?thesis using d by (auto simp: fm_seqs)
  qed
  have "first_match (plus (Chr ?p)) (first_match (seqs [Eol]) k) (pv, s, cs) = None"
    for k :: "mstate \<Rightarrow> caps option" and pv cs
  proof (cases s)
    case (Cons c t)
    show ?thesis
    proof (cases "?p c")
      case True
      have "first_match (Star True (Chr ?p)) (first_match (seqs [Eol]) k) (Some c, t, cs) = None"
        by (rule fm_star_None) (use eol [of "c # _"] Cons True in auto)
      with True Cons show ?thesis by (simp add: plus_def)
    qed (simp add: plus_def Cons)
  qed (use assms in simp)
  then show ?thesis
    unfolding re_match_first status_separator_re_def fm_seqs(2) [of Bol] fm_bol fm_seqs(2) [of "plus _"] .
qed

subsection \<open>The listing\<close>

definition status_header :: string where
  "status_header = ''num score ping name            lastmsg address               qport rate''"

definition status_rule :: string where
  "status_rule = ''--- ----- ---- --------------- ------- --------------------- ----- -----''"

definition lines_text :: "string list \<Rightarrow> string" where
  "lines_text ls = concat (map (\<lambda>l. l @ [CHR 0x0A]) ls)"

lemma status_header_line: "re_match status_header_re status_header \<noteq> None"
  by code_simp

lemma status_rule_line: "re_match status_header_re status_rule = None" "re_match status_separator_re status_rule \<noteq> None"
  by code_simp+

lemma number_hd: "number u \<Longrightarrow> \<exists>d t. u = d # t \<and> is_decimal d"
  by (cases u) (auto simp: number_def)

lemma status_line_row:
  assumes "row_ok r"
  shows "status_line (row_text r) (True, ps) = Inr (True, ps @ [row_player r])"
proof -
  have nums: "number (sr_slot r)" "length (sr_slot r) \<le> 4300" and lead: "list_all (\<lambda>c. c = CHR '' '') (sr_gap r 0)"
    and addr: "list_all (\<lambda>t. number t \<and> length t \<le> 3) (sr_octets r)" "length (sr_octets r) = 4" "number (sr_port r)"
    using assms by (simp_all add: row_ok_def)
  obtain d t where slot: "sr_slot r = d # t" "is_decimal d" using number_hd [OF nums(1)] by blast
  have "\<forall>c \<in> set (sr_gap r 0). is_space c"
    using list_all_equal [where P = is_space, OF lead blank_is_space(1)] by (simp add: list_all_iff)
  then have "dropWhile is_space (row_text r) = dropWhile is_space (drop (length (sr_gap r 0)) (row_text r))"
    by (simp add: row_text_def dropWhile_append1)
  then have "\<exists>t'. dropWhile is_space (row_text r) = d # t'"
    using slot decimal_no_space [of d] by (simp add: row_text_def)
  then obtain t' where "dropWhile is_space (row_text r) = d # t'" by blast
  moreover have "lower_char d \<noteq> CHR ''n''"
    using slot(2) by (auto simp: is_decimal_def in_range_def lower_char_def code_def)
  ultimately have header: "re_match status_header_re (row_text r) = None" by (rule header_None)
  have "d \<in> set (row_text r)" using slot(1) by (simp add: row_text_def)
  from separator_None [OF this slot(2)] have separator: "re_match status_separator_re (row_text r) = None" .
  have "strip (row_address r) = row_address r"
    using row_address_token [OF addr] by (intro strip_no_space) (simp add: list_all_iff)
  moreover have "py_int_text (sr_slot r) = Inr (int_of_digits (sr_slot r))"
    using nums py_int_text_decimals [of "sr_slot r"] by (simp add: number_def int_max_str_digits_def)
  ultimately show ?thesis
    by (simp add: status_line_def header separator row_match [OF assms] row_player_def named_group_def group_def)
qed

lemma status_rows: "list_all row_ok rows \<Longrightarrow>
  foldR status_line (map row_text rows) (True, ps) = Inr (True, ps @ map row_player rows)"
  by (induction rows arbitrary: ps) (simp_all add: status_line_row)

lemma status_preamble: "list_all (\<lambda>l. re_match status_header_re l = None) pre \<Longrightarrow>
  foldR status_line pre (False, []) = Inr (False, [])"
  by (induction pre) (simp_all add: status_line_def)

definition plain_line :: "string \<Rightarrow> bool" where
  "plain_line l \<longleftrightarrow> list_all (\<lambda>c. \<not> is_line_break c) l"

lemma number_plain: "number u \<Longrightarrow> plain_line u"
proof -
  have "\<not> is_line_break c" if "is_decimal c" for c
    using that by (auto simp: is_decimal_def is_line_break_def in_range_def)
  then show "number u \<Longrightarrow> ?thesis" by (auto simp: number_def plain_line_def elim: list.pred_mono_strong)
qed

lemma list_all_weaken: "list_all P u \<Longrightarrow> (\<And>c. P c \<Longrightarrow> Q c) \<Longrightarrow> list_all Q u"
  by (induction u) auto

lemma plain_append: "plain_line (a @ b) \<longleftrightarrow> plain_line a \<and> plain_line b"
  by (simp add: plain_line_def)

lemma plain_marks: "\<not> is_line_break (CHR '' '')" "\<not> is_line_break (CHR ''-'')" "plain_line ''.''" "plain_line '':''"
  by code_simp+

lemma row_plain:
  assumes "row_ok r"
  shows "plain_line (row_text r)"
proof -
  have gap: "plain_line g" if "list_all (\<lambda>c. c = CHR '' '') g" for g
    unfolding plain_line_def by (rule list_all_equal [OF that]) (rule plain_marks(1))
  have score: "plain_line (sr_score r)"
  proof -
    have "\<not> is_line_break c" if "c = CHR ''-'' \<or> is_decimal c" for c
      using that plain_marks(2) number_plain [of "[c]"] by (auto simp: number_def plain_line_def)
    moreover have "list_all (\<lambda>c. c = CHR ''-'' \<or> is_decimal c) (sr_score r)" using assms by (simp add: row_ok_def)
    ultimately show ?thesis unfolding plain_line_def by (rule list_all_weaken [rotated])
  qed
  have name: "plain_line (sr_name r)"
  proof -
    show ?thesis using assms by (simp add: row_ok_def plain_line_def)
  qed
  obtain a b c d where "sr_octets r = [a, b, c, d]"
    using assms by (auto simp: row_ok_def numeral_eq_Suc length_Suc_conv)
  with assms number_plain plain_marks(3,4) have "plain_line (row_address r)"
    by (simp add: row_ok_def row_address_def plain_line_def)
  with gap score name assms number_plain show ?thesis
    by (simp add: row_ok_def gap_ok_def row_text_def plain_append)
qed

text \<open>
  C13.  A \<open>status\<close> listing is read back: whatever lines that are no header stand in front of the header, the players
  read from a listing are exactly those of its rows, in their order, with slot, cleaned name and address.  A name may
  have blanks inside; it neither begins nor ends with one, is one line, and does not imitate the columns that follow
  it (blanks, a number, blanks and four dotted groups of digits behind its first character).
\<close>

theorem guard_status_roundtrip:
  assumes "list_all row_ok rows"
    and "list_all plain_line pre" and "list_all (\<lambda>l. re_match status_header_re l = None) pre"
  shows "parse_status_players (lines_text (pre @ [status_header, status_rule] @ map row_text rows)) =
    Inr (map row_player rows)"
proof -
  have "plain_line status_header" "plain_line status_rule" by code_simp+
  with assms(1,2) row_plain have "list_all plain_line (pre @ [status_header, status_rule] @ map row_text rows)"
    by (auto simp: list_all_iff)
  then have lines: "splitlines (lines_text (pre @ [status_header, status_rule] @ map row_text rows)) =
      pre @ [status_header, status_rule] @ map row_text rows"
    unfolding lines_text_def plain_line_def [abs_def] by (rule splitlines_lines)
  have "status_line status_header (False, []) = Inr (True, [])" "status_line status_rule (True, []) = Inr (True, [])"
    using status_header_line status_rule_line by (simp_all add: status_line_def)
  then show ?thesis
    unfolding parse_status_players_def lines
    by (simp add: foldR_append status_preamble [OF assms(3)] status_rows [OF assms(1)])
qed

definition sample_row :: status_row where
  "sample_row = \<lparr>sr_gap = (\<lambda>_. '' ''), sr_slot = ''1'', sr_score = ''-3'', sr_ping = ''50'', sr_name = ''^1Robin'',
     sr_lastmsg = ''0'', sr_octets = [''203'', ''0'', ''113'', ''5''], sr_port = ''45678'', sr_qport = ''32000'',
     sr_rate = ''25000''\<rparr>"

definition sample_spaced_row :: status_row where
  "sample_spaced_row = sample_row\<lparr>sr_slot := ''12'', sr_gap := (\<lambda>i. if i = 0 then '' '' else ''  ''), sr_name := ''Mr. Big 2 Man 1.5''\<rparr>"

lemma sample_row_player:
  "row_player sample_row = \<lparr>pl_slot = 1, pl_name = ''Robin'', pl_address = ''203.0.113.5:45678''\<rparr>"
  "row_player sample_spaced_row = \<lparr>pl_slot = 12, pl_name = ''Mr. Big 2 Man 1.5'', pl_address = ''203.0.113.5:45678''\<rparr>"
  by code_simp+

theorem guard_status_roundtrip_witness:
  "parse_status_players (lines_text (''map: mp/ffa3'' # [status_header, status_rule] @ map row_text [sample_row, sample_spaced_row])) =
     Inr [\<lparr>pl_slot = 1, pl_name = ''Robin'', pl_address = ''203.0.113.5:45678''\<rparr>,
          \<lparr>pl_slot = 12, pl_name = ''Mr. Big 2 Man 1.5'', pl_address = ''203.0.113.5:45678''\<rparr>]"
proof -
  have "row_ok sample_row" "row_ok sample_spaced_row"
    by (simp_all add: row_ok_def sample_row_def sample_spaced_row_def gap_ok_def number_def imitates_columns_def column_runs_def
        is_decimal_def is_space_def is_line_break_def in_range_def code_def)
  then have rows: "list_all row_ok [sample_row, sample_spaced_row]" by simp
  have "list_all plain_line [''map: mp/ffa3'']" "list_all (\<lambda>l. re_match status_header_re l = None) [''map: mp/ffa3'']"
    by code_simp+
  from guard_status_roundtrip [OF rows this] sample_row_player show ?thesis by simp
qed

text \<open>
  A name with blanks can imitate the columns behind it: the row of a player at 198.51.100.9 who calls himself
  \<open>x 0 203.0.113.5 1 1\<close> is read as a row of the address 203.0.113.5.
\<close>

theorem guard_status_spoofed:
  "parse_status_players (lines_text [status_header, status_rule,
     ''  3     0   50 x 0 203.0.113.5 1 1     0 198.51.100.9:29070    32000 25000'']) =
   Inr [\<lparr>pl_slot = 3, pl_name = ''x'', pl_address = ''203.0.113.5''\<rparr>]"
  by code_simp

end
