(* ===== verification/Legacy_Live.thy ===== *)
theory Legacy_Live
  imports Guard_Worker Guard_Status Live_Team
begin

section \<open>\<open>20-live-team-announcer.py\<close>: the deprecated announcer of team changes\<close>

text \<open>
  The example addon that follows the live output mirror (or the server log) with \<open>tail\<close> and announces
  the \<open>ChangeTeam\<close> lines it finds.  One line is one step of \<open>xlive_line\<close>, as in the announcer that replaced it.
\<close>

subsection \<open>Helpers shared with the other scripts\<close>

definition xlive_safe_int :: "json \<Rightarrow> int \<Rightarrow> int \<Rightarrow> int res" where
  "xlive_safe_int = safe_int"

definition xlive_safe_bool :: "json \<Rightarrow> bool \<Rightarrow> bool" where
  "xlive_safe_bool = safe_bool"

definition xlive_extract_rcon_password :: "os_env \<Rightarrow> string \<Rightarrow> string option" where
  "xlive_extract_rcon_password = extract_rcon_password_from_config"

definition xlive_send_rcon_command ::
  "net \<Rightarrow> string \<Rightarrow> int \<Rightarrow> string \<Rightarrow> int \<Rightarrow> string \<Rightarrow> datagram list \<times> codes res" where
  "xlive_send_rcon_command = ann_send_rcon_command"

definition xlive_escape_command_argument :: "string \<Rightarrow> string" where
  "xlive_escape_command_argument = escape_command_argument"

definition xlive_acquire_worker_lock :: "pid \<Rightarrow> lock_sys \<Rightarrow> lock_sys option" where
  "xlive_acquire_worker_lock = acquire_worker_lock"

definition xlive_previous_worker_alive :: "pid \<Rightarrow> bool \<Rightarrow> lock_sys \<Rightarrow> bool \<times> lock_sys" where
  "xlive_previous_worker_alive = previous_worker_alive"

definition xlive_read_existing_pid :: "lock_sys \<Rightarrow> int option" where
  "xlive_read_existing_pid = read_existing_pid"

definition xlive_remove_pid_if_owned :: "pid \<Rightarrow> bool \<Rightarrow> lock_sys \<Rightarrow> lock_sys" where
  "xlive_remove_pid_if_owned = remove_pid_if_owned"

lemmas xlive_helper_defs = xlive_safe_int_def xlive_safe_bool_def xlive_extract_rcon_password_def
  xlive_send_rcon_command_def xlive_escape_command_argument_def

subsection \<open>Configuration\<close>

definition xlive_log_path :: string where
  "xlive_log_path = home_container @ ''/logs/bundled-live-team-announcer.log''"

definition xlive_default_config :: dict where
  "xlive_default_config =
     [(''enabled'', JBool True),
      (''rcon_host'', JStr ''127.0.0.1''),
      (''rcon_timeout_seconds'', JInt 3),
      (''announce_command'', JStr ''svsay''),
      (''log_file'', JStr xlive_log_path),
      (''fallback_to_server_log'', JBool True),
      (''min_seconds_between_announcements'', JInt 3)]"

text \<open>\<open>config_path\<close> is the JSON file beside the script.\<close>

definition xlive_loaded :: "os_env \<Rightarrow> string \<Rightarrow> dict res" where
  "xlive_loaded os config_path =
     (if \<not> is_file os config_path then Inr xlive_default_config
      else case bindR (read_text os config_path) (json_loads os) of
             Inl e \<Rightarrow> if e = JSONDecodeError \<or> e = OSError then Inr xlive_default_config else Inl e
           | Inr (JObj loaded) \<Rightarrow> Inr (dict_update xlive_default_config loaded)
           | Inr _ \<Rightarrow> Inr xlive_default_config)"

definition xlive_announce_command :: "dict \<Rightarrow> string" where
  "xlive_announce_command config =
     (let c = lower (strip (py_str (get_default config ''announce_command'' (JStr ''svsay''))))
      in if c \<notin> {''say'', ''svsay''} then ''svsay'' else c)"

definition xlive_validate :: "dict \<Rightarrow> dict res" where
  "xlive_validate config =
     (let config = dict_set ''enabled''
                     (JBool (xlive_safe_bool (get_default config ''enabled'' (JBool True)) True)) config
      in bindR (xlive_safe_int (get_none config ''rcon_timeout_seconds'') 3 1) (\<lambda>timeout.
         let config = dict_set ''rcon_timeout_seconds'' (JInt timeout) config
         in bindR (xlive_safe_int (get_none config ''min_seconds_between_announcements'') 3 0) (\<lambda>period.
            let config = dict_set ''min_seconds_between_announcements'' (JInt period) config;
                config = dict_set ''announce_command'' (JStr (xlive_announce_command config)) config;
                config = dict_set ''rcon_host'' (JStr (host_or_local config)) config
            in Inr (dict_set ''fallback_to_server_log''
                      (JBool (xlive_safe_bool (get_default config ''fallback_to_server_log'' (JBool True)) True))
                      config))))"

definition xlive_load_config :: "os_env \<Rightarrow> string \<Rightarrow> dict res" where
  "xlive_load_config os config_path = bindR (xlive_loaded os config_path) xlive_validate"

subsection \<open>Runtime environment\<close>

definition xlive_load_runtime_env :: "os_env \<Rightarrow> (string, string) pydict res" where
  "xlive_load_runtime_env os =
     (let state = runtime_from_environ os guard_tracked_keys
      in if is_file os runtime_env_path
         then catchR (bindR (read_text os runtime_env_path) (\<lambda>t.
                 foldR (runtime_env_line guard_tracked_keys) (splitlines t) state))
                (\<lambda>e. e = OSError) (\<lambda>_. Inr state)
         else Inr state)"

definition xlive_preferred_tail_source :: "os_env \<Rightarrow> bool \<Rightarrow> (string \<times> string) option res" where
  "xlive_preferred_tail_source os fallback =
     bindR (xlive_load_runtime_env os) (\<lambda>runtime.
       let enabled = (lower (strip (dict_get_str runtime ''TAYSTJK_LIVE_OUTPUT_ENABLED'')) = ''true'');
           live_path = strip (dict_get_str runtime ''TAYSTJK_LIVE_OUTPUT_PATH'');
           server_log = strip (dict_get_str runtime ''TAYSTJK_ACTIVE_SERVER_LOG_PATH'')
       in Inr (if enabled \<and> live_path \<noteq> [] then Some (live_path, ''live-output'')
               else if \<not> fallback then None
               else if server_log = [] then None
               else Some (server_log, ''server-log'')))"

definition xlive_active_server_config_path :: "os_env \<Rightarrow> string res" where
  "xlive_active_server_config_path os =
     bindR (xlive_load_runtime_env os) (\<lambda>runtime.
       let candidate = strip (dict_get_str runtime ''TAYSTJK_ACTIVE_SERVER_CONFIG_PATH'')
       in Inr (if candidate \<noteq> [] then candidate
               else path_join (path_join home_container (env_or os ''FS_GAME_MOD'' ''taystjk''))
                      (env_or os ''SERVER_CONFIG'' ''server.cfg'')))"

definition xlive_effective_rcon_password :: "os_env \<Rightarrow> string option res" where
  "xlive_effective_rcon_password os =
     bindR (xlive_load_runtime_env os) (\<lambda>runtime.
       let direct = strip (dict_get_str runtime ''TAYSTJK_EFFECTIVE_SERVER_RCON_PASSWORD'')
       in if direct \<noteq> [] then Inr (Some direct)
          else bindR (xlive_active_server_config_path os) (\<lambda>p. Inr (xlive_extract_rcon_password os p)))"

definition xlive_current_server_port :: "os_env \<Rightarrow> int res" where
  "xlive_current_server_port os =
     bindR (xlive_load_runtime_env os) (\<lambda>runtime.
       let port = dict_get_str runtime ''TAYSTJK_EFFECTIVE_SERVER_PORT''
       in if port \<noteq> [] then xlive_safe_int (JStr port) 29070 1
          else xlive_safe_int (JStr (getenv os ''SERVER_PORT'' ''29070'')) 29070 1)"

subsection \<open>Team changes\<close>

text \<open>\<open>\x1b\[[0-9;]*m\<close>\<close>

definition sgr_re :: re where
  "sgr_re = seqs [lit [CHR 0x1B, CHR ''['' ], star (Chr (\<lambda>c. in_range 48 57 c \<or> c = CHR '';'')), lit ''m'']"

definition letter :: "char \<Rightarrow> bool" where
  "letter c \<longleftrightarrow> in_range 65 90 c \<or> in_range 97 122 c"

definition change_team_re :: re where
  "change_team_re = seqs
     [lit ''ChangeTeam:'', star ws, plus digit, star ws,
      lit ''['', star (Chr (\<lambda>c. c \<noteq> CHR '']'')), lit '']'', star ws,
      lit ''('', star (Chr (\<lambda>c. c \<noteq> CHR '')'')), lit '')'', star ws,
      lit [CHR 0x22], Grp ''player'' (plus (Chr (\<lambda>c. c \<noteq> CHR 0x22))), lit [CHR 0x22], plus ws,
      Grp ''old_team'' (plus (Chr letter)), star ws, lit ''->'', star ws, Grp ''new_team'' (plus (Chr letter))]"

definition xlive_normalize_player_name :: "string \<Rightarrow> string" where
  "xlive_normalize_player_name v = strip (re_sub quake_color_re [] v)"

definition xlive_announcement_for :: "string \<Rightarrow> string \<Rightarrow> string option" where
  "xlive_announcement_for player new_team =
     (let team = upper (strip new_team);
          name = xlive_normalize_player_name player
      in if name = [] then None
         else if team = ''RED'' then Some (name @ '' joined RED TEAM'')
         else if team = ''BLUE'' then Some (name @ '' joined BLUE TEAM'')
         else if team \<in> {''SPECTATOR'', ''SPECTATORS'', ''FREE''} then Some (name @ '' changed SPECTATORS'')
         else Some (name @ '' joined '' @ team))"

definition parse_change_team :: "string \<Rightarrow> (string \<times> string \<times> string) option" where
  "parse_change_team line =
     map_option (\<lambda>cs. (named_group cs ''player'', named_group cs ''old_team'', named_group cs ''new_team''))
       (re_search change_team_re (re_sub sgr_re [] line))"

subsection \<open>The loop\<close>

record xlive_config =
  xc_enabled :: bool
  xc_host :: string
  xc_timeout :: int
  xc_command :: string
  xc_cooldown :: int
  xc_fallback :: bool

text \<open>
  An announcement that the cooldown let through: line, key, time, message and the datagrams sent for it.
\<close>

record xlive_call =
  xl_line :: string
  xl_key :: "string \<times> string"
  xl_time :: rat
  xl_message :: string
  xl_sent :: "datagram list"

record xlive_state =
  xs_announced :: "(string \<times> string, rat) pydict"
  xs_calls :: "xlive_call list"

definition xlive_init :: xlive_state where
  "xlive_init = \<lparr>xs_announced = [], xs_calls = []\<rparr>"

text \<open>A player and team not yet seen count as announced at time zero.\<close>

definition xlive_gate ::
  "int \<Rightarrow> string \<times> string \<Rightarrow> rat \<Rightarrow> (string \<times> string, rat) pydict \<Rightarrow> (string \<times> string, rat) pydict option" where
  "xlive_gate period key now table =
     (let last = (case dict_get table key of Some t \<Rightarrow> t | None \<Rightarrow> 0)
      in if now - last < of_int period then None else Some (dict_set key now table))"

text \<open>Key and message of a line that asks for an announcement.\<close>

definition xlive_request :: "string \<Rightarrow> ((string \<times> string) \<times> string) option" where
  "xlive_request raw_line =
     (case parse_change_team raw_line of
        None \<Rightarrow> None
      | Some (player, old_team, new_team) \<Rightarrow>
          map_option (\<lambda>message. ((xlive_normalize_player_name player, upper (strip new_team)), message))
            (xlive_announcement_for player new_team))"

definition xlive_command :: "xlive_config \<Rightarrow> string \<Rightarrow> string" where
  "xlive_command cfg message =
     xc_command cfg @ '' '' @ [CHR 0x22] @ xlive_escape_command_argument message @ [CHR 0x22]"

text \<open>The \<open>try\<close> of the loop covers the port and the exchange, not the password.\<close>

definition xlive_send :: "xlive_config \<Rightarrow> os_env \<Rightarrow> net \<Rightarrow> string \<Rightarrow> datagram list \<times> unit res" where
  "xlive_send cfg os net message =
     bindS (quietS (xlive_effective_rcon_password os)) (\<lambda>pw.
       case pw of
         None \<Rightarrow> ([], Inr ())
       | Some password \<Rightarrow>
           if password = [] then ([], Inr ())
           else let (sent, r) = bindS (quietS (xlive_current_server_port os)) (\<lambda>port.
                      xlive_send_rcon_command net (xc_host cfg) port password (xc_timeout cfg) (xlive_command cfg message))
                in (sent, catchR (bindR r (\<lambda>_. Inr ())) (\<lambda>e. e = OSError) (\<lambda>_. Inr ())))"

definition xlive_line :: "xlive_config \<Rightarrow> live_input \<Rightarrow> xlive_state \<Rightarrow> xlive_state res" where
  "xlive_line cfg inp st =
     (case xlive_request (in_raw inp) of
        None \<Rightarrow> Inr st
      | Some (key, message) \<Rightarrow>
          (case xlive_gate (xc_cooldown cfg) key (in_now inp) (xs_announced st) of
             None \<Rightarrow> Inr st
           | Some table \<Rightarrow>
               let (sent, r) = xlive_send cfg (in_os inp) (in_net inp) message
               in bindR r (\<lambda>_. Inr \<lparr>xs_announced = table,
                    xs_calls = xs_calls st @ [\<lparr>xl_line = in_raw inp, xl_key = key, xl_time = in_now inp, xl_message = message, xl_sent = sent\<rparr>]\<rparr>)))"

text \<open>
  The outer loop, as in the RCON guard: a pass without lines to read sleeps, one with lines reads them.
  \<open>xp_exists\<close> is the answer of \<open>exists()\<close> to the loop.
\<close>

record xlive_pass_input =
  xp_os :: os_env
  xp_exists :: "string \<Rightarrow> bool"
  xp_starts :: bool
  xp_lines :: "live_input list"

definition xlive_tail_plan :: "xlive_config \<Rightarrow> xlive_pass_input \<Rightarrow> int \<Rightarrow> tail_outcome res" where
  "xlive_tail_plan cfg p backoff =
     bindR (xlive_preferred_tail_source (xp_os p) (xc_fallback cfg)) (\<lambda>target.
       Inr (case target of
              None \<Rightarrow> NoSource 5
            | Some (tail_path, source_label) \<Rightarrow>
                if \<not> xp_exists p tail_path then NotPresent 2
                else if \<not> xp_starts p then TailFails backoff
                else Follow tail_path))"

record xlive_worker =
  xw_state :: xlive_state
  xw_backoff :: int
  xw_slept :: "int list"

definition xlive_worker_init :: xlive_worker where
  "xlive_worker_init = \<lparr>xw_state = xlive_init, xw_backoff = 1, xw_slept = []\<rparr>"

definition xlive_pass :: "xlive_config \<Rightarrow> xlive_pass_input \<Rightarrow> xlive_worker \<Rightarrow> xlive_worker res" where
  "xlive_pass cfg p w =
     bindR (xlive_tail_plan cfg p (xw_backoff w)) (\<lambda>plan.
       case plan of
         NoSource n \<Rightarrow> Inr (w\<lparr>xw_slept := xw_slept w @ [n]\<rparr>)
       | NotPresent n \<Rightarrow> Inr (w\<lparr>xw_slept := xw_slept w @ [n]\<rparr>)
       | TailFails n \<Rightarrow> Inr (w\<lparr>xw_slept := xw_slept w @ [n], xw_backoff := min (xw_backoff w * 2) 30\<rparr>)
       | Follow _ \<Rightarrow>
           bindR (foldR (xlive_line cfg) (xp_lines p) (xw_state w)) (\<lambda>st.
             Inr \<lparr>xw_state = st, xw_backoff = 1, xw_slept = xw_slept w @ [1]\<rparr>))"

definition json_true :: "json \<Rightarrow> bool" where
  "json_true v \<longleftrightarrow> v = JBool True"

definition xlive_config_of :: "dict \<Rightarrow> xlive_config res" where
  "xlive_config_of config =
     bindR (py_int (get_none config ''rcon_timeout_seconds'')) (\<lambda>timeout.
     bindR (py_int (get_none config ''min_seconds_between_announcements'')) (\<lambda>cooldown.
       Inr \<lparr>xc_enabled = json_true (get_none config ''enabled''), xc_host = py_str (get_none config ''rcon_host''),
            xc_timeout = timeout, xc_command = py_str (get_none config ''announce_command''), xc_cooldown = cooldown,
            xc_fallback = json_true (get_none config ''fallback_to_server_log'')\<rparr>))"

definition xlive_diagnostics :: "os_env \<Rightarrow> unit res" where
  "xlive_diagnostics os =
     bindR (xlive_load_runtime_env os) (\<lambda>_.
     bindR (xlive_effective_rcon_password os) (\<lambda>_.
     bindR (xlive_current_server_port os) (\<lambda>_. Inr ())))"

text \<open>\<open>run_worker\<close> behind the lock.\<close>

definition xlive_worker_main :: "os_env \<Rightarrow> string \<Rightarrow> xlive_pass_input list \<Rightarrow> xlive_worker res" where
  "xlive_worker_main os config_path passes =
     bindR (xlive_load_config os config_path) (\<lambda>config.
     bindR (xlive_config_of config) (\<lambda>cfg.
       if \<not> xc_enabled cfg then Inr xlive_worker_init
       else bindR (xlive_diagnostics os) (\<lambda>_. foldR (xlive_pass cfg) passes xlive_worker_init)))"

subsection \<open>The self-test\<close>

definition quoted :: "string \<Rightarrow> string" where
  "quoted s = [CHR 0x22] @ s @ [CHR 0x22]"

definition xlive_selftest_lines :: "(string \<times> string option) list" where
  "xlive_selftest_lines =
     [(''ChangeTeam: 0 [203.0.113.1] (GUID) '' @ quoted ''Padawan'' @ '' SPECTATOR -> RED'', Some ''Padawan joined RED TEAM''),
      (''ChangeTeam: 1 [203.0.113.2:29070] (GUID) '' @ quoted ''Akion^7'' @ '' RED -> BLUE'', Some ''Akion joined BLUE TEAM''),
      (''ChangeTeam: 2 [203.0.113.3] (GUID) '' @ quoted ''Robin'' @ '' BLUE -> SPECTATOR'', Some ''Robin changed SPECTATORS''),
      (''ClientConnect: 0 [203.0.113.1] (GUID) '' @ quoted ''Padawan'', None),
      (''say: Akion: hello'', None)]"

definition xlive_run_selftest :: int where
  "xlive_run_selftest =
     (let failures = filter (\<lambda>(raw, expected).
            (case parse_change_team raw of None \<Rightarrow> None | Some (player, _, new_team) \<Rightarrow> xlive_announcement_for player new_team)
              \<noteq> expected) xlive_selftest_lines
      in if failures \<noteq> [] then 1 else 0)"

end
