(* ===== verification/Worker_Process.thy ===== *)
theory Worker_Process
  imports Announcer_Lock Announcer_Outcome Guard_Worker Legacy_Live
begin

section \<open>Launchers and workers as whole processes\<close>

text \<open>
  \<open>Announcer_Lock\<close> has the steps in which launchers and workers of one addon are interleaved.  Here are the
  functions themselves, \<open>launch_background_worker\<close> and \<open>run_worker\<close> of the three daemons, from their first
  to their last statement and with every answer the system can give.  Each is shown to be a run of those steps,
  so what holds of every interleaving holds of them.
\<close>

subsection \<open>The launchers\<close>

text \<open>
  The answers a launcher meets: the directory of the lock, whether the lock file opens, the directories of
  the log, the log file, the new process, the writing of the PID file.
\<close>

record launch_io =
  li_probe_dir :: "unit res"
  li_lock_opens :: bool
  li_log_dirs :: "unit res"
  li_log_file :: "unit res"
  li_popen :: "pid res"
  li_pid_file :: "unit res"

text \<open>\<open>previous_worker_alive\<close> from its first line to the release of the lock it takes.\<close>

definition probe :: "launch_io \<Rightarrow> pid \<Rightarrow> lock_sys \<Rightarrow> bool res \<times> lock_sys" where
  "probe io p s =
     (case li_probe_dir io of
        Inl e \<Rightarrow> (Inl e, s)
      | Inr _ \<Rightarrow> (let (alive, s') = previous_worker_alive p (li_lock_opens io) s
                 in (Inr alive, if \<not> alive \<and> li_lock_opens io then flock_release p s' else s')))"

text \<open>A new process in front of \<open>acquire_worker_lock\<close>.\<close>

definition spawned :: "pid \<Rightarrow> lock_sys \<Rightarrow> lock_sys" where
  "spawned c s = set_phase c Starting s"

text \<open>
  The announcer's launcher: failures to open the log file or to start the process are reported with status 1,
  a failure to record the process is only logged.
\<close>

definition ann_spawn :: "launch_io \<Rightarrow> lock_sys \<Rightarrow> int res \<times> lock_sys" where
  "ann_spawn io s =
     (case bindR (li_log_file io) (\<lambda>_. li_popen io) of
        Inl e \<Rightarrow> (if e = OSError then Inr 1 else Inl e, s)
      | Inr c \<Rightarrow>
          (case li_pid_file io of
             Inl e \<Rightarrow> (if e = OSError then Inr 0 else Inl e, spawned c s)
           | Inr _ \<Rightarrow> (Inr 0, write_pid c (spawned c s))))"

definition ann_launch_background_worker ::
  "ann_env \<Rightarrow> launch_io \<Rightarrow> pid \<Rightarrow> lock_sys \<Rightarrow> int res \<times> lock_sys" where
  "ann_launch_background_worker env io p s =
     (case ann_load_config env of
        Inl e \<Rightarrow> (Inl e, s)
      | Inr config \<Rightarrow>
          if \<not> launch_wanted config then (Inr 0, s)
          else (case probe io p s of
                  (Inl e, s) \<Rightarrow> (Inl e, s)
                | (Inr alive, s) \<Rightarrow>
                    if alive then (Inr 0, s)
                    else (case li_log_dirs io of Inl e \<Rightarrow> (Inl e, s) | Inr _ \<Rightarrow> ann_spawn io s)))"

text \<open>
  The launcher of the guard and of the deprecated announcer, the same text in both: nothing is caught, a
  failure to record the process ends the launcher after the worker has started.
\<close>

definition daemon_spawn :: "launch_io \<Rightarrow> lock_sys \<Rightarrow> int res \<times> lock_sys" where
  "daemon_spawn io s =
     (case bindR (li_log_file io) (\<lambda>_. li_popen io) of
        Inl e \<Rightarrow> (Inl e, s)
      | Inr c \<Rightarrow>
          (case li_pid_file io of
             Inl e \<Rightarrow> (Inl e, spawned c s)
           | Inr _ \<Rightarrow> (Inr 0, write_pid c (spawned c s))))"

definition daemon_launch :: "bool res \<Rightarrow> launch_io \<Rightarrow> pid \<Rightarrow> lock_sys \<Rightarrow> int res \<times> lock_sys" where
  "daemon_launch enabled io p s =
     (case enabled of
        Inl e \<Rightarrow> (Inl e, s)
      | Inr False \<Rightarrow> (Inr 0, s)
      | Inr True \<Rightarrow>
          (case probe io p s of
             (Inl e, s) \<Rightarrow> (Inl e, s)
           | (Inr alive, s) \<Rightarrow>
               if alive then (Inr 0, s)
               else (case li_log_dirs io of Inl e \<Rightarrow> (Inl e, s) | Inr _ \<Rightarrow> daemon_spawn io s)))"

definition guard_launch_background_worker ::
  "guard_env \<Rightarrow> launch_io \<Rightarrow> pid \<Rightarrow> lock_sys \<Rightarrow> int res \<times> lock_sys" where
  "guard_launch_background_worker env io p s =
     daemon_launch (bindR (guard_load_config env) (\<lambda>config. Inr (gc_enabled config))) io p s"

definition xlive_launch_background_worker ::
  "os_env \<Rightarrow> string \<Rightarrow> launch_io \<Rightarrow> pid \<Rightarrow> lock_sys \<Rightarrow> int res \<times> lock_sys" where
  "xlive_launch_background_worker os config_path io p s =
     daemon_launch (bindR (xlive_load_config os config_path) (\<lambda>config. Inr (json_true (get_none config ''enabled''))))
       io p s"

subsection \<open>The workers\<close>

text \<open>
  The answers a worker meets around its loop: the directory and the lock file, the writing of the PID file,
  the opening of its log, and whether the PID file can be removed at the end.
\<close>

record worker_io =
  wi_lock_file :: "unit res"
  wi_pid_file :: "unit res"
  wi_log_file :: "unit res"
  wi_unlinks :: bool

text \<open>
  \<open>run_worker\<close> around its body: \<open>None\<close> if another worker has the lock.  However the body ends, the PID file
  is removed if it names the process, and the lock is released.  Most endings release the lock first and remove
  the file at exit, some the other way round; for one process that comes to the same, and what others may do
  in between is in the steps \<open>Finish\<close>, \<open>Leave\<close> and \<open>Disabled\<close> of \<open>lock_step\<close>.
\<close>

definition run_locked :: "worker_io \<Rightarrow> 'a res \<Rightarrow> pid \<Rightarrow> lock_sys \<Rightarrow> 'a option res \<times> lock_sys" where
  "run_locked io body p s =
     (case wi_lock_file io of
        Inl e \<Rightarrow> (Inl e, set_phase p Absent s)
      | Inr _ \<Rightarrow>
          (case acquire_worker_lock p s of
             None \<Rightarrow> (Inr None, set_phase p Absent s)
           | Some s' \<Rightarrow>
               (case wi_pid_file io of
                  Inl e \<Rightarrow> (Inl e, set_phase p Absent (flock_release p s'))
                | Inr _ \<Rightarrow>
                    (bindR (wi_log_file io) (\<lambda>_. bindR body (\<lambda>r. Inr (Some r))),
                     set_phase p Absent (flock_release p
                       (remove_pid_if_owned p (wi_unlinks io) (write_pid p s')))))))"

definition ann_run_worker ::
  "ann_env \<Rightarrow> rat \<Rightarrow> bool \<Rightarrow> ann_input list \<Rightarrow> worker_io \<Rightarrow> pid \<Rightarrow> lock_sys \<Rightarrow> ann_state option res \<times> lock_sys" where
  "ann_run_worker env base stop inputs io p s =
     run_locked (io\<lparr>wi_log_file := Inr ()\<rparr>) (worker_main env base stop inputs) p s"

text \<open>The other two load their configuration in front of the lock.\<close>

definition guard_run_worker ::
  "guard_env \<Rightarrow> guard_pass_input list \<Rightarrow> worker_io \<Rightarrow> pid \<Rightarrow> lock_sys \<Rightarrow> guard_worker option res \<times> lock_sys" where
  "guard_run_worker env passes io p s =
     (case guard_load_config env of
        Inl e \<Rightarrow> (Inl e, set_phase p Absent s)
      | Inr _ \<Rightarrow> run_locked io (guard_worker_main env passes) p s)"

definition xlive_run_worker ::
  "os_env \<Rightarrow> string \<Rightarrow> xlive_pass_input list \<Rightarrow> worker_io \<Rightarrow> pid \<Rightarrow> lock_sys \<Rightarrow> xlive_worker option res \<times> lock_sys"
where
  "xlive_run_worker os config_path passes io p s =
     (case xlive_load_config os config_path of
        Inl e \<Rightarrow> (Inl e, set_phase p Absent s)
      | Inr _ \<Rightarrow> run_locked io (xlive_worker_main os config_path passes) p s)"

subsection \<open>A launcher is a run of the interleaved steps\<close>

lemma set_phase_phases [simp]:
  "phases (spawned c s) = (phases s)(c := Starting)" "holder (spawned c s) = holder s"
  "pid_file (spawned c s) = pid_file s"
  by (simp_all add: spawned_def)

lemma probe_state: "probe io p s = (r, s') \<Longrightarrow> s' = s"
  by (cases s) (auto simp: probe_def previous_worker_alive_def flock_exclusive_def flock_release_def Let_def
      split: sum.splits option.splits if_splits)

lemma probe_alive:
  "probe io p s = (r, s') \<Longrightarrow> li_lock_opens io \<Longrightarrow> holder s \<noteq> None \<Longrightarrow> r \<noteq> Inr False"
  by (auto simp: probe_def previous_worker_alive_def flock_exclusive_def Let_def split: sum.splits if_splits)

lemma wanted_exists: "\<exists>config. launch_wanted config"
  by (intro exI [of _ ann_sample_config]) (simp add: launch_wanted_def ann_sample_config_def)

lemma launching_steps:
  assumes "phases s p = Absent" "probe io p s = (Inr False, s')"
  shows "lock_step\<^sup>*\<^sup>* s (set_phase p Launching s)"
proof -
  obtain config where "launch_wanted config" using wanted_exists by blast
  then have l: "lock_step s (set_phase p Launcher s)" using assms(1) by (rule lock_step.Launch [rotated])
  show ?thesis
  proof (cases "li_lock_opens io")
    case True
    then have h: "holder s = None" using probe_alive [OF assms(2)] by blast
    let ?a = "set_phase p Launcher s"
    have "lock_step ?a (set_phase p Probing (?a\<lparr>holder := Some p\<rparr>))"
      by (rule lock_step.Probe [of _ _ True]) (simp_all add: h probe_cases)
    moreover have "lock_step (set_phase p Probing (?a\<lparr>holder := Some p\<rparr>))
        (set_phase p Launching (flock_release p (set_phase p Probing (?a\<lparr>holder := Some p\<rparr>))))"
      by (rule lock_step.Probe_release) simp
    moreover have "set_phase p Launching (flock_release p (set_phase p Probing (?a\<lparr>holder := Some p\<rparr>))) =
        set_phase p Launching s"
      using h by (cases s) (simp add: set_phase_def flock_release_def)
    ultimately show ?thesis using l by (metis (no_types) converse_rtranclp_into_rtranclp r_into_rtranclp)
  next
    case False
    let ?a = "set_phase p Launcher s"
    have "lock_step ?a (set_phase p Launching ?a)"
      by (rule lock_step.Probe_unopened) (simp_all add: probe_cases)
    moreover have "set_phase p Launching ?a = set_phase p Launching s"
      by (cases s) (simp add: set_phase_def)
    ultimately show ?thesis using l by (metis (no_types) converse_rtranclp_into_rtranclp r_into_rtranclp)
  qed
qed

lemma launching_ends:
  assumes "phases s p = Absent"
  shows "lock_step (set_phase p Launching s) s"
proof -
  have "lock_step (set_phase p Launching s) (set_phase p Absent (set_phase p Launching s))"
    by (rule lock_step.Spawn_fails) simp
  moreover have "set_phase p Absent (set_phase p Launching s) = s"
    using assms by (cases s) (simp add: set_phase_def fun_upd_idem)
  ultimately show ?thesis by simp
qed

lemma launching_spawns:
  assumes "phases s p = Absent" "phases s c = Absent" "c \<noteq> p"
  shows "lock_step\<^sup>*\<^sup>* (set_phase p Launching s) (spawned c s)"
    and "lock_step\<^sup>*\<^sup>* (set_phase p Launching s) (write_pid c (spawned c s))"
proof -
  let ?a = "set_phase c Starting (set_phase p (Launched c) (set_phase p Launching s))"
  have a: "lock_step (set_phase p Launching s) ?a"
    by (rule lock_step.Spawn) (simp_all add: assms)
  have "lock_step ?a (set_phase p Absent ?a)" "lock_step ?a (set_phase p Absent (write_pid c ?a))"
    using assms(3) by (auto intro: lock_step.Record_fails lock_step.Record)
  moreover have "set_phase p Absent ?a = spawned c s" "set_phase p Absent (write_pid c ?a) = write_pid c (spawned c s)"
    using assms by (cases s; simp add: set_phase_def spawned_def write_pid_def fun_upd_twist [of p c] fun_upd_idem)+
  ultimately show "lock_step\<^sup>*\<^sup>* (set_phase p Launching s) (spawned c s)"
    "lock_step\<^sup>*\<^sup>* (set_phase p Launching s) (write_pid c (spawned c s))"
    using a by (metis (no_types) converse_rtranclp_into_rtranclp r_into_rtranclp)+
qed

lemma spawn_states:
  assumes "ann_spawn io s = (r, s') \<or> daemon_spawn io s = (r, s')"
  shows "s' = s \<or> (\<exists>c. li_popen io = Inr c \<and> s' \<in> {spawned c s, write_pid c (spawned c s)})"
  using assms
  by (cases "li_log_file io"; cases "li_popen io"; cases "li_pid_file io")
    (auto simp: ann_spawn_def daemon_spawn_def split: if_splits)

lemma launch_states:
  assumes "(r, s') \<in> {ann_launch_background_worker env io p s, guard_launch_background_worker genv io p s,
    xlive_launch_background_worker os path io p s}"
  shows "s' = s \<or> (\<exists>c. li_popen io = Inr c \<and> s' \<in> {spawned c s, write_pid c (spawned c s)} \<and>
    probe io p s = (Inr False, s))"
proof -
  obtain a t where a: "probe io p s = (a, t)" by (metis surj_pair)
  note st = probe_state [OF a]
  from assms consider
      "(r, s') = ann_launch_background_worker env io p s"
    | enabled where "(r, s') = daemon_launch enabled io p s"
    by (auto simp: guard_launch_background_worker_def xlive_launch_background_worker_def)
  then have "s' = s \<or> (a = Inr False \<and> (ann_spawn io s = (r, s') \<or> daemon_spawn io s = (r, s')))"
  proof cases
    case 1
    with a st show ?thesis
      by (auto simp: ann_launch_background_worker_def split: sum.splits if_splits)
  next
    case 2
    with a st show ?thesis
      by (auto simp: daemon_launch_def split: sum.splits if_splits bool.splits)
  qed
  with spawn_states [of io s r s'] a st show ?thesis by blast
qed

lemma launchers_refine_states:
  assumes "(r, s') \<in> {ann_launch_background_worker env io p s, guard_launch_background_worker genv io p s,
      xlive_launch_background_worker os path io p s}"
    and "phases s p = Absent" "\<forall>c. li_popen io = Inr c \<longrightarrow> phases s c = Absent \<and> c \<noteq> p"
  shows "lock_step\<^sup>*\<^sup>* s s' \<and>
    (s' = s \<or> (\<exists>c. li_popen io = Inr c \<and> (holder s = None \<or> \<not> li_lock_opens io) \<and>
       s' \<in> {spawned c s, write_pid c (spawned c s)})) \<and>
    (holder s \<noteq> None \<and> li_lock_opens io \<longrightarrow> s' = s)"
proof (cases "s' = s")
  case False
  then obtain c where c: "li_popen io = Inr c" "s' \<in> {spawned c s, write_pid c (spawned c s)}"
    "probe io p s = (Inr False, s)" using launch_states [OF assms(1)] by blast
  note l = launching_steps [OF assms(2) c(3)]
  have "lock_step\<^sup>*\<^sup>* (set_phase p Launching s) s'"
    using launching_spawns [of s p c] c(1,2) assms(2,3) by auto
  with l have "lock_step\<^sup>*\<^sup>* s s'" by (rule rtranclp_trans)
  moreover have "holder s = None \<or> \<not> li_lock_opens io" using probe_alive [OF c(3)] by blast
  ultimately show ?thesis using c(1,2) probe_alive [OF c(3)] by auto
qed simp

text \<open>
  C39.  Each launcher, taken from its first to its last statement with whatever the system answers, is a run of
  the interleaved steps.  Either it changes nothing, or it has started one process, whose number it may have recorded,
  and then the lock was free or the lock file could not be opened; so if a process holds the lock of the addon
  and the lock file opens, the launcher starts nothing and changes nothing.
\<close>

theorem launchers_refine:
  assumes "(r, s') \<in> {ann_launch_background_worker env io p s, guard_launch_background_worker genv io p s,
      xlive_launch_background_worker os path io p s}"
    and "phases s p = Absent" "\<forall>c. li_popen io = Inr c \<longrightarrow> phases s c = Absent \<and> c \<noteq> p"
  shows "lock_step\<^sup>*\<^sup>* s s' \<and>
    (s' = s \<or> (\<exists>c. li_popen io = Inr c \<and> (holder s = None \<or> \<not> li_lock_opens io) \<and>
       s' \<in> {spawned c s, write_pid c (spawned c s)})) \<and>
    (holder s \<noteq> None \<and> li_lock_opens io \<longrightarrow> s' = s)"
  using launchers_refine_states [OF assms] .

subsection \<open>A worker is a run of the interleaved steps\<close>

lemma run_locked_steps:
  assumes "phases s p = Starting" "holder s \<noteq> Some p" "run_locked io body p s = (r, s')"
  shows "lock_step\<^sup>*\<^sup>* s s' \<and> phases s' p = Absent"
proof (cases "wi_lock_file io")
  case (Inl e)
  with assms have s': "s' = set_phase p Absent s" by (simp add: run_locked_def)
  have "lock_step s (set_phase p Absent (flock_release p s))" using assms(1) by (intro lock_step.Die) simp
  moreover have "flock_release p s = s" using assms(2) by (simp add: flock_release_def)
  ultimately show ?thesis by (auto simp: s')
next
  case (Inr u)
  show ?thesis
  proof (cases "acquire_worker_lock p s")
    case None
    with assms Inr have s': "s' = set_phase p Absent s" by (simp add: run_locked_def)
    have "lock_step s s'" unfolding s' using assms(1) None by (rule lock_step.Acquire_fails)
    then show ?thesis by (simp add: s')
  next
    case (Some s1)
    let ?h = "set_phase p Holding s1"
    let ?w = "set_phase p Running (write_pid p ?h)"
    have 1: "lock_step s ?h" using assms(1) Some by (rule lock_step.Acquire)
    show ?thesis
    proof (cases "wi_pid_file io")
      case (Inl e)
      with assms Inr Some have s': "s' = set_phase p Absent (flock_release p s1)" by (simp add: run_locked_def)
      have "lock_step ?h (set_phase p Absent (flock_release p ?h))" by (rule lock_step.Die) simp
      moreover have "set_phase p Absent (flock_release p ?h) = s'"
        by (cases s1) (simp add: s' set_phase_def flock_release_def)
      ultimately show ?thesis using 1 by (auto simp: s' intro: converse_rtranclp_into_rtranclp)
    next
      case (Inr u')
      with assms \<open>wi_lock_file io = Inr u\<close> Some have s': "s' = set_phase p Absent (flock_release p
          (remove_pid_if_owned p (wi_unlinks io) (write_pid p s1)))" by (auto simp: run_locked_def)
      have 2: "lock_step ?h ?w" by (rule lock_step.Write) simp
      have "lock_step ?w (set_phase p Absent (flock_release p (remove_pid_if_owned p (wi_unlinks io) ?w)))"
        by (rule lock_step.Disabled) simp
      moreover have "set_phase p Absent (flock_release p (remove_pid_if_owned p (wi_unlinks io) ?w)) = s'"
        by (cases s1) (simp add: s' set_phase_def flock_release_def remove_pid_if_owned_def write_pid_def read_existing_pid_def)
      ultimately show ?thesis using 1 2 by (auto simp: s' intro: converse_rtranclp_into_rtranclp)
    qed
  qed
qed

lemma run_locked_body: "snd (run_locked io body p s) = snd (run_locked io (Inr ()) p s)"
  by (simp add: run_locked_def split: sum.splits option.splits)

lemma worker_runs:
  assumes "s' \<in> {snd (ann_run_worker env base stop inputs io p s), snd (guard_run_worker genv gpasses io p s),
    snd (xlive_run_worker os path xpasses io p s)}"
  shows "s' = set_phase p Absent s \<or> (\<exists>io. s' = snd (run_locked io (Inr ()) p s))"
  using assms run_locked_body [of "io\<lparr>wi_log_file := Inr ()\<rparr>" "worker_main env base stop inputs" p s]
    run_locked_body [of io "guard_worker_main genv gpasses" p s]
    run_locked_body [of io "xlive_worker_main os path xpasses" p s]
  unfolding ann_run_worker_def guard_run_worker_def xlive_run_worker_def
  by (cases "guard_load_config genv"; cases "xlive_load_config os path") auto

lemma run_locked_free:
  assumes "holder s \<noteq> Some p" "run_locked io body p s = (r, s')"
  shows "holder s' = holder s"
  using assms by (auto simp: run_locked_def acquire_Some split: sum.splits option.splits)

text \<open>
  Each worker, from its first to its last statement and however it ends, is a run of the interleaved
  steps after which the process is gone and the lock is as it was before.
\<close>

theorem workers_refine:
  assumes "s' \<in> {snd (ann_run_worker env base stop inputs io p s), snd (guard_run_worker genv gpasses io p s),
      snd (xlive_run_worker os path xpasses io p s)}"
    and "phases s p = Starting" "holder s \<noteq> Some p"
  shows "lock_step\<^sup>*\<^sup>* s s' \<and> phases s' p = Absent \<and> holder s' = holder s"
proof -
  from worker_runs [OF assms(1)] show ?thesis
  proof
    assume s': "s' = set_phase p Absent s"
    have "lock_step s (set_phase p Absent (flock_release p s))" using assms(2) by (intro lock_step.Die) simp
    moreover have "flock_release p s = s" using assms(3) by (simp add: flock_release_def)
    ultimately show ?thesis by (auto simp: s')
  next
    assume "\<exists>io. s' = snd (run_locked io (Inr ()) p s)"
    then obtain io' r where r: "run_locked io' (Inr ()) p s = (r, s')" by (metis prod.collapse)
    from run_locked_steps [OF assms(2,3) r] run_locked_free [OF assms(3) r] show ?thesis by blast
  qed
qed

subsection \<open>A launch and the worker it starts\<close>

lemma reach_steps: "lock_step\<^sup>*\<^sup>* s s' \<Longrightarrow> lock_reachable s \<Longrightarrow> lock_reachable s'"
  by (induction rule: rtranclp_induct) (auto intro: lock_reachable.further)

lemma free_lock:
  assumes "lock_reachable s" "\<And>q. phases s q \<notin> {Probing, Holding, Running}"
  shows "holder s = None"
  using holder_phase [OF reachable_inv [OF assms(1)]] assms(2) by (cases "holder s") (auto simp: lock_phases_def)

text \<open>The answers of a system on which nothing fails, with \<open>c\<close> the number of the new process.\<close>

definition smooth_launch :: "pid \<Rightarrow> launch_io" where
  "smooth_launch c = \<lparr>li_probe_dir = Inr (), li_lock_opens = True, li_log_dirs = Inr (), li_log_file = Inr (),
     li_popen = Inr c, li_pid_file = Inr ()\<rparr>"

definition smooth_worker :: worker_io where
  "smooth_worker = \<lparr>wi_lock_file = Inr (), wi_pid_file = Inr (), wi_log_file = Inr (), wi_unlinks = True\<rparr>"

lemma smooth_spawn:
  assumes "holder s = None" "ann_load_config env = Inr config" "launch_wanted config"
  shows "ann_launch_background_worker env (smooth_launch c) p s = (Inr 0, write_pid c (spawned c s))"
proof -
  have "probe (smooth_launch c) p s = (Inr False, s)"
    using assms(1) by (cases s)
      (simp add: probe_def smooth_launch_def previous_worker_alive_def flock_exclusive_def flock_release_def)
  then show ?thesis using assms(2,3)
    by (simp add: ann_launch_background_worker_def ann_spawn_def smooth_launch_def)
qed

lemma smooth_run:
  assumes "holder s = None" "0 \<le> c" "c < 10 ^ 7"
  shows "run_locked (smooth_worker\<lparr>wi_log_file := Inr ()\<rparr>) body c s = (bindR body (\<lambda>r. Inr (Some r)),
    set_phase c Absent (s\<lparr>lock_text := pid_text c, pid_file := Missing\<rparr>))"
  using assms(1) str_of_pid [OF assms(2,3)]
  by (cases s) (simp add: run_locked_def smooth_worker_def acquire_worker_lock_def flock_exclusive_def
      remove_pid_if_owned_def flock_release_def set_phase_def write_pid_def read_existing_pid_def)

text \<open>
  C38.  The whole life of a worker of the announcer: from any reachable state in which no process tests or
  holds the lock, on a system on which nothing fails, the launcher starts the worker and records its number;
  the worker runs its loop to the end; afterwards the state is again one from which this can be repeated, with
  no PID file left.
\<close>

theorem ann_launch_runs:
  assumes "lock_reachable s" "\<And>q. phases s q \<notin> {Probing, Holding, Running}"
    and "phases s p = Absent" "phases s c = Absent" "c \<noteq> p" "0 \<le> c" "c < 10 ^ 7"
    and "ann_load_config env = Inr config" "launch_wanted config"
  shows "\<exists>s1 s2. ann_launch_background_worker env (smooth_launch c) p s = (Inr 0, s1) \<and>
    phases s1 c = Starting \<and> read_existing_pid s1 = Some c \<and>
    ann_run_worker wenv base stop inputs smooth_worker c s1 =
      (bindR (worker_main wenv base stop inputs) (\<lambda>st. Inr (Some st)), s2) \<and>
    lock_reachable s1 \<and> lock_reachable s2 \<and> phases s2 = phases s \<and> pid_file s2 = Missing"
proof -
  note free = free_lock [OF assms(1,2)]
  let ?s1 = "write_pid c (spawned c s)"
  let ?s2 = "set_phase c Absent (?s1\<lparr>lock_text := pid_text c, pid_file := Missing\<rparr>)"
  note l = smooth_spawn [OF free assms(8,9), of c p]
  have "li_popen (smooth_launch c) = Inr c" by (simp add: smooth_launch_def)
  with launchers_refine_states [of "Inr 0" ?s1 env "smooth_launch c" p s] l assms(3-5)
  have r1: "lock_reachable ?s1" using reach_steps [OF _ assms(1)] by auto
  have h1: "holder ?s1 = None" using free by simp
  note w = smooth_run [OF h1 assms(6,7), of "worker_main wenv base stop inputs"]
  have "phases ?s1 c = Starting" by simp
  from run_locked_steps [OF this _ w] h1 r1 have r2: "lock_reachable ?s2" using reach_steps by auto
  have "phases ?s2 = phases s" using assms(4) by (auto simp: set_phase_def)
  with l w r1 r2 read_written [OF assms(6,7), of "spawned c s"] show ?thesis
    by (intro exI [of _ ?s1] exI [of _ ?s2]) (simp add: ann_run_worker_def)
qed

text \<open>
  A guard that cannot record its worker ends with an exception after the worker has been started; the announcer
  returns 0 in that case.
\<close>

theorem guard_launch_unrecorded:
  assumes "guard_load_config env = Inr config" "gc_enabled config" "holder s = None"
    and "io = (smooth_launch c)\<lparr>li_pid_file := Inl OSError\<rparr>"
  shows "guard_launch_background_worker env io p s = (Inl OSError, spawned c s)"
proof -
  have "probe io p s = (Inr False, s)"
    using assms(3) by (cases s)
      (simp add: assms(4) probe_def smooth_launch_def previous_worker_alive_def flock_exclusive_def flock_release_def)
  then show ?thesis using assms(1,2)
    by (simp add: guard_launch_background_worker_def daemon_launch_def daemon_spawn_def assms(4) smooth_launch_def)
qed

subsection \<open>Witnesses\<close>

lemma init_sel: "phases lock_init q = Absent" "holder lock_init = None"
  by (simp_all add: lock_init_def)

lemma sample_wanted: "launch_wanted ann_sample_config"
  by (simp add: launch_wanted_def ann_sample_config_def)

theorem launchers_refine_witness:
  "lock_step\<^sup>*\<^sup>* lock_init (write_pid 2 (spawned 2 lock_init))"
proof -
  have "ann_launch_background_worker ann_sample_env (smooth_launch 2) 1 lock_init =
      (Inr 0, write_pid 2 (spawned 2 lock_init))"
    by (rule smooth_spawn [OF _ ann_sample_load sample_wanted]) (simp add: init_sel)
  then have "(Inr 0, write_pid 2 (spawned 2 lock_init)) \<in>
     {ann_launch_background_worker ann_sample_env (smooth_launch 2) 1 lock_init,
      guard_launch_background_worker undefined (smooth_launch 2) 1 lock_init,
      xlive_launch_background_worker undefined undefined (smooth_launch 2) 1 lock_init}" by simp
  from launchers_refine [OF this] show ?thesis by (simp add: init_sel smooth_launch_def)
qed

theorem workers_refine_witness:
  "\<exists>s'. lock_step\<^sup>*\<^sup>* (spawned 2 lock_init) s' \<and> phases s' 2 = Absent"
  using workers_refine [of "snd (ann_run_worker ann_sample_env 0 True [] smooth_worker 2 (spawned 2 lock_init))"
      ann_sample_env 0 True "[]" smooth_worker 2 "spawned 2 lock_init" undefined "[]" undefined "[]" "[]"]
  by (auto simp: init_sel)

theorem ann_launch_runs_witness:
  "\<exists>s1 s2. ann_launch_background_worker ann_sample_env (smooth_launch 2) 1 lock_init = (Inr 0, s1) \<and>
    read_existing_pid s1 = Some 2 \<and>
    ann_run_worker ann_sample_env 0 True [] smooth_worker 2 s1 =
      (bindR (worker_main ann_sample_env 0 True []) (\<lambda>st. Inr (Some st)), s2) \<and> pid_file s2 = Missing"
  using ann_launch_runs [OF lock_reachable.initial _ _ _ _ _ _ ann_sample_load sample_wanted, of 1 2 ann_sample_env 0 True "[]"]
  by (auto simp: init_sel)

end
