(* ===== verification/Guard_Claims.thy ===== *)
theory Guard_Claims
  imports Guard_Worker
begin

section \<open>\<open>50-rcon-live-guard.py\<close>: properties\<close>

subsection \<open>A sample run: a chat message that names the address of another player\<close>

definition guard_sample_env :: guard_env where
  "guard_sample_env = \<lparr>ge_os = ann_sample_os, ge_compile = sample_compile, ge_ext = (\<lambda>_ _. Inl ValueError)\<rparr>"

definition sample_status :: string where
  "sample_status = ''print'' @ [CHR 0x0A] @ ''map: mp/ffa3'' @ [CHR 0x0A] @
     ''num score ping name            lastmsg address               qport rate'' @ [CHR 0x0A] @
     ''--- ----- ---- --------------- ------- --------------------- ----- -----'' @ [CHR 0x0A] @
     ''  0     0  999 ^7Mallory             0 203.0.113.1:29071        32000 25000'' @ [CHR 0x0A] @
     ''  1    10   50 Robin               0 203.0.113.5:45678        32000 25000'' @ [CHR 0x0A]"

definition sample_chat_at :: "rat \<Rightarrow> guard_input" where
  "sample_chat_at t = \<lparr>gi_env = guard_sample_env,
     gi_status = Replies ([255, 255, 255, 255] @ utf8_encode sample_status),
     gi_kick = TimesOut, gi_broadcast = TimesOut, gi_now = t,
     gi_line = ''say: Mallory: rcon from 203.0.113.5:1: x'' @ [CHR 0x0A]\<rparr>"

lemma sample_input_sel:
  "gi_env (sample_chat_at t) = guard_sample_env" "gi_now (sample_chat_at t) = t"
  "gi_status (sample_chat_at t) = Replies ([255, 255, 255, 255] @ utf8_encode sample_status)"
  "gi_kick (sample_chat_at t) = TimesOut" "gi_broadcast (sample_chat_at t) = TimesOut"
  "gi_line (sample_chat_at t) = ''say: Mallory: rcon from 203.0.113.5:1: x'' @ [CHR 0x0A]"
  "ge_os guard_sample_env = ann_sample_os" "ge_ext guard_sample_env = (\<lambda>_ _. Inl ValueError)"
  by (simp_all add: sample_chat_at_def guard_sample_env_def)

lemma narrow_codes: "map narrow_char (map code s) = s"
  by (induction s) (simp_all add: narrow_char_def code_bounds)

lemma guard_reply_text: "guard_reply ([255, 255, 255, 255] @ utf8_encode s) = ''????'' @ rstrip s"
proof -
  have "map narrow_char (replicate 4 replacement_char) = ''????''"
    by (simp add: numeral_eq_Suc narrow_char_def replacement_char_def)
  then show ?thesis by (simp only: guard_reply_def reply_prefix map_append narrow_codes)
qed

lemma sample_detect:
  "try_detect_rcon_attempt (''say: Mallory: rcon from 203.0.113.5:1: x'' @ [CHR 0x0A]) default_rcon_patterns =
     Inr (Some (''203.0.113.5:1'', Some ''x''))"
  by code_simp

lemma sample_players:
  "players_of (''????'' @ rstrip sample_status) =
     Inr [\<lparr>pl_slot = 0, pl_name = ''Mallory'', pl_address = ''203.0.113.1:29071''\<rparr>,
          \<lparr>pl_slot = 1, pl_name = ''Robin'', pl_address = ''203.0.113.5:45678''\<rparr>]"
  by code_simp

lemma sample_found:
  "find_player_slot_by_ip [\<lparr>pl_slot = 0, pl_name = ''Mallory'', pl_address = ''203.0.113.1:29071''\<rparr>,
     \<lparr>pl_slot = 1, pl_name = ''Robin'', pl_address = ''203.0.113.5:45678''\<rparr>] ''203.0.113.5:1'' = Some (1, ''Robin'')"
  "is_ignored_ip ''203.0.113.5:1'' default_ignore_ip_hosts = False" "bare_ip ''203.0.113.5:1'' = ''203.0.113.5''"
  by code_simp+

lemma sample_formats:
  "py_format (\<lambda>_ _. Inl ValueError) [(''slot'', JInt 1)] default_kick_template = Inr ''clientkick 1''"
  "py_format (\<lambda>_ _. Inl ValueError) [(''player'', JStr ''Robin''), (''slot'', JInt 1), (''ip'', JStr ''203.0.113.5'')]
     default_broadcast_template = Inr ''^1Robin was kicked for attempting to access server RCON.''"
  "guard_escape_command_argument ''Robin'' = ''Robin''"
  by code_simp+

lemma sample_password_port:
  "guard_effective_rcon_password ann_sample_os = Inr (Some ''pw'')" "guard_current_server_port ann_sample_os = Inr 29070"
  by code_simp+

definition sample_sent :: "datagram list" where
  "sample_sent = map (guard_datagram guard_shipped 29070 ''pw'')
     [''status'', ''clientkick 1'', command_line ''svsay'' ''^1Robin was kicked for attempting to access server RCON.'']"

lemma sample_punish:
  "punish (sample_chat_at t) guard_shipped 29070 ''pw'' ''203.0.113.5:1'' (1, ''Robin'') = (tl sample_sent, Inr True)"
  by (simp add: punish_def sample_found sample_formats sample_input_sel guard_shipped_sel
      guard_send_rcon_command_def socket_check_def max_timeout_seconds_def sample_sent_def guard_datagram_def
      guard_broadcast_command_line Let_def)

lemma sample_enforce:
  "enforce_rcon_attempt (sample_chat_at t) ''203.0.113.5:1'' guard_shipped = (sample_sent, Inr True)"
proof -
  note players = sample_players [folded guard_reply_text, simplified append_Cons append_Nil]
  have "sample_sent = guard_datagram guard_shipped 29070 ''pw'' ''status'' # tl sample_sent"
    by (simp add: sample_sent_def)
  moreover have "enforce_rcon_attempt (sample_chat_at t) ''203.0.113.5:1'' guard_shipped =
      (guard_datagram guard_shipped 29070 ''pw'' ''status'' # tl sample_sent, Inr True)"
    unfolding enforce_rcon_attempt_def Let_def
    by (simp add: players sample_found sample_password_port sample_punish sample_input_sel guard_shipped_sel
      del: find_player_slot_by_ip.simps add: guard_send_rcon_command_def socket_check_def max_timeout_seconds_def guard_datagram_def)
  ultimately show ?thesis by simp
qed

subsection \<open>Properties\<close>

definition guard_sample_pass :: guard_pass_input where
  "guard_sample_pass = \<lparr>gp_os = ann_sample_os\<lparr>environ := (environ ann_sample_os)
       (''TAYSTJK_ACTIVE_SERVER_LOG_PATH'' \<mapsto> ''server.log''), file_at := (\<lambda>p. if p = ''server.log'' then Text [] else Missing)\<rparr>,
     gp_exists = (\<lambda>p. p = ''server.log''), gp_starts = True, gp_lines = map sample_chat_at [100, 105, 120]\<rparr>"

lemma guard_sample_pass_sel: "gp_lines guard_sample_pass = map sample_chat_at [100, 105, 120]"
  by (simp add: guard_sample_pass_def)

definition sample_action :: "rat \<Rightarrow> guard_action" where
  "sample_action t = \<lparr>ga_input = sample_chat_at t, ga_source = ''203.0.113.5:1'', ga_sent = sample_sent, ga_result = Inr True\<rparr>"

definition sample_worker :: guard_worker where
  "sample_worker = \<lparr>gw_state = \<lparr>last_action_for_ip = [(''203.0.113.5'', 120)], actions = [sample_action 100, sample_action 120]\<rparr>,
     gw_backoff = 1, gw_slept = [1]\<rparr>"

lemma guard_sample_loads: "guard_load_config guard_sample_env = Inr guard_shipped"
  by (rule guard_shipped_loads) (simp_all add: guard_sample_env_def sample_compiles is_file_def ann_sample_os_def)

lemma sample_plan: "tail_plan guard_shipped guard_sample_pass 1 = Inr (Follow ''server.log'')"
proof -
  have "preferred_tail_source (gp_os guard_sample_pass) guard_shipped = Inr (Some (''server.log'', ''server-log''))"
    "gp_exists guard_sample_pass ''server.log''" "gp_starts guard_sample_pass"
    by code_simp+
  then show ?thesis by (simp add: tail_plan_def)
qed

lemma sample_line:
  "guard_line guard_shipped (sample_chat_at t) st =
     (case guard_gate 10 ''203.0.113.5'' t (last_action_for_ip st) of
        None \<Rightarrow> Inr st
      | Some table \<Rightarrow> Inr \<lparr>last_action_for_ip = table, actions = actions st @ [sample_action t]\<rparr>)"
  using sample_detect
  by (simp add: guard_line_def sample_input_sel guard_shipped_sel sample_found sample_enforce sample_action_def
      split: option.split)

lemma sample_lines:
  "foldR (guard_line guard_shipped) (map sample_chat_at [100, 105, 120]) guard_init = Inr (gw_state sample_worker)"
  by (simp add: sample_line guard_gate_def dict_set_def guard_init_def sample_worker_def)

lemma sample_worker_run: "guard_worker_main guard_sample_env [guard_sample_pass] = Inr sample_worker"
proof -
  have "guard_diagnostics ann_sample_os = Inr ()" by code_simp
  moreover have "guard_pass guard_shipped guard_sample_pass guard_worker_init = Inr sample_worker"
    using sample_plan sample_lines
    by (simp add: guard_pass_def guard_worker_init_def guard_sample_pass_sel del: foldR.simps list.map)
       (simp add: sample_worker_def)
  ultimately show ?thesis
    by (simp add: guard_worker_main_def guard_sample_loads guard_shipped_sel sample_input_sel)
qed

lemma find_player_listed:
  "find_player_slot_by_ip players src = Some (slot, name) \<Longrightarrow>
   \<exists>p \<in> set players. bare_ip (pl_address p) = bare_ip src \<and> pl_slot p = slot \<and> pl_name p = name"
  by (induction players) (auto split: if_splits)

text \<open>A kick of a player whom the status reply lists with the address of the attempt, or a broadcast.\<close>

definition listed_command :: "guard_config \<Rightarrow> guard_action \<Rightarrow> string \<Rightarrow> bool" where
  "listed_command config a cmd \<longleftrightarrow>
     (\<exists>response players. gi_status (ga_input a) = Replies response \<and>
        players_of (guard_reply response) = Inr players \<and>
        (\<exists>p \<in> set players. bare_ip (pl_address p) = bare_ip (ga_source a) \<and>
           cmd \<in> kick_commands (ga_input a) config (pl_slot p) \<union> broadcast_commands config))"

lemma enforcement_listed:
  assumes "enforcement_ok config (ga_input a) (ga_source a) (ga_sent a)" "ga_sent a \<noteq> []"
  obtains port pw cmds where "ga_sent a = map (guard_datagram config port pw) (''status'' # cmds)"
    "list_all (listed_command config a) cmds"
proof -
  from assms obtain port pw more where sent: "ga_sent a = guard_datagram config port pw ''status'' # more"
    and more: "more \<noteq> [] \<longrightarrow> (\<exists>response players slot name.
        gi_status (ga_input a) = Replies response \<and> players_of (guard_reply response) = Inr players \<and>
        find_player_slot_by_ip players (ga_source a) = Some (slot, name) \<and>
        set more \<subseteq> guard_datagram config port pw ` (kick_commands (ga_input a) config slot \<union> broadcast_commands config))"
    by (auto simp: enforcement_ok_def)
  have "\<exists>cmds. more = map (guard_datagram config port pw) cmds \<and> list_all (listed_command config a) cmds"
  proof (cases "more = []")
    case False
    with more obtain response players slot name where r: "gi_status (ga_input a) = Replies response"
      "players_of (guard_reply response) = Inr players"
      and f: "find_player_slot_by_ip players (ga_source a) = Some (slot, name)"
      and s: "set more \<subseteq> guard_datagram config port pw ` (kick_commands (ga_input a) config slot \<union> broadcast_commands config)"
      by blast
    from find_player_listed [OF f] r have listed:
      "\<forall>cmd \<in> kick_commands (ga_input a) config slot \<union> broadcast_commands config. listed_command config a cmd"
      unfolding listed_command_def by blast
    from s have "more \<in> map (guard_datagram config port pw) ` lists (kick_commands (ga_input a) config slot \<union> broadcast_commands config)"
      by (simp add: lists_image [symmetric] in_lists_conv_set subset_iff)
    with listed show ?thesis by (auto simp: list_all_iff in_lists_conv_set)
  qed simp
  with sent that show thesis by auto
qed

text \<open>
  C11.  The guard acts on listed players only: in every run of the worker each enforcement answers a line that
  names an address outside the ignore list; it sends nothing, or first the status query, and then
  only kicks of the slot of a player whom the reply to that query lists with the same address, and
  broadcasts.
\<close>

theorem guard_only_players:
  assumes "guard_worker_main env ps = Inr w" and "a \<in> set (actions (gw_state w))"
  shows "\<exists>config. guard_load_config env = Inr config \<and>
    guard_request config (ga_input a) = Some (ga_source a) \<and>
    (ga_sent a = [] \<or> (\<exists>port pw cmds. ga_sent a = map (guard_datagram config port pw) (''status'' # cmds) \<and>
       list_all (listed_command config a) cmds))"
proof -
  obtain config inps where c: "guard_load_config env = Inr config"
    and run: "foldR (guard_line config) inps guard_init = Inr (gw_state w)"
    using guard_worker_lines [OF assms(1)] .
  have "list_all (proper_action config) (actions (gw_state w))"
    by (rule guard_wire.run_all_ok [OF _ _ run]) (simp_all add: guard_init_def)
  with assms(2) have a: "guard_request config (ga_input a) = Some (ga_source a)"
    "enforcement_ok config (ga_input a) (ga_source a) (ga_sent a)"
    by (auto simp: list_all_iff proper_action_def)
  show ?thesis
  proof (cases "ga_sent a = []")
    case True
    with a(1) c show ?thesis by blast
  next
    case False
    obtain port pw cmds where "ga_sent a = map (guard_datagram config port pw) (''status'' # cmds)"
      "list_all (listed_command config a) cmds"
      by (rule enforcement_listed [OF a(2) False])
    with a(1) c show ?thesis by blast
  qed
qed

theorem guard_only_players_witness:
  "\<exists>port pw cmds. sample_sent = map (guard_datagram guard_shipped port pw) (''status'' # cmds) \<and>
     list_all (listed_command guard_shipped (sample_action 100)) cmds"
proof -
  have "sample_action 100 \<in> set (actions (gw_state sample_worker))" by (simp add: sample_worker_def)
  from guard_only_players [OF sample_worker_run this] show ?thesis
    by (simp add: guard_sample_loads sample_action_def sample_sent_def)
qed

text \<open>
  The run above shows what the unanchored search makes possible: Mallory's chat message kicks Robin.
\<close>

theorem guard_chat_kick:
  "\<exists>w. guard_worker_main guard_sample_env [guard_sample_pass] = Inr w \<and>
     map ga_sent (actions (gw_state w)) = replicate 2 (map (guard_datagram guard_shipped 29070 ''pw'')
       [''status'', ''clientkick 1'', command_line ''svsay'' ''^1Robin was kicked for attempting to access server RCON.''])"
  using sample_worker_run by (auto simp: sample_worker_def sample_action_def sample_sent_def numeral_2_eq_2)

text \<open>
  C12.  Enforcements are spaced: with a positive period two enforcements for the same address, without another
  for it between them, are at least the period apart by the monotonic clock, in any run of the worker
  and across restarts of \<open>tail\<close>.
\<close>

theorem guard_actions_spaced:
  assumes "guard_worker_main env ps = Inr w" and "guard_load_config env = Inr config" and "0 < gc_period config"
    and "actions (gw_state w) = xs @ a # ys @ b # zs" and "bare_ip (ga_source a) = bare_ip (ga_source b)"
    and "\<forall>c \<in> set ys. bare_ip (ga_source c) \<noteq> bare_ip (ga_source a)"
  shows "of_int (gc_period config) \<le> gi_now (ga_input b) - gi_now (ga_input a)"
proof -
  obtain inps where run: "foldR (guard_line config) inps guard_init = Inr (gw_state w)"
    using guard_worker_lines [OF assms(1)] assms(2) by (metis sum.inject(2))
  obtain n where n: "gc_period config = int (Suc n)"
    using assms(3) by (metis gr0_implies_Suc pos_int_cases)
  from guard_run_passed [OF n run] assms(4,5)
  have "guard_cd.passed n (last_action_for_ip guard_init) (guard_requests config inps) =
      map action_key xs @ (bare_ip (ga_source a), (), gi_now (ga_input a)) # map action_key ys @
      (bare_ip (ga_source a), (), gi_now (ga_input b)) # map action_key zs"
    by (simp add: guard_init_def action_key_def del: of_nat_Suc)
  moreover have "bare_ip (ga_source a) \<notin> fst ` set (map action_key ys)"
    using assms(6) by (auto simp: action_key_def)
  ultimately show ?thesis unfolding n by (rule guard_cd.passed_spaced)
qed

theorem guard_actions_spaced_witness:
  "of_int (gc_period guard_shipped) \<le> gi_now (sample_chat_at 120) - gi_now (sample_chat_at 100)"
proof -
  have "guard_load_config guard_sample_env = Inr guard_shipped" "0 < gc_period guard_shipped"
    "actions (gw_state sample_worker) = [] @ sample_action 100 # [] @ sample_action 120 # []"
    "bare_ip (ga_source (sample_action 100)) = bare_ip (ga_source (sample_action 120))"
    by (simp_all add: guard_sample_loads guard_shipped_sel sample_worker_def sample_action_def)
  from guard_actions_spaced [OF sample_worker_run this] show ?thesis by (simp add: sample_action_def)
qed

text \<open>
  C22.  What can end the worker: when the runtime environment files are valid UTF-8, the worker reads all its lines,
  whatever they say and whatever the network, the files and the templates do, or it ends with an
  \<open>AttributeError\<close> at a line in which a configured pattern is found with one of its groups \<open>ip\<close> and \<open>command\<close> taking
  no part in the match.  The shipped patterns have no such match.
\<close>

theorem guard_worker_survives:
  assumes "guard_load_config env = Inr config"
    and "env_decodable (ge_os env)" and "\<forall>p \<in> set ps. env_decodable (gp_os p)"
  shows "(\<exists>w. guard_worker_main env ps = Inr w) \<or>
    (guard_worker_main env ps = Inl AttributeError \<and> (\<exists>p \<in> set ps. \<exists>inp \<in> set (gp_lines p). \<exists>pat \<in> set (gc_patterns config).
       group_missing pat (guard_strip_ansi (gi_line inp)) \<and> pat \<notin> set default_rcon_patterns))"
proof (cases "guard_worker_main env ps")
  case (Inl e)
  have "\<exists>u. guard_diagnostics (ge_os env) = Inr u"
    using guard_load_runtime_env_total [OF assms(2)] guard_password_port_total [OF assms(2)]
    by (auto simp: guard_diagnostics_def)
  with Inl assms(1) have "foldR (guard_pass config) ps guard_worker_init = Inl e"
    by (auto simp: guard_worker_main_def split: if_splits)
  then obtain p w where p: "p \<in> set ps" "guard_pass config p w = Inl e" using foldR_Inl by metis
  have "pat \<notin> set default_rcon_patterns" if "group_missing pat s" for pat s
    using that sound_not_missing default_patterns_sound by (auto simp: list_all_iff)
  with guard_pass_error [OF p(2)] p(1) assms(3) Inl show ?thesis by blast
qed blast

theorem guard_worker_survives_witness: "\<exists>w. guard_worker_main guard_sample_env [guard_sample_pass] = Inr w"
proof -
  have "env_decodable (ge_os guard_sample_env)" "\<forall>p \<in> set [guard_sample_pass]. env_decodable (gp_os p)"
    by (simp_all add: env_decodable_def sample_input_sel ann_sample_os_def guard_sample_pass_def runtime_env_path_def)
  from guard_worker_survives [OF guard_sample_loads this] show ?thesis by (auto simp: guard_shipped_sel)
qed

text \<open>
  The worker never spins: every pass of its outer loop sleeps exactly once, between one and thirty
  seconds, and the backoff of a \<open>tail\<close> that does not start stays in that range.
\<close>

theorem guard_never_spins:
  assumes "guard_worker_main env ps = Inr w" and "guard_load_config env = Inr config" and "gc_enabled config"
  shows "length (gw_slept w) = length ps \<and> (\<forall>n \<in> set (gw_slept w). 1 \<le> n \<and> n \<le> 30) \<and>
    1 \<le> gw_backoff w \<and> gw_backoff w \<le> 30"
proof -
  have run: "foldR (guard_pass config) ps guard_worker_init = Inr w"
    using assms by (auto simp: guard_worker_main_def bindR_eq_Inr)
  have init: "backoff_ok guard_worker_init" "gw_slept guard_worker_init = []"
    by (simp_all add: backoff_ok_def guard_worker_init_def)
  from guard_passes_count [OF run init(1)] guard_sleeps.run_all_ok [OF init run] guard_sleeps.run_inv [OF init(1) run]
  show ?thesis by (simp add: init(2) backoff_ok_def list_all_iff)
qed

theorem guard_never_spins_witness: "length (gw_slept sample_worker) = length [guard_sample_pass]"
  using guard_never_spins [OF sample_worker_run guard_sample_loads] by (simp add: guard_shipped_sel)

subsection \<open>The broadcast escapes a name twice\<close>

text \<open>
  The name is escaped when it is put into the template and again with the whole message, so a reader of the quoted
  argument finds the escaped name: a name with a quote or a backslash is not shown as it is.
\<close>

lemma default_broadcast_format:
  "py_format ext [(''player'', JStr n), (''slot'', JInt slot), (''ip'', JStr ip)] default_broadcast_template =
     Inr (''^1'' @ n @ '' was kicked for attempting to access server RCON.'')"
proof -
  have t: "fmt_go ext vs '' was kicked for attempting to access server RCON.'' =
      Inr '' was kicked for attempting to access server RCON.''" for vs
    by (rule fmt_go_no_braces) (simp add: no_braces_def)
  have f: "fmt_go ext vs (c # s) = bindR (fmt_go ext vs s) (\<lambda>r. Inr (c # r))"
    if "c \<noteq> CHR ''{''" "c \<noteq> CHR ''}''" for vs c s
    using that by (simp add: fmt_go.simps [of ext vs "c # s"])
  have p: "fmt_go ext vs (CHR ''{'' # ''player'' @ CHR ''}'' # u) =
      bindR (fmt_lookup vs ''player'') (\<lambda>v. bindR (fmt_go ext vs u) (\<lambda>r. Inr (v @ r)))" for vs u
    by (subst fmt_go.simps) (simp add: fmt_special_def)
  have "fmt_lookup [(''player'', JStr n), (''slot'', JInt slot), (''ip'', JStr ip)] ''player'' = Inr n"
    by (simp add: fmt_lookup_def is_decimal_def code_def in_range_def)
  with p [of _ "'' was kicked for attempting to access server RCON.''"] t f show ?thesis
    by (simp add: py_format_def default_broadcast_template_def)
qed

theorem guard_escapes_twice:
  assumes "py_format ext [(''player'', JStr (guard_escape_command_argument n)), (''slot'', JInt slot), (''ip'', JStr ip)]
      default_broadcast_template = Inr msg"
  shows "unquote (drop (Suc (length (gc_command config))) (guard_broadcast_line config msg)) =
    Some (''^1'' @ concat (map escape_char n) @ '' was kicked for attempting to access server RCON.'', [])"
proof -
  have "msg = ''^1'' @ guard_escape_command_argument n @ '' was kicked for attempting to access server RCON.''"
    using assms default_broadcast_format by simp
  moreover have "guard_escape_command_argument n = concat (map escape_char n)"
    by (simp add: guard_escape_command_argument_def escape_command_argument_def replace_twice)
  moreover have "guard_broadcast_line config msg = gc_command config @ '' '' @ quote_rcon_arg msg"
    by (simp add: guard_broadcast_line_def guard_escape_command_argument_def escape_command_argument_def quote_rcon_arg_def)
  ultimately show ?thesis using unquote_quote_append [of msg "[]"] by simp
qed

end
