(* ===== verification/Legacy_Live_Facts.thy ===== *)
theory Legacy_Live_Facts
  imports Legacy_Live
begin

section \<open>Facts about \<open>20-live-team-announcer.py\<close>\<close>

text \<open>
  The configuration is well typed, the runtime environment is read as the RCON guard reads it, a line
  of the engine is parsed back, and announcements are spaced and of the documented form.
\<close>

subsection \<open>Configuration\<close>

text \<open>The JSON types that a validated configuration has.\<close>

definition xlive_typed :: "dict \<Rightarrow> bool" where
  "xlive_typed c \<longleftrightarrow>
     (\<exists>b. get_none c ''enabled'' = JBool b) \<and> (\<exists>b. get_none c ''fallback_to_server_log'' = JBool b) \<and>
     (\<exists>t \<ge> 1. get_none c ''rcon_timeout_seconds'' = JInt t) \<and>
     (\<exists>p \<ge> 0. get_none c ''min_seconds_between_announcements'' = JInt p) \<and>
     (\<exists>cmd \<in> set allowed_announce_commands. get_none c ''announce_command'' = JStr cmd) \<and>
     (\<exists>h. h \<noteq> [] \<and> get_none c ''rcon_host'' = JStr h)"

lemma xlive_announce_command_allowed: "xlive_announce_command config \<in> set allowed_announce_commands"
  by (simp add: xlive_announce_command_def allowed_announce_commands_def Let_def)

lemma xlive_validate_typed:
  assumes "xlive_validate d = Inr c"
  shows "xlive_typed c"
proof -
  let ?d = "dict_set ''enabled'' (JBool (xlive_safe_bool (get_default d ''enabled'' (JBool True)) True)) d"
  from assms obtain t p where
    t: "safe_int (get_none ?d ''rcon_timeout_seconds'') 3 1 = Inr t" and
    p: "safe_int (get_none (dict_set ''rcon_timeout_seconds'' (JInt t) ?d)
          ''min_seconds_between_announcements'') 3 0 = Inr p" and
    c: "\<exists>b h cmd. c = dict_set ''fallback_to_server_log'' (JBool b) (dict_set ''rcon_host'' (JStr (host_or_local h))
       (dict_set ''announce_command'' (JStr (xlive_announce_command cmd))
         (dict_set ''min_seconds_between_announcements'' (JInt p) (dict_set ''rcon_timeout_seconds'' (JInt t) ?d))))"
    unfolding xlive_validate_def Let_def bindR_eq_Inr sum.inject xlive_helper_defs by blast
  from safe_int_min [OF _ t] safe_int_min [OF _ p] have "1 \<le> t" "0 \<le> p" by simp_all
  with c show ?thesis by (auto simp: xlive_typed_def host_or_local_nonempty xlive_announce_command_allowed)
qed

text \<open>
  C35.  Every configuration that \<open>load_config\<close> returns is well typed, whatever the file holds: the flags are
  booleans, the timeout an integer of at least one, the period a non-negative integer, the command
  one of the two known ones and the host a non-empty text; so the values the worker takes from it exist.
\<close>

theorem xlive_config_typed:
  assumes "xlive_load_config os p = Inr c"
  shows "xlive_typed c \<and> (\<exists>cfg. xlive_config_of c = Inr cfg \<and> 1 \<le> xc_timeout cfg \<and> 0 \<le> xc_cooldown cfg \<and>
    xc_command cfg \<in> set allowed_announce_commands \<and> xc_host cfg \<noteq> [])"
proof -
  have "xlive_typed c" using assms by (auto simp: xlive_load_config_def bindR_eq_Inr dest: xlive_validate_typed)
  then show ?thesis by (auto simp: xlive_typed_def xlive_config_of_def)
qed

theorem xlive_config_typed_witness:
  "\<exists>c. xlive_load_config (sample_env []) ''conf'' = Inr c \<and> xlive_typed c"
proof -
  have "xlive_load_config (sample_env []) ''conf'' = Inr xlive_default_config" by code_simp
  with xlive_config_typed [OF this] show ?thesis by blast
qed

interpretation xlive_rcon: rcon_config "\<lambda>(os, p). bindR (xlive_load_config os p) xlive_config_of"
  "\<lambda>cfg. [xc_command cfg]" xc_host xc_timeout
proof unfold_locales
  fix o' and c
  assume "(case o' of (os, p) \<Rightarrow> bindR (xlive_load_config os p) xlive_config_of) = Inr c"
  then obtain os p d where d: "xlive_load_config os p = Inr d" "xlive_config_of d = Inr c"
    by (auto simp: bindR_eq_Inr split: prod.splits)
  have "xlive_typed d" using d(1) by (auto simp: xlive_load_config_def bindR_eq_Inr dest: xlive_validate_typed)
  with d(2) show "set [xc_command c] \<subseteq> set allowed_announce_commands" "xc_host c \<noteq> []" "1 \<le> xc_timeout c"
    by (auto simp: xlive_typed_def xlive_config_of_def)
qed

subsection \<open>The runtime environment, as the RCON guard reads it\<close>

lemma env_line_agrees:
  assumes "runtime_env_line guard_tracked_keys l st = Inr st'"
  shows "guard_env_line l st = Inr st'"
proof -
  obtain k v where kv: "split_once (CHR ''='') (strip l) = (k, v)" by (rule prod.exhaust)
  from assms show ?thesis
    by (cases "shlex_split v") (auto simp: runtime_env_line_def guard_env_line_def guard_tokens_def kv Let_def split: if_splits)
qed

lemma env_lines_agree:
  "foldR (runtime_env_line guard_tracked_keys) ls st = Inr st' \<Longrightarrow> foldR guard_env_line ls st = Inr st'"
  by (induction ls arbitrary: st) (auto simp: bindR_eq_Inr dest: env_line_agrees)

lemma env_lines_errors: "foldR (runtime_env_line tracked) ls st = Inl e \<Longrightarrow> e = ValueError"
  by (rule foldR_errors [rotated]) (auto dest: runtime_env_line_errors)

lemma load_runtime_env_agrees:
  assumes "xlive_load_runtime_env os = Inr st"
  shows "guard_load_runtime_env os = Inr st"
proof (cases "read_text os runtime_env_path")
  case (Inl e)
  with assms show ?thesis
    by (auto simp: xlive_load_runtime_env_def guard_load_runtime_env_def Let_def split: if_splits)
next
  case (Inr t)
  with assms show ?thesis
    by (cases "foldR (runtime_env_line guard_tracked_keys) (splitlines t) (runtime_from_environ os guard_tracked_keys)")
       (auto simp: xlive_load_runtime_env_def guard_load_runtime_env_def Let_def split: if_splits
         dest: env_lines_agree env_lines_errors)
qed

text \<open>
  C36.  Where the runtime environment can be read at all by the old announcer, it and the RCON guard agree: on
  the values, the RCON password and the file to follow.  Only the old announcer fails on a badly quoted value.
\<close>

theorem xlive_guard_agree:
  assumes "xlive_load_runtime_env os = Inr st"
  shows "guard_load_runtime_env os = Inr st \<and>
    guard_effective_rcon_password os = xlive_effective_rcon_password os \<and>
    preferred_tail_source os config = xlive_preferred_tail_source os (gc_fallback config)"
  using load_runtime_env_agrees [OF assms] assms
  by (simp add: guard_effective_rcon_password_def xlive_effective_rcon_password_def preferred_tail_source_def
      xlive_preferred_tail_source_def xlive_active_server_config_path_def xlive_extract_rcon_password_def
      extract_rcon_password_from_config_def Let_def)

theorem xlive_guard_agree_witness:
  "guard_effective_rcon_password ann_sample_os = xlive_effective_rcon_password ann_sample_os"
proof -
  have "\<exists>st. xlive_load_runtime_env ann_sample_os = Inr st"
    by (simp add: xlive_load_runtime_env_def is_file_def ann_sample_os_def Let_def)
  then obtain st where "xlive_load_runtime_env ann_sample_os = Inr st" by blast
  from xlive_guard_agree [OF this] show ?thesis by blast
qed

subsection \<open>Lines of the engine\<close>

text \<open>The captures of the first match, at any position.\<close>

lemma match_caps: "map_option (\<lambda>m. snd (snd m)) (match_at r pv s) = first_match r (\<lambda>st. Some (snd (snd st))) (pv, s, [])"
proof -
  have "first_some (\<lambda>st. Some (f st)) xs = (case xs of [] \<Rightarrow> None | x # _ \<Rightarrow> Some (f x))"
    for f :: "mstate \<Rightarrow> caps" and xs by (cases xs) simp_all
  then show ?thesis by (simp add: match_at_def first_match split: list.splits)
qed

lemma search_skip:
  "(\<And>pv c t. c \<in> set pre \<Longrightarrow> match_at r pv (c # t) = None) \<Longrightarrow>
   (\<And>pv. first_match r (\<lambda>st. Some (snd (snd st))) (pv, s, []) = Some cs) \<Longrightarrow>
   search_from r pv (pre @ s) = Some cs"
proof (induction pre arbitrary: pv)
  case Nil
  then have "map_option (\<lambda>m. snd (snd m)) (match_at r pv s) = Some cs" by (simp add: match_caps)
  then show ?case by (auto simp: search_from.simps [of r pv s])
next
  case (Cons c pre)
  then show ?case by (simp add: search_from.simps [of r pv "c # pre @ s"])
qed

lemma sq_lit:
  "(\<And>pv. first_match (seqs rs) k (pv, s, cs) = Some x) \<Longrightarrow> first_match (seqs (lit t # rs)) k (pv, t @ s, cs) = Some x"
  unfolding fm_seqs(2) fm_lit .

lemma sq_star:
  assumes "list_all p u" "s = [] \<or> \<not> p (hd s)" "\<And>pv. first_match (seqs rs) k (pv, s, cs) = Some x"
  shows "first_match (seqs (star (Chr p) # rs)) k (pv, u @ s, cs) = Some x"
  unfolding fm_seqs(2) star_def by (rule fm_star [OF assms(1,2)]) (rule assms(3))

lemma sq_plus:
  assumes "u \<noteq> []" "list_all p u" "s = [] \<or> \<not> p (hd s)" "\<And>pv. first_match (seqs rs) k (pv, s, cs) = Some x"
  shows "first_match (seqs (plus (Chr p) # rs)) k (pv, u @ s, cs) = Some x"
  unfolding fm_seqs(2) by (rule fm_plus [OF assms(1-3)]) (rule assms(4))

lemma sq_grp_plus:
  assumes "u \<noteq> []" "list_all p u" "s = [] \<or> \<not> p (hd s)" "\<And>pv. first_match (seqs rs) k (pv, s, (n, u) # cs) = Some x"
  shows "first_match (seqs (Grp n (plus (Chr p)) # rs)) k (pv, u @ s, cs) = Some x"
  unfolding fm_seqs(2) by (rule fm_grp_plus [OF assms(1-3)]) (rule assms(4))

text \<open>A line of the engine, its parts, and what it needs to be read exactly.\<close>

record team_line =
  tl_slot :: string
  tl_address :: string
  tl_guid :: string
  tl_player :: string
  tl_old :: string
  tl_new :: string

definition team_text :: "team_line \<Rightarrow> string" where
  "team_text l = ''ChangeTeam:'' @ '' '' @ tl_slot l @ '' '' @ ''['' @ tl_address l @ '']'' @ '' '' @ ''('' @ tl_guid l @ '')'' @ '' '' @
     [CHR 0x22] @ tl_player l @ [CHR 0x22] @ '' '' @ tl_old l @ '' '' @ ''->'' @ '' '' @ tl_new l"

definition team_line_ok :: "team_line \<Rightarrow> bool" where
  "team_line_ok l \<longleftrightarrow> number (tl_slot l) \<and> CHR '']'' \<notin> set (tl_address l) \<and> CHR '')'' \<notin> set (tl_guid l) \<and>
     tl_player l \<noteq> [] \<and> CHR 0x22 \<notin> set (tl_player l) \<and>
     tl_old l \<noteq> [] \<and> list_all letter (tl_old l) \<and> tl_new l \<noteq> [] \<and> list_all letter (tl_new l)"

lemma sgr_id: "CHR 0x1B \<notin> set s \<Longrightarrow> re_sub sgr_re [] s = s"
  unfolding re_sub_def by (rule sub_from_none) (auto simp: match_at_def sgr_re_def seqs_def lit_def)

lemma letter_no_space: "letter c \<Longrightarrow> \<not> is_space c"
  by (auto simp: letter_def is_space_def in_range_def)

lemma team_match:
  assumes "team_line_ok l" "e = [] \<or> \<not> letter (hd e)"
  shows "first_match change_team_re (\<lambda>st. Some (snd (snd st))) (pv, team_text l @ e, []) =
    Some [(''new_team'', tl_new l), (''old_team'', tl_old l), (''player'', tl_player l)]"
proof -
  have blank: "list_all is_space '' ''" "'' '' \<noteq> []" by (simp_all add: blank_is_space)
  have slot: "tl_slot l \<noteq> []" "list_all is_decimal (tl_slot l)"
    and addr: "list_all (\<lambda>c. c \<noteq> CHR '']'') (tl_address l)" and guid: "list_all (\<lambda>c. c \<noteq> CHR '')'') (tl_guid l)"
    and player: "tl_player l \<noteq> []" "list_all (\<lambda>c. c \<noteq> CHR 0x22) (tl_player l)"
    and old: "tl_old l \<noteq> []" "list_all letter (tl_old l)" and new: "tl_new l \<noteq> []" "list_all letter (tl_new l)"
    using assms(1) by (auto simp: team_line_ok_def number_def list_all_iff)
  have word: "w @ s = [] \<or> \<not> is_space (hd (w @ s))" if "w \<noteq> []" "list_all letter w" for w s
    using that letter_no_space by (cases w) auto
  have num: "tl_slot l @ s = [] \<or> \<not> is_space (hd (tl_slot l @ s))" for s
    using slot decimal_no_space by (cases "tl_slot l") auto
  have mark: "c # s = [] \<or> \<not> is_space (hd (c # s))" if "c \<in> set ''[(-'' \<or> c = CHR 0x22" for c s
    using that by (auto simp: is_space_def in_range_def code_def)
  have stop: "'' '' @ s = [] \<or> \<not> is_decimal (hd ('' '' @ s))" "'' '' @ s = [] \<or> \<not> letter (hd ('' '' @ s))" for s
    by (simp_all add: blank_is_space letter_def in_range_def code_def)
  show ?thesis
    unfolding change_team_re_def ws_def digit_def team_text_def append_assoc
    apply (rule sq_lit)
    apply (rule sq_star [OF blank(1) num])
    apply (rule sq_plus [OF slot stop(1)])
    apply (rule sq_star [OF blank(1)], simp add: is_space_def in_range_def code_def)
    apply (rule sq_lit)
    apply (rule sq_star [OF addr], simp)
    apply (rule sq_lit)
    apply (rule sq_star [OF blank(1)], simp add: is_space_def in_range_def code_def)
    apply (rule sq_lit)
    apply (rule sq_star [OF guid], simp)
    apply (rule sq_lit)
    apply (rule sq_star [OF blank(1)], simp add: is_space_def in_range_def code_def)
    apply (rule sq_lit)
    apply (rule sq_grp_plus [OF player], simp)
    apply (rule sq_lit)
    apply (rule sq_plus [OF blank(2,1) word [OF old]])
    apply (rule sq_grp_plus [OF old stop(2)])
    apply (rule sq_star [OF blank(1)], simp add: is_space_def in_range_def code_def)
    apply (rule sq_lit)
    apply (rule sq_star [OF blank(1) word [OF new]])
    apply (rule sq_grp_plus [OF new assms(2)])
    apply (simp add: fm_seqs)
    done
qed

text \<open>
  C37.  A team change that the engine logs is read back exactly: player, old and new team, behind any prefix
  without a capital C (a timestamp, for instance) and in front of anything that does not go on with a letter.
\<close>

theorem change_team_roundtrip:
  assumes "team_line_ok l" and "e = [] \<or> \<not> letter (hd e)" and "CHR ''C'' \<notin> set pre"
    and "CHR 0x1B \<notin> set (pre @ team_text l @ e)"
  shows "parse_change_team (pre @ team_text l @ e) = Some (tl_player l, tl_old l, tl_new l)"
proof -
  have "match_at change_team_re pv (c # t) = None" if "c \<in> set pre" for pv c t
    using that assms(3) by (auto simp: match_at_def change_team_re_def seqs_def lit_def)
  then have "search_from change_team_re None (pre @ team_text l @ e) =
      Some [(''new_team'', tl_new l), (''old_team'', tl_old l), (''player'', tl_player l)]"
    by (rule search_skip) (assumption, rule team_match [OF assms(1,2)])
  then show ?thesis
    by (simp add: parse_change_team_def sgr_id [OF assms(4)] re_search_def named_group_def group_def)
qed

definition sample_team_line :: team_line where
  "sample_team_line = \<lparr>tl_slot = ''0'', tl_address = ''203.0.113.1:29070'', tl_guid = ''GUID'', tl_player = ''Padawan'',
     tl_old = ''SPECTATOR'', tl_new = ''RED''\<rparr>"

theorem change_team_roundtrip_witness:
  "parse_change_team (''12:00 '' @ team_text sample_team_line @ [CHR 0x0A]) = Some (''Padawan'', ''SPECTATOR'', ''RED'')"
proof -
  have "team_line_ok sample_team_line" "[CHR 0x0A] = [] \<or> \<not> letter (hd [CHR 0x0A])" "CHR ''C'' \<notin> set ''12:00 ''"
    "CHR 0x1B \<notin> set (''12:00 '' @ team_text sample_team_line @ [CHR 0x0A])"
    by code_simp+
  from change_team_roundtrip [OF this] show ?thesis by (simp add: sample_team_line_def)
qed

text \<open>The self-test the script ships passes.\<close>

theorem xlive_selftest: "xlive_run_selftest = 0"
  by code_simp

subsection \<open>The loop\<close>

lemma xlive_command_line: "xlive_command cfg m = command_line (xc_command cfg) m"
  by (simp add: xlive_command_def command_line_def quote_rcon_arg_def xlive_escape_command_argument_def
      escape_command_argument_def Let_def)

text \<open>What an announcement sends: at most one datagram, with the message in the configured command.\<close>

definition xlive_datagram :: "xlive_config \<Rightarrow> int \<Rightarrow> string \<Rightarrow> string \<Rightarrow> datagram" where
  "xlive_datagram cfg port pw m =
     \<lparr>d_host = xc_host cfg, d_port = port, d_payload = rcon_payload pw (command_line (xc_command cfg) m)\<rparr>"

lemma xlive_send_sent: "fst (xlive_send cfg os net m) = [] \<or> (\<exists>port pw. fst (xlive_send cfg os net m) = [xlive_datagram cfg port pw m])"
proof (cases "xlive_effective_rcon_password os")
  case (Inl e)
  then show ?thesis by (simp add: xlive_send_def)
next
  case (Inr pw)
  show ?thesis
  proof (cases "\<exists>p port. pw = Some p \<and> p \<noteq> [] \<and> xlive_current_server_port os = Inr port")
    case True
    then obtain p port where p: "pw = Some p" "p \<noteq> []" "xlive_current_server_port os = Inr port" by blast
    with Inr have "fst (xlive_send cfg os net m) =
        fst (xlive_send_rcon_command net (xc_host cfg) port p (xc_timeout cfg) (xlive_command cfg m))"
      by (simp add: xlive_send_def case_prod_beta)
    moreover have "\<dots> = [] \<or> \<dots> = [xlive_datagram cfg port p m]"
      by (auto simp: xlive_helper_defs ann_send_rcon_command_def xlive_datagram_def xlive_command_line Let_def
          split: option.splits net.splits)
    ultimately show ?thesis by metis
  next
    case False
    with Inr show ?thesis
      by (cases "xlive_current_server_port os") (auto simp: xlive_send_def split: option.splits)
  qed
qed

definition xlive_call_ok :: "xlive_config \<Rightarrow> xlive_call \<Rightarrow> bool" where
  "xlive_call_ok cfg c \<longleftrightarrow>
     xlive_request (xl_line c) = Some (xl_key c, xl_message c) \<and>
     (xl_sent c = [] \<or> (\<exists>port pw. xl_sent c = [xlive_datagram cfg port pw (xl_message c)]))"

lemma xlive_line_Inr:
  assumes "xlive_line cfg inp st = Inr st'"
  shows "(xlive_request (in_raw inp) = None \<and> st' = st) \<or>
    (\<exists>key m. xlive_request (in_raw inp) = Some (key, m) \<and>
       (xlive_gate (xc_cooldown cfg) key (in_now inp) (xs_announced st) = None \<and> st' = st \<or>
        (\<exists>table. xlive_gate (xc_cooldown cfg) key (in_now inp) (xs_announced st) = Some table \<and>
           st' = \<lparr>xs_announced = table, xs_calls = xs_calls st @
             [\<lparr>xl_line = in_raw inp, xl_key = key, xl_time = in_now inp, xl_message = m, xl_sent = fst (xlive_send cfg (in_os inp) (in_net inp) m)\<rparr>]\<rparr>)))"
proof (cases "xlive_request (in_raw inp)")
  case None
  with assms show ?thesis by (simp add: xlive_line_def)
next
  case (Some r)
  obtain key m where r: "r = (key, m)" by (cases r)
  show ?thesis
  proof (cases "xlive_gate (xc_cooldown cfg) key (in_now inp) (xs_announced st)")
    case None
    with assms Some r show ?thesis by (simp add: xlive_line_def)
  next
    case (Some table)
    with assms \<open>xlive_request (in_raw inp) = Some r\<close> r show ?thesis
      by (cases "snd (xlive_send cfg (in_os inp) (in_net inp) m)") (auto simp: xlive_line_def case_prod_beta bindR_eq_Inr)
  qed
qed

interpretation xlive_out: emitting_machine "xlive_line cfg" "\<lambda>_. True" xs_calls "xlive_call_ok cfg" for cfg
proof unfold_locales
  fix s e s' assume "xlive_line cfg e s = Inr s'"
  from xlive_line_Inr [OF this] xlive_send_sent show "\<exists>os. xs_calls s' = xs_calls s @ os \<and> list_all (xlive_call_ok cfg) os"
    by (auto simp: xlive_call_ok_def)
qed simp

interpretation xlive_cd: cooldown "\<lambda>key (_::unit). xlive_gate period key"
  "\<lambda>table key. map_option (Pair ()) (dict_get table key)" "of_int period" for period
  by unfold_locales (auto simp: xlive_gate_def Let_def fun_eq_iff split: if_splits option.splits)

fun xlive_requests :: "live_input list \<Rightarrow> ((string \<times> string) \<times> unit \<times> rat) list" where
  "xlive_requests [] = []"
| "xlive_requests (inp # inps) =
     (case xlive_request (in_raw inp) of
        None \<Rightarrow> xlive_requests inps
      | Some (key, m) \<Rightarrow> (key, (), in_now inp) # xlive_requests inps)"

definition call_key :: "xlive_call \<Rightarrow> (string \<times> string) \<times> unit \<times> rat" where
  "call_key c = (xl_key c, (), xl_time c)"

lemma xlive_run_passed:
  "foldR (xlive_line cfg) inps st = Inr st' \<Longrightarrow>
   map call_key (xs_calls st') =
     map call_key (xs_calls st) @ xlive_cd.passed (xc_cooldown cfg) (xs_announced st) (xlive_requests inps)"
proof (induction inps arbitrary: st)
  case (Cons inp inps)
  then obtain st1 where step: "xlive_line cfg inp st = Inr st1" and run: "foldR (xlive_line cfg) inps st1 = Inr st'"
    by (auto simp: bindR_eq_Inr)
  from xlive_line_Inr [OF step] Cons.IH [OF run] show ?case
    by (auto simp: call_key_def)
qed simp

text \<open>
  The old announcer announces what it should and spaces it: in every run each announcement belongs to a line
  with that key and message and sends at most one datagram, the message quoted in the configured command;
  two announcements of the same player and team are at least the period apart.
\<close>

theorem xlive_announcements:
  assumes "foldR (xlive_line cfg) inps xlive_init = Inr st"
  shows "list_all (xlive_call_ok cfg) (xs_calls st) \<and>
    (\<forall>xs a ys b zs. xs_calls st = xs @ a # ys @ b # zs \<and> xl_key a = xl_key b \<and> xl_key a \<notin> xl_key ` set ys \<longrightarrow>
       of_int (xc_cooldown cfg) \<le> xl_time b - xl_time a)"
proof (intro conjI allI impI)
  show "list_all (xlive_call_ok cfg) (xs_calls st)"
    by (rule xlive_out.run_all_ok [OF _ _ assms]) (simp_all add: xlive_init_def)
next
  fix xs a ys b zs
  assume c: "xs_calls st = xs @ a # ys @ b # zs \<and> xl_key a = xl_key b \<and> xl_key a \<notin> xl_key ` set ys"
  with xlive_run_passed [OF assms]
  have "xlive_cd.passed (xc_cooldown cfg) (xs_announced xlive_init) (xlive_requests inps) =
      map call_key xs @ (xl_key a, (), xl_time a) # map call_key ys @ (xl_key a, (), xl_time b) # map call_key zs"
    by (simp add: xlive_init_def call_key_def)
  moreover have "xl_key a \<notin> fst ` set (map call_key ys)" using c by (auto simp: call_key_def)
  ultimately show "of_int (xc_cooldown cfg) \<le> xl_time b - xl_time a" by (rule xlive_cd.passed_spaced)
qed

definition xlive_sample_config :: xlive_config where
  "xlive_sample_config = \<lparr>xc_enabled = True, xc_host = ''127.0.0.1'', xc_timeout = 3, xc_command = ''svsay'',
     xc_cooldown = 3, xc_fallback = True\<rparr>"

definition xlive_sample_input :: "rat \<Rightarrow> live_input" where
  "xlive_sample_input t = \<lparr>in_os = ann_sample_os, in_net = TimesOut, in_now = t, in_raw = team_text sample_team_line\<rparr>"

definition xlive_sample_call :: "rat \<Rightarrow> xlive_call" where
  "xlive_sample_call t = \<lparr>xl_line = team_text sample_team_line, xl_key = (''Padawan'', ''RED''), xl_time = t,
     xl_message = ''Padawan joined RED TEAM'',
     xl_sent = [xlive_datagram xlive_sample_config 29070 ''pw'' ''Padawan joined RED TEAM'']\<rparr>"

lemma xlive_sample_request:
  "xlive_request (team_text sample_team_line) = Some ((''Padawan'', ''RED''), ''Padawan joined RED TEAM'')"
  by code_simp

lemma xlive_sample_send:
  "xlive_send xlive_sample_config ann_sample_os TimesOut m = ([xlive_datagram xlive_sample_config 29070 ''pw'' m], Inr ())"
proof -
  have "xlive_effective_rcon_password ann_sample_os = Inr (Some ''pw'')" "xlive_current_server_port ann_sample_os = Inr 29070"
    by code_simp+
  then show ?thesis
    by (simp add: xlive_send_def xlive_send_rcon_command_def ann_send_rcon_command_def socket_check_def
        max_timeout_seconds_def xlive_sample_config_def xlive_datagram_def xlive_command_line)
qed

lemma xlive_sample_line:
  "xlive_line xlive_sample_config (xlive_sample_input t) st =
     (case xlive_gate 3 (''Padawan'', ''RED'') t (xs_announced st) of
        None \<Rightarrow> Inr st
      | Some table \<Rightarrow> Inr \<lparr>xs_announced = table, xs_calls = xs_calls st @ [xlive_sample_call t]\<rparr>)"
proof -
  have "xc_cooldown xlive_sample_config = 3" by (simp add: xlive_sample_config_def)
  then show ?thesis
    by (simp add: xlive_line_def xlive_sample_input_def xlive_sample_request xlive_sample_send xlive_sample_call_def
        split: option.split)
qed

theorem xlive_announcements_witness:
  "\<exists>st. foldR (xlive_line xlive_sample_config) (map xlive_sample_input [100, 101, 105]) xlive_init = Inr st \<and>
     xs_calls st = [xlive_sample_call 100, xlive_sample_call 105] \<and>
     of_int (xc_cooldown xlive_sample_config) \<le> xl_time (xlive_sample_call 105) - xl_time (xlive_sample_call 100)"
proof -
  let ?st = "\<lparr>xs_announced = [((''Padawan'', ''RED''), 105)], xs_calls = [xlive_sample_call 100, xlive_sample_call 105]\<rparr>"
  have run: "foldR (xlive_line xlive_sample_config) (map xlive_sample_input [100, 101, 105]) xlive_init = Inr ?st"
    by (simp add: xlive_sample_line xlive_gate_def dict_set_def xlive_init_def)
  have parts: "xs_calls ?st = [] @ xlive_sample_call 100 # [] @ xlive_sample_call 105 # [] \<and>
      xl_key (xlive_sample_call 100) = xl_key (xlive_sample_call 105) \<and>
      xl_key (xlive_sample_call 100) \<notin> xl_key ` set []"
    by (simp add: xlive_sample_call_def)
  have "of_int (xc_cooldown xlive_sample_config) \<le> xl_time (xlive_sample_call 105) - xl_time (xlive_sample_call 100)"
    using xlive_announcements [OF run] parts by blast
  with run show ?thesis by (intro exI [of _ ?st]) simp
qed

end
