(* ===== verification/Legacy_Chat_Parse.thy ===== *)
theory Legacy_Chat_Parse
  imports Chat_Writer
begin

section \<open>\<open>40-chatlogger.py\<close>: recognising chat in a log line\<close>

text \<open>
  The deprecated chat logger follows the server log itself.  This theory holds the path from a log line to an
  entry: the escape sequences, the two kinds of timestamps, the verb patterns, the fallback for unknown
  verbs, the printed form, and the self-test of the script.  The clock reading of a call (\<open>now\<close> and the name of
  its time zone) is an argument.
\<close>

subsection \<open>Text\<close>

definition xchat_strip_quake_colors :: "string \<Rightarrow> string" where
  "xchat_strip_quake_colors v = re_sub quake_color_re [] v"

definition xchat_strip_ansi :: "string \<Rightarrow> string" where
  "xchat_strip_ansi v = re_sub ansi_re [] v"

definition xchat_normalize_text :: "string \<Rightarrow> string" where
  "xchat_normalize_text v = strip (xchat_strip_quake_colors (xchat_strip_ansi v))"

subsection \<open>Prefixes\<close>

definition xchat_timestamp_re :: re where
  "xchat_timestamp_re = seqs
     [Bol,
      Grp ''stamp'' (seqs [times 4 digit, lit ''-'', times 2 digit, lit ''-'', times 2 digit, lit '' '',
                           times 2 digit, lit '':'', times 2 digit, lit '':'', times 2 digit]),
      plus ws, Grp ''body'' (star dot), Eol]"

definition match_time_re :: re where
  "match_time_re = seqs
     [Bol, seqs [digits_1_3, lit '':'', times 2 digit, opt (seqs [lit '':'', times 2 digit])],
      plus ws, Grp ''body'' (star dot), Eol]"

definition xchat_split_log_prefix :: "datetime \<Rightarrow> string \<Rightarrow> string \<times> string" where
  "xchat_split_log_prefix now raw_line =
     (let line = rstrip raw_line
      in case re_match xchat_timestamp_re line of
           Some cs \<Rightarrow> (named_group cs ''stamp'', strip (named_group cs ''body''))
         | None \<Rightarrow>
             (case re_match match_time_re line of
                Some cs \<Rightarrow> (stamp_text now, strip (named_group cs ''body''))
              | None \<Rightarrow> (stamp_text now, strip raw_line)))"

subsection \<open>Verbs\<close>

definition xchat_patterns :: "(channel \<times> re) list" where
  "xchat_patterns =
     [(WHISPER, tell_re whisper_verbs),
      (ADMIN_WHISPER, tell_re admin_tell_verbs),
      (TEAM, say_re team_verbs),
      (ADMIN, say_re admin_verbs),
      (PUBLIC, say_re public_verbs)]"

text \<open>\<open>r{1,n+1}\<close> and \<open>r{1,n+1}?\<close> are the body followed by these.\<close>

fun up_to :: "nat \<Rightarrow> re \<Rightarrow> re" where
  "up_to 0 r = Eps"
| "up_to (Suc n) r = Alt (Seq r (up_to n r)) Eps"

fun lazy_up_to :: "nat \<Rightarrow> re \<Rightarrow> re" where
  "lazy_up_to 0 r = Eps"
| "lazy_up_to (Suc n) r = Alt Eps (Seq r (lazy_up_to n r))"

definition ascii_letter :: "char \<Rightarrow> bool" where
  "ascii_letter c \<longleftrightarrow> in_range 65 90 c \<or> in_range 97 122 c"

definition generic_chat_re :: re where
  "generic_chat_re = seqs
     [Bol, Grp ''verb'' (seqs [Chr ascii_letter, Chr (\<lambda>c. alnum_char c \<or> c = CHR ''_''),
                               up_to 14 (Chr (\<lambda>c. alnum_char c \<or> c = CHR ''_''))]),
      star ws, lit '':'', star ws,
      Grp ''sender'' (Seq (Chr (\<lambda>c. c \<noteq> CHR '':'')) (lazy_up_to 63 (Chr (\<lambda>c. c \<noteq> CHR '':'')))),
      star ws, lit '':'', star ws, Grp ''message'' (plus dot), Eol]"

definition generic_verb_blocklist :: "string list" where
  "generic_verb_blocklist =
     [''initgame'', ''shutdowngame'', ''clientconnect'', ''clientdisconnect'', ''clientbegin'', ''changeteam'',
      ''kill'', ''item'', ''exit'', ''score'', ''challenge'', ''weapon'', ''duel'', ''info'', ''warning'',
      ''error'', ''broadcast'', ''rcon'', ''status'']"

definition xchat_sender_blocklist :: "string list" where
  "xchat_sender_blocklist = [''server'', ''taystjk'', ''openjk'']"

definition sender_slot_re :: re where
  "sender_slot_re = seqs [Bol, plus digit, times 2 ws, star ws]"

definition slot_score :: "string \<Rightarrow> bool" where
  "slot_score sender \<longleftrightarrow> re_match sender_slot_re sender \<noteq> None"

subsection \<open>Entries\<close>

record xchat_entry =
  le_stamp :: string
  le_channel :: channel
  le_sender :: string
  le_target :: "string option"
  le_message :: string

text \<open>What the loop over the patterns returns once one has matched.\<close>

definition known_entry :: "string \<Rightarrow> channel \<Rightarrow> caps \<Rightarrow> xchat_entry option" where
  "known_entry stamp ch cs =
     (let sender = xchat_normalize_text (named_group cs ''sender'');
          target = xchat_normalize_text (named_group cs ''target'');
          message = xchat_normalize_text (named_group cs ''message'')
      in if sender = [] \<or> message = [] then None
         else if lower sender \<in> set xchat_sender_blocklist then None
         else if slot_score sender then None
         else Some \<lparr>le_stamp = stamp, le_channel = ch, le_sender = sender,
                    le_target = (if target = [] then None else Some target), le_message = message\<rparr>)"

definition generic_entry :: "string \<Rightarrow> caps \<Rightarrow> xchat_entry option" where
  "generic_entry stamp cs =
     (if lower (named_group cs ''verb'') \<in> set generic_verb_blocklist then None
      else let sender = xchat_normalize_text (named_group cs ''sender'');
               message = xchat_normalize_text (named_group cs ''message'')
           in if sender \<noteq> [] \<and> message \<noteq> [] \<and> \<not> contains sender ''@@@'' \<and> \<not> contains message ''@@@'' \<and>
                 lower sender \<notin> set xchat_sender_blocklist \<and> \<not> slot_score sender
              then Some \<lparr>le_stamp = stamp, le_channel = PUBLIC, le_sender = sender, le_target = None,
                         le_message = message\<rparr>
              else None)"

definition parse_body :: "string \<Rightarrow> string \<Rightarrow> xchat_entry option" where
  "parse_body stamp body =
     (case first_some (\<lambda>(ch, r). map_option (\<lambda>cs. known_entry stamp ch cs) (re_match r body)) xchat_patterns of
        Some e \<Rightarrow> e
      | None \<Rightarrow> (case re_match generic_chat_re body of None \<Rightarrow> None | Some cs \<Rightarrow> generic_entry stamp cs))"

definition parse_chat_line :: "datetime \<Rightarrow> string \<Rightarrow> string \<Rightarrow> xchat_entry option" where
  "parse_chat_line now tzname raw_line =
     (if strip raw_line = [] then None
      else let (stamp, body) = xchat_split_log_prefix now (xchat_strip_ansi raw_line)
           in if body = [] then None
              else parse_body (stamp @ '' '' @ (if tzname = [] then ''LOCAL'' else tzname)) body)"

definition format_chat_entry :: "xchat_entry \<Rightarrow> string" where
  "format_chat_entry e =
     (let head = ''['' @ le_stamp e @ ''] ['' @ channel_name (le_channel e) @ ''] '' @ le_sender e
      in case le_target e of
           Some t \<Rightarrow> if le_channel e \<in> {WHISPER, ADMIN_WHISPER} \<and> t \<noteq> []
                     then head @ '' -> '' @ t @ '': '' @ le_message e
                     else head @ '': '' @ le_message e
         | None \<Rightarrow> head @ '': '' @ le_message e)"

subsection \<open>The self-test\<close>

definition esc :: string where
  "esc = [CHR 0x1B]"

definition must_match :: "string list" where
  "must_match =
     [''0:19 say: js hart: works like a charm now'',
      ''0:57 say: js hart: i type'',
      ''1:28 say: js hart^7: where u can see if fps is 20 or 30?'',
      ''2:00 sayteam: Akion: rally at duel room'',
      ''2:30 tell: Akion -> Robin: meet me at duel room'',
      ''3:00 amsay: Admin: server restart in 5'',
      ''3:30 amtell: Admin -> Robin: stop telekilling'',
      ''4:00 vsay: Akion: hi'',
      ''2026-04-18 19:32:39 say: js hart: hello with absolute timestamp'',
      ''5:00 modsay: Akion: future mod chat verb'',
      ''0:01 say: 1337h4x0r: hello'',
      ''0:05 say: '' @ esc @ ''[35mUsop'' @ esc @ ''[0m: i boss'',
      ''0:06 say: '' @ esc @ ''[31mPadawan'' @ esc @ ''[0m: kk'',
      ''0:07 say: Padawan: tete'' @ esc @ ''[0m'']"

definition must_not_match :: "string list" where
  "must_not_match =
     [''0:00 InitGame: '' @ [CHR 0x5C] @ ''version'' @ [CHR 0x5C] @ ''TaystJK'',
      ''0:00 ClientConnect: 0 [1.2.3.4] (X) '' @ [CHR 0x22] @ ''hart'' @ [CHR 0x22],
      ''0:00 ClientDisconnect: 0 [1.2.3.4] (X) '' @ [CHR 0x22] @ ''hart'' @ [CHR 0x22],
      ''0:00 @@@VOTEPASSED (g_gametype 6)'',
      ''0:00 say: : empty sender'',
      ''0:00 rcon: admin: status'',
      ''0:00 status: server: up'',
      [],
      ''0:00 say: server: [Anti-VPN] VPN PASS: Akion cleared checks (10/90). Score remained below the configured threshold.'',
      ''0:00 say: TaystJK: latest-86f04849f'',
      ''0:00 say: TaystJK: latest-86f04849f'' @ esc @ ''[0m'',
      ''0:00 say: 0  blue: 0'',
      ''0:00 say: 2  blue: 7'']"

definition ansi_cases :: "(string \<times> string \<times> string) list" where
  "ansi_cases =
     [(''0:05 say: '' @ esc @ ''[35mUsop'' @ esc @ ''[0m: i boss'', ''Usop'', ''i boss''),
      (''0:06 say: '' @ esc @ ''[31mPadawan'' @ esc @ ''[0m: kk'', ''Padawan'', ''kk''),
      (''0:07 say: Padawan: tete'' @ esc @ ''[0m'', ''Padawan'', ''tete'')]"

text \<open>The failures of one case, and the exit status.\<close>

definition ansi_case_fails :: "datetime \<Rightarrow> string \<Rightarrow> string \<times> string \<times> string \<Rightarrow> int" where
  "ansi_case_fails now tzname c =
     (let (raw, exp_sender, exp_message) = c
      in case parse_chat_line now tzname raw of
           None \<Rightarrow> 1
         | Some e \<Rightarrow> (if le_sender e \<noteq> exp_sender then 1 else 0) + (if le_message e \<noteq> exp_message then 1 else 0))"

definition xchat_run_selftest :: "datetime \<Rightarrow> string \<Rightarrow> int" where
  "xchat_run_selftest now tzname =
     (let failures = sum_list (map (ansi_case_fails now tzname) ansi_cases) +
            sum_list (map (\<lambda>raw. if parse_chat_line now tzname raw = None then 1 else 0) must_match) +
            sum_list (map (\<lambda>raw. if parse_chat_line now tzname raw \<noteq> None then 1 else 0) must_not_match)
      in if failures \<noteq> 0 then 1 else 0)"

end
