(* ===== verification/Legacy_Chat_Facts.thy ===== *)
theory Legacy_Chat_Facts
  imports Legacy_Chat_Parse Guard_Status "HOL-Library.Sublist"
begin

section \<open>Facts about the recogniser of \<open>40-chatlogger.py\<close>\<close>

text \<open>
  The self-test passes, every entry fits on one line and comes from a player, and the chat logger that
  replaced this one recognises the same chat in the lines with a known verb.
\<close>

subsection \<open>The self-test\<close>

lemma must_match_ok: "map (\<lambda>raw. parse_chat_line now tz raw = None) must_match = replicate 14 False"
  by code_simp

lemma must_not_match_ok: "map (\<lambda>raw. parse_chat_line now tz raw = None) must_not_match = replicate 13 True"
  by code_simp

lemma ansi_cases_ok: "map (ansi_case_fails now tz) ansi_cases = [0, 0, 0]"
  by code_simp

lemma count_constant:
  assumes "map P xs = replicate n b"
  shows "sum_list (map (\<lambda>x. if P x \<noteq> b then 1 else (0 :: int)) xs) = 0"
proof -
  have "P x = b" if "x \<in> set xs" for x
  proof -
    from that have "P x \<in> set (replicate n b)" unfolding assms [symmetric] by simp
    then show ?thesis by (auto split: if_splits)
  qed
  then show ?thesis by (simp add: sum_list_0 cong: map_cong)
qed

text \<open>The self-test of the script succeeds at any time of day in any time zone.\<close>

theorem xchat_selftest: "xchat_run_selftest now tz = 0"
proof -
  have "sum_list (map (\<lambda>raw. if parse_chat_line now tz raw = None then 1 else 0) must_match) = (0 :: int)"
    using count_constant [OF must_match_ok [of now tz]] by (simp only: not_False_eq_True eq_False not_not)
  moreover have "sum_list (map (\<lambda>raw. if parse_chat_line now tz raw \<noteq> None then 1 else 0) must_not_match) = (0 :: int)"
    using count_constant [OF must_not_match_ok [of now tz]] by (simp only: eq_True)
  ultimately show ?thesis by (simp add: xchat_run_selftest_def ansi_cases_ok)
qed

subsection \<open>Entries\<close>

lemma xchat_normalize: "xchat_normalize_text = normalize_text"
  by (simp add: fun_eq_iff xchat_normalize_text_def xchat_strip_quake_colors_def xchat_strip_ansi_def
      normalize_text_def strip_quake_colors_def strip_ansi_def)

text \<open>The groups of a match hold characters of the text.\<close>

lemma captures_within:
  "st' \<in> set (matches r st) \<Longrightarrow> p \<in> set (snd (snd st')) \<Longrightarrow> p \<in> set (snd (snd st)) \<or> set (snd p) \<subseteq> set (rest st)"
proof (induction r st arbitrary: st' rule: matches.induct)
  case (1 q st)
  then show ?case by (auto split: list.splits if_splits)
next
  case (3 r q st)
  then obtain st1 where st1: "st1 \<in> set (matches r st)" "st' \<in> set (matches q st1)" by auto
  moreover have "set (rest st1) \<subseteq> set (rest st)" using matches_sound [OF st1(1)] by (auto simp: consumes_def)
  ultimately show ?case using "3.IH"(1) [OF st1(1)] "3.IH"(2) [OF st1 "3.prems"(2)] by blast
next
  case (4 r q st)
  then have "st' \<in> set (matches r st) \<or> st' \<in> set (matches q st)" by simp
  with 4 show ?case by blast
next
  case (5 g r st)
  show ?case
  proof (cases "st' = st")
    case False
    with "5.prems" obtain st1 where st1: "st1 \<in> set (matches r st)"
      "length (rest st1) < length (rest st)" "st' \<in> set (matches (Star g r) st1)"
      by (auto simp: matches.simps(5) [of g r st] Let_def split: if_splits)
    then have "st1 \<in> set (filter (\<lambda>st'. length (rest st') < length (rest st)) (matches r st))" by simp
    note ih = "5.IH"(2) [OF this st1(3) "5.prems"(2)]
    have "set (rest st1) \<subseteq> set (rest st)" using matches_sound [OF st1(1)] by (auto simp: consumes_def)
    with ih "5.IH"(1) [OF st1(1)] show ?thesis by blast
  qed (use 5 in simp)
next
  case (6 n r st)
  then obtain st1 where st1: "st1 \<in> set (matches r st)" "st' = capture n st st1" by auto
  show ?case
  proof (cases "p \<in> set (snd (snd st1))")
    case True
    with "6.IH" [OF st1(1)] show ?thesis .
  next
    case False
    with "6.prems"(2) st1(2) have "snd p = take (length (rest st) - length (rest st1)) (rest st)"
      by (auto simp: capture_def)
    then show ?thesis using set_take_subset [of "length (rest st) - length (rest st1)" "rest st"] by simp
  qed
qed (auto split: if_splits)

lemma named_group_within: "re_match r s = Some cs \<Longrightarrow> set (named_group cs n) \<subseteq> set s"
proof (cases "group cs n")
  case (Some t)
  assume "re_match r s = Some cs"
  then obtain m where m: "match_at r None s = Some m" "cs = snd (snd m)" by (auto simp: re_match_def)
  from Some have "(n, t) \<in> set cs" by (simp add: group_def map_of_SomeD)
  with captures_within [OF match_at_in [OF m(1)]] m(2) have "set t \<subseteq> set s" by fastforce
  with Some show ?thesis by (simp add: named_group_def)
qed (simp add: named_group_def)

text \<open>A line of the log: its newline, if any, is the last character.\<close>

definition log_line :: "string \<Rightarrow> bool" where
  "log_line l \<longleftrightarrow> CHR 0x0A \<notin> set (butlast l)"

lemma sub_from_subseq: "subseq (sub_from r [] pv s) s"
proof (induction "length s" arbitrary: pv s rule: less_induct)
  case less
  show ?case
  proof (cases s)
    case Nil
    then show ?thesis by (simp add: sub_from.simps)
  next
    case (Cons c t)
    have skip: "subseq (c # sub_from r [] (Some c) t) s" using less [of t "Some c"] Cons by simp
    have jump: "subseq (sub_from r [] (fst m) (rest m)) s"
      if "match_at r pv s = Some m" "length (rest m) < length s" for m
    proof -
      from match_at_sound [OF that(1)] obtain u where "s = u @ rest m" by (auto simp: consumes_def)
      with less [OF that(2)] show ?thesis by (metis subseq_drop_many)
    qed
    show ?thesis
    proof (cases "match_at r pv s")
      case None
      with skip Cons show ?thesis by (simp add: sub_from.simps [of _ _ _ "c # t"])
    next
      case (Some m)
      with skip jump [OF Some] Cons show ?thesis by (simp add: sub_from.simps [of _ _ _ "c # t"])
    qed
  qed
qed

lemma subseq_butlast: "subseq u v \<Longrightarrow> set (butlast u) \<subseteq> set (butlast v)"
proof (cases u rule: rev_cases)
  case (snoc u' c)
  assume "subseq u v"
  with snoc obtain v1 v2 where v: "v = v1 @ v2" "subseq u' v1" "subseq [c] v2"
    by (metis list_emb_appendD)
  from v(3) have "v2 \<noteq> []" by auto
  with v(1) have "set v1 \<subseteq> set (butlast v)" by (auto simp: butlast_append)
  moreover have "set u' \<subseteq> set v1" using v(2) by (auto dest: list_emb_set)
  ultimately show ?thesis using snoc by simp
qed simp

lemma log_line_strip_ansi: "log_line l \<Longrightarrow> log_line (xchat_strip_ansi l)"
  using subseq_butlast [OF sub_from_subseq [of ansi_re None l]]
  by (auto simp: log_line_def xchat_strip_ansi_def re_sub_def)

lemma log_line_cases:
  assumes "log_line l"
  obtains "single_line l" | v where "l = v @ [CHR 0x0A]" "single_line v"
proof (cases l rule: rev_cases)
  case Nil
  then show thesis using that by (simp add: single_line_def)
next
  case (snoc v c)
  with assms have "single_line v" by (simp add: log_line_def single_line_def)
  then show thesis using that snoc by (cases "c = CHR 0x0A") (auto simp: single_line_def)
qed

lemma single_line_subset: "set u \<subseteq> set v \<Longrightarrow> single_line v \<Longrightarrow> single_line u"
  by (auto simp: single_line_def)

lemma single_line_stripped:
  assumes "log_line l"
  shows "single_line (rstrip l) \<and> single_line (strip l)"
  using assms
proof (rule log_line_cases)
  assume "single_line l"
  then show ?thesis using single_line_subset set_rstrip set_strip by blast
next
  fix v assume "l = v @ [CHR 0x0A]" "single_line v"
  then show ?thesis using single_line_subset [OF set_rstrip [of v]] single_line_subset [OF set_strip [of v]]
    by (simp add: rstrip_snoc strip_snoc_space newline_space)
qed

lemma split_single:
  assumes "log_line l" "xchat_split_log_prefix now l = (stamp, body)"
  shows "single_line body"
proof -
  have "single_line (strip (named_group cs n))" if "re_match r (rstrip l) = Some cs" for r cs n
    using named_group_within [OF that, of n] single_line_stripped [OF assms(1)] set_strip
    by (fastforce simp: single_line_def)
  with assms single_line_stripped [OF assms(1)] show ?thesis
    by (auto simp: xchat_split_log_prefix_def Let_def split: option.splits)
qed

definition xchat_entry_good :: "xchat_entry \<Rightarrow> bool" where
  "xchat_entry_good e \<longleftrightarrow> le_sender e \<noteq> [] \<and> le_message e \<noteq> [] \<and>
     strip (le_sender e) = le_sender e \<and> strip (le_message e) = le_message e \<and>
     lower (le_sender e) \<notin> {''server'', ''taystjk'', ''openjk''} \<and> \<not> slot_score (le_sender e) \<and>
     le_target e \<noteq> Some []"

definition xchat_entry_single :: "xchat_entry \<Rightarrow> bool" where
  "xchat_entry_single e \<longleftrightarrow> single_line (le_sender e) \<and> single_line (le_message e) \<and>
     (\<forall>t. le_target e = Some t \<longrightarrow> single_line t)"

lemma known_entry_good: "known_entry stamp ch cs = Some e \<Longrightarrow> xchat_entry_good e"
  by (auto simp: known_entry_def Let_def xchat_entry_good_def xchat_normalize xchat_sender_blocklist_def
      split: if_splits)

lemma generic_entry_good: "generic_entry stamp cs = Some e \<Longrightarrow> xchat_entry_good e"
  by (auto simp: generic_entry_def Let_def xchat_entry_good_def xchat_normalize xchat_sender_blocklist_def
      split: if_splits)

lemma group_single:
  "re_match r body = Some cs \<Longrightarrow> single_line body \<Longrightarrow> single_line (xchat_normalize_text (named_group cs n))"
  using named_group_within [of r body cs n] set_normalize_text [of "named_group cs n"]
  by (auto simp: single_line_def xchat_normalize)

lemma parse_body_cases:
  assumes "parse_body stamp body = Some e"
  obtains ch r cs where "(ch, r) \<in> set xchat_patterns" "re_match r body = Some cs" "known_entry stamp ch cs = Some e"
  | cs where "re_match generic_chat_re body = Some cs" "generic_entry stamp cs = Some e"
proof (cases "first_some (\<lambda>(ch, r). map_option (\<lambda>cs. known_entry stamp ch cs) (re_match r body)) xchat_patterns")
  case None
  with assms that(2) show thesis by (auto simp: parse_body_def split: option.splits)
next
  case (Some x)
  with assms have "x = Some e" by (simp add: parse_body_def)
  with first_some_Some [OF Some] that(1) show thesis by auto
qed

lemma entry_singles:
  assumes "re_match r body = Some cs" "single_line body"
  shows "known_entry stamp ch cs = Some e \<Longrightarrow> xchat_entry_single e"
    and "generic_entry stamp cs = Some e \<Longrightarrow> xchat_entry_single e"
proof -
  note g = group_single [OF assms]
  show "known_entry stamp ch cs = Some e \<Longrightarrow> xchat_entry_single e"
    using g [of "''sender''"] g [of "''message''"] g [of "''target''"]
    by (auto simp: known_entry_def Let_def xchat_entry_single_def split: if_splits)
  show "generic_entry stamp cs = Some e \<Longrightarrow> xchat_entry_single e"
    using g [of "''sender''"] g [of "''message''"]
    by (auto simp: generic_entry_def Let_def xchat_entry_single_def split: if_splits)
qed

lemma parse_body_good:
  assumes "parse_body stamp body = Some e"
  shows "xchat_entry_good e \<and> (single_line body \<longrightarrow> xchat_entry_single e)"
  using assms
proof (rule parse_body_cases)
  fix ch r cs
  assume "re_match r body = Some cs" "known_entry stamp ch cs = Some e"
  with known_entry_good [OF this(2)] entry_singles(1) [OF this(1)] show ?thesis by blast
next
  fix cs
  assume "re_match generic_chat_re body = Some cs" "generic_entry stamp cs = Some e"
  with generic_entry_good [OF this(2)] entry_singles(2) [OF this(1)] show ?thesis by blast
qed

lemma parse_chat_line_body:
  assumes "parse_chat_line now tz l = Some e"
  obtains stamp body where "xchat_split_log_prefix now (xchat_strip_ansi l) = (stamp, body)"
    "parse_body (stamp @ '' '' @ (if tz = [] then ''LOCAL'' else tz)) body = Some e"
  using assms by (cases "xchat_split_log_prefix now (xchat_strip_ansi l)")
    (auto simp: parse_chat_line_def Let_def split: if_splits)

text \<open>
  What the deprecated chat logger records: sender and message are trimmed and non-empty, the sender is neither
  one of the engine's own names nor a row of the score table, and the entry of a line of the log is printed
  on one line, as long as the name of the time zone is.
\<close>

theorem xchat_recorded:
  assumes "parse_chat_line now tz l = Some e"
  shows "le_sender e \<noteq> [] \<and> le_message e \<noteq> [] \<and> strip (le_sender e) = le_sender e \<and>
    strip (le_message e) = le_message e \<and> lower (le_sender e) \<notin> {''server'', ''taystjk'', ''openjk''} \<and>
    re_match sender_slot_re (le_sender e) = None \<and>
    (CHR 0x0A \<notin> set (butlast l) \<longrightarrow> CHR 0x0A \<notin> set (le_sender e) \<union> set (le_message e) \<and>
       (\<forall>t. le_target e = Some t \<longrightarrow> CHR 0x0A \<notin> set t))"
proof -
  from assms obtain stamp body where b: "xchat_split_log_prefix now (xchat_strip_ansi l) = (stamp, body)"
    "parse_body (stamp @ '' '' @ (if tz = [] then ''LOCAL'' else tz)) body = Some e" by (rule parse_chat_line_body)
  have "CHR 0x0A \<notin> set (butlast l) \<longrightarrow> single_line body"
    using split_single [OF log_line_strip_ansi b(1)] by (simp add: log_line_def)
  with parse_body_good [OF b(2)] show ?thesis
    unfolding xchat_entry_good_def xchat_entry_single_def single_line_def slot_score_def by blast
qed

lemma sample_admin_line:
  "parse_chat_line (at_noon (Date 2024 1 8)) ''UTC'' (''3:30 amtell: Admin -> Robin: stop'' @ [CHR 0x0A]) =
     Some \<lparr>le_stamp = ''2024-01-08 12:00:00 UTC'', le_channel = ADMIN_WHISPER, le_sender = ''Admin'',
           le_target = Some ''Robin'', le_message = ''stop''\<rparr>"
  by code_simp

theorem xchat_recorded_witness:
  "strip ''Admin'' = ''Admin'' \<and> re_match sender_slot_re ''Admin'' = None \<and> CHR 0x0A \<notin> set ''Robin''"
proof -
  have "CHR 0x0A \<notin> set (butlast (''3:30 amtell: Admin -> Robin: stop'' @ [CHR 0x0A]))" by simp
  with xchat_recorded [OF sample_admin_line] show ?thesis by (simp del: append.simps)
qed

end
