(* ===== verification/Legacy_Chat_Agree.thy ===== *)
theory Legacy_Chat_Agree
  imports Legacy_Chat_Facts
begin

section \<open>The two chat loggers agree\<close>

text \<open>
  \<open>40-chatlogger.py\<close> and \<open>chatlogger.py\<close> find the same body behind a time stamp and classify it alike.  The
  prefix patterns differ in their groups, so the first part shows that a matcher whose continuation
  ignores the captured groups does not depend on them.
\<close>

subsection \<open>Matching regardless of groups\<close>

definition caps_blind :: "(mstate \<Rightarrow> 'a option) \<Rightarrow> bool" where
  "caps_blind k \<longleftrightarrow> (\<forall>p t cs cs'. k (p, t, cs) = k (p, t, cs'))"

lemma caps_blindD: "caps_blind k \<Longrightarrow> k st = k (fst st, rest st, cs)"
  unfolding caps_blind_def by (metis prod.collapse)

lemma fm_blind: "caps_blind k \<Longrightarrow> caps_blind (first_match r k)"
proof (induction r arbitrary: k)
  case (Chr p)
  then show ?case by (auto simp: caps_blind_def split: list.splits)
next
  case (Seq r q)
  then show ?case by (simp add: fm_unapplied)
next
  case (Alt r q)
  from Alt.IH(1) [OF Alt.prems] Alt.IH(2) [OF Alt.prems] show ?case
    unfolding caps_blind_def first_match.simps by metis
next
  case (Star g r)
  have "first_match (Star g r) k (p, t, cs) = first_match (Star g r) k (p, t, cs')" for p t cs cs'
  proof (induction "length t" arbitrary: p t cs cs' rule: less_induct)
    case less
    let ?k = "\<lambda>st'. if length (rest st') < length t then first_match (Star g r) k st' else None"
    have "caps_blind ?k" using less unfolding caps_blind_def by simp
    from Star.IH [OF this] have r: "first_match r ?k (p, t, cs) = first_match r ?k (p, t, cs')"
      unfolding caps_blind_def by blast
    have k: "k (p, t, cs) = k (p, t, cs')" using Star.prems unfolding caps_blind_def by blast
    show ?case
      unfolding first_match.simps(5) [of g r k "(p, t, cs)"] first_match.simps(5) [of g r k "(p, t, cs')"] fst_conv snd_conv r k ..
  qed
  then show ?case unfolding caps_blind_def by blast
next
  case (Grp n r)
  have "first_match (Grp n r) k (p, t, cs) = first_match (Grp n r) k (p, t, cs')" for p t cs cs'
  proof -
    have k: "k (capture n (p, t, ds) st') = k (fst st', rest st', [])" for ds st'
      using caps_blindD [OF Grp.prems, of "capture n (p, t, ds) st'" "[]"] by (simp add: capture_def)
    have "caps_blind (\<lambda>st'. k (fst st', rest st', []))" by (simp add: caps_blind_def)
    from Grp.IH [OF this] show ?thesis unfolding first_match.simps k unfolding caps_blind_def by blast
  qed
  then show ?case unfolding caps_blind_def by blast
qed (simp_all add: caps_blind_def)

lemma fm_cong:
  assumes "\<And>st'. st' \<in> set (matches r st) \<Longrightarrow> k st' = k' st'"
  shows "first_match r k st = first_match r k' st"
proof -
  have "\<forall>st' \<in> set sts. k st' = k' st' \<Longrightarrow> first_some k sts = first_some k' sts" for sts
  proof (induction sts)
    case (Cons st' sts)
    then have "k st' = k' st'" "first_some k sts = first_some k' sts" by simp_all
    then show ?case by (simp only: first_some.simps)
  qed simp
  with assms show ?thesis by (simp add: first_match)
qed

lemma fm_grp_blind: "caps_blind k \<Longrightarrow> first_match (Grp n r) k st = first_match r k st"
proof -
  assume k: "caps_blind k"
  have "k (capture n st st') = k st'" for st'
    using caps_blindD [OF k, of "capture n st st'" "[]"] caps_blindD [OF k, of st' "[]"] by (simp add: capture_def)
  then show ?thesis by simp
qed

lemma match_named:
  "map_option (\<lambda>cs. named_group cs n) (re_match r s) = first_match r (\<lambda>st. Some (named_group (snd (snd st)) n)) (None, s, [])"
proof -
  have "first_some (\<lambda>st. Some (f st)) xs = (case xs of [] \<Rightarrow> None | x # _ \<Rightarrow> Some (f x))"
    for f :: "mstate \<Rightarrow> string" and xs by (cases xs) simp_all
  then show ?thesis by (simp add: re_match_def match_at_def first_match split: list.splits)
qed

subsection \<open>Bodies\<close>

text \<open>The rest of a line as its body.\<close>

definition the_rest :: "mstate \<Rightarrow> string option" where
  "the_rest st = Some (rest st)"

lemma the_rest_blind: "caps_blind the_rest"
  by (simp add: caps_blind_def the_rest_def)

lemma body_rest:
  assumes "single_line t"
  shows "first_match (seqs [Grp ''body'' (star dot), Eol]) (\<lambda>st. Some (named_group (snd (snd st)) ''body'')) (pv, t, cs) = Some t"
proof -
  have t: "list_all (\<lambda>c. c \<noteq> CHR 0x0A) t" using assms by (auto simp: single_line_def list_all_iff)
  show ?thesis
    unfolding seqs_def star_def dot_def foldr.simps comp_apply id_apply first_match.simps(3,6)
    using fm_star [OF t, of "[]" "\<lambda>st'. first_match (Seq Eol Eps) (\<lambda>st. Some (named_group (snd (snd st)) ''body''))
      (capture ''body'' (pv, t, cs) st')" pv cs t]
    by (simp add: capture_def named_group_def group_def)
qed

lemma prefix_body:
  assumes "single_line s"
  shows "first_match P (first_match (seqs [Grp ''body'' (star dot), Eol])
       (\<lambda>st. Some (named_group (snd (snd st)) ''body''))) (pv, s, cs) = first_match P the_rest (pv, s, cs)"
proof (rule fm_cong)
  fix st' assume "st' \<in> set (matches P (pv, s, cs))"
  then have "set (rest st') \<subseteq> set s" by (auto dest!: matches_sound simp: consumes_def)
  with assms have "single_line (rest st')" by (auto simp: single_line_def)
  from body_rest [OF this, of "fst st'" "snd (snd st')"]
  show "first_match (seqs [Grp ''body'' (star dot), Eol]) (\<lambda>st. Some (named_group (snd (snd st)) ''body'')) st' = the_rest st'"
    by (simp add: the_rest_def)
qed

definition absolute_re :: re where
  "absolute_re = seqs [times 4 digit, lit ''-'', times 2 digit, lit ''-'', times 2 digit, lit '' '',
                       times 2 digit, lit '':'', times 2 digit, lit '':'', times 2 digit]"

definition clock_re :: re where
  "clock_re = seqs [digits_1_3, lit '':'', times 2 digit, opt (seqs [lit '':'', times 2 digit])]"

lemma seqs_append: "first_match (seqs (r # rs)) k st = first_match r (first_match (seqs rs) k) st"
  by (simp add: seqs_def)

lemma star_none: "s = [] \<or> \<not> p (hd s) \<Longrightarrow> first_match (star (Chr p)) k (pv, s, cs) = k (pv, s, cs)"
  unfolding star_def by (subst first_match.simps(5)) (cases s; simp split: option.splits)

text \<open>The bodies the two chat loggers find in a line that is already trimmed.\<close>

definition body_after :: "re \<Rightarrow> string \<Rightarrow> string option" where
  "body_after r s = first_match r (first_match (plus ws) the_rest) (None, s, [])"

lemma old_body:
  assumes "single_line s"
  shows "map_option (\<lambda>cs. named_group cs ''body'') (re_match xchat_timestamp_re s) = body_after absolute_re s"
    and "map_option (\<lambda>cs. named_group cs ''body'') (re_match match_time_re s) = body_after clock_re s"
proof -
  have b: "caps_blind (first_match (plus ws) the_rest)" by (rule fm_blind [OF the_rest_blind])
  have m: "first_match r (first_match (plus ws) (first_match (seqs [Grp ''body'' (star dot), Eol])
       (\<lambda>st. Some (named_group (snd (snd st)) ''body'')))) (None, s, []) = first_match r (first_match (plus ws) the_rest) (None, s, [])"
    for r using prefix_body [OF assms, of "Seq r (plus ws)" None "[]"] by (simp only: fm_unapplied)
  have e: "first_match (seqs (Bol # r # plus ws # rs)) k (None, s, []) =
      first_match r (first_match (plus ws) (first_match (seqs rs) k)) (None, s, [])" for r rs k
    by (simp add: seqs_def fm_unapplied)
  show "map_option (\<lambda>cs. named_group cs ''body'') (re_match xchat_timestamp_re s) = body_after absolute_re s"
    unfolding match_named xchat_timestamp_re_def absolute_re_def [symmetric] body_after_def e m
    by (rule fm_grp_blind [OF b])
  show "map_option (\<lambda>cs. named_group cs ''body'') (re_match match_time_re s) = body_after clock_re s"
    unfolding match_named match_time_re_def clock_re_def [symmetric] body_after_def e m ..
qed

lemma new_body:
  assumes "single_line s" "s = [] \<or> \<not> is_space (hd s)"
  shows "map_option (\<lambda>cs. named_group cs ''body'') (re_match timestamp_prefix_re s) =
    (case body_after absolute_re s of Some b \<Rightarrow> Some b
     | None \<Rightarrow> (case body_after clock_re s of Some b \<Rightarrow> Some b | None \<Rightarrow> Some s))"
proof -
  let ?P = "opt (seqs [star ws, Alt absolute_re clock_re, plus ws])"
  have "map_option (\<lambda>cs. named_group cs ''body'') (re_match timestamp_prefix_re s) = first_match ?P the_rest (None, s, [])"
    unfolding match_named timestamp_prefix_re_def absolute_re_def [symmetric] clock_re_def [symmetric]
      prefix_body [OF assms(1), symmetric] by (simp add: seqs_def fm_unapplied)
  also have "\<dots> = (case first_match (seqs [star ws, Alt absolute_re clock_re, plus ws]) the_rest (None, s, []) of
      Some b \<Rightarrow> Some b | None \<Rightarrow> Some s)"
    by (simp add: opt_def the_rest_def cong: option.case_cong)
  also have "first_match (seqs [star ws, Alt absolute_re clock_re, plus ws]) the_rest (None, s, []) =
      first_match (Alt absolute_re clock_re) (first_match (plus ws) the_rest) (None, s, [])"
    unfolding seqs_append ws_def star_none [where p = is_space, OF assms(2)] by (simp add: seqs_def fm_unapplied)
  finally show ?thesis by (simp add: body_after_def split: option.splits)
qed

lemma same_body:
  assumes "strip raw = raw" "single_line raw"
  shows "snd (xchat_split_log_prefix now (raw @ [CHR 0x0A])) = split_log_prefix raw"
proof -
  have edges: "raw = [] \<or> \<not> is_space (hd raw)" "rstrip raw = raw"
    using strip_edges [of raw] assms(1) by (auto intro: rstrip_id)
  then have line: "rstrip (raw @ [CHR 0x0A]) = raw" by (simp add: rstrip_snoc newline_space)
  have s: "strip (raw @ [CHR 0x0A]) = raw" by (simp add: strip_snoc_space newline_space assms(1))
  note old = old_body [OF assms(2)] and new = new_body [OF assms(2) edges(1)]
  have named: "(case group cs ''body'' of Some b \<Rightarrow> b | None \<Rightarrow> []) = named_group cs ''body''" for cs
    by (simp add: named_group_def)
  have "split_log_prefix raw = (case body_after absolute_re raw of Some b \<Rightarrow> strip b
     | None \<Rightarrow> (case body_after clock_re raw of Some b \<Rightarrow> strip b | None \<Rightarrow> raw))"
    using new assms(1) unfolding split_log_prefix_def named
    by (cases "re_match timestamp_prefix_re raw") (auto split: option.splits)
  moreover have "snd (xchat_split_log_prefix now (raw @ [CHR 0x0A])) = (case body_after absolute_re raw of Some b \<Rightarrow> strip b
     | None \<Rightarrow> (case body_after clock_re raw of Some b \<Rightarrow> strip b | None \<Rightarrow> raw))"
    unfolding xchat_split_log_prefix_def Let_def line s old [symmetric]
    by (cases "re_match xchat_timestamp_re raw"; cases "re_match match_time_re raw") simp_all
  ultimately show ?thesis by simp
qed

subsection \<open>Entries\<close>

text \<open>The entry of the old chat logger for one of the new: an empty target counts as none.\<close>

definition old_form :: "string \<Rightarrow> entry \<Rightarrow> xchat_entry" where
  "old_form stamp e = \<lparr>le_stamp = stamp, le_channel = e_channel e, le_sender = e_sender e,
     le_target = (if e_target e = Some [] then None else e_target e), le_message = e_message e\<rparr>"

lemma xchat_sender_blocklist: "xchat_sender_blocklist = sender_blocklist"
  by (simp add: xchat_sender_blocklist_def sender_blocklist_def)

lemma matched_known:
  assumes "\<not> has_target \<Longrightarrow> named_group cs ''target'' = []"
  shows "matched_entry ch has_target cs = None \<Longrightarrow> known_entry stamp ch cs = None"
    and "matched_entry ch has_target cs = Some e \<Longrightarrow>
      known_entry stamp ch cs = (if slot_score (e_sender e) then None else Some (old_form stamp e))"
proof -
  have t: "\<not> has_target \<Longrightarrow> normalize_text (named_group cs ''target'') = []"
    using assms set_normalize_text [of "[]"] by simp
  show "matched_entry ch has_target cs = None \<Longrightarrow> known_entry stamp ch cs = None"
    by (auto simp: matched_entry_def known_entry_def Let_def xchat_normalize xchat_sender_blocklist split: if_splits)
  show "matched_entry ch has_target cs = Some e \<Longrightarrow>
      known_entry stamp ch cs = (if slot_score (e_sender e) then None else Some (old_form stamp e))"
    using t by (auto simp: matched_entry_def known_entry_def Let_def xchat_normalize xchat_sender_blocklist old_form_def
        split: if_splits)
qed

lemma say_no_target: "re_match (say_re verbs) s = Some cs \<Longrightarrow> named_group cs ''target'' = []"
proof (cases "group cs ''target''")
  case (Some t)
  assume m: "re_match (say_re verbs) s = Some cs"
  have "\<exists>q. (''target'', q) \<in> subgroups (say_re verbs)" using good_caps_group [OF match_sound [OF m] Some] by blast
  then show ?thesis
    by (auto simp: say_re_def seqs_def star_def ws_def lazy_plus_def plus_def dot_def subgroups_verb)
qed (simp add: named_group_def)

definition whispers :: "channel \<Rightarrow> bool" where
  "whispers ch \<longleftrightarrow> ch = WHISPER \<or> ch = ADMIN_WHISPER"

lemma both_patterns: "raw_verb_patterns = map (\<lambda>(ch, r). (ch, whispers ch, r)) xchat_patterns"
  by (simp add: raw_verb_patterns_def xchat_patterns_def whispers_def)

lemma classify_known:
  assumes "\<And>ch r. (ch, r) \<in> set ps \<Longrightarrow> \<not> whispers ch \<Longrightarrow> \<exists>verbs. r = say_re verbs"
  shows "(first_some (\<lambda>(ch, r). map_option (\<lambda>cs. known_entry stamp ch cs) (re_match r body)) ps = None \<and>
      classify_body (map (\<lambda>(ch, r). (ch, whispers ch, r)) ps) body = None) \<or>
    first_some (\<lambda>(ch, r). map_option (\<lambda>cs. known_entry stamp ch cs) (re_match r body)) ps =
      Some (case classify_body (map (\<lambda>(ch, r). (ch, whispers ch, r)) ps) body of
        None \<Rightarrow> None | Some e \<Rightarrow> if slot_score (e_sender e) then None else Some (old_form stamp e))"
  using assms
proof (induction ps)
  case (Cons p ps)
  obtain ch r where p: "p = (ch, r)" by (cases p)
  show ?case
  proof (cases "re_match r body")
    case None
    have says: "\<exists>verbs. r' = say_re verbs" if "(ch', r') \<in> set ps" "\<not> whispers ch'" for ch' r'
      using Cons.prems [of ch' r'] that by simp
    from Cons.IH [OF says] None show ?thesis by (simp add: p)
  next
    case (Some cs)
    have "\<not> whispers ch \<Longrightarrow> named_group cs ''target'' = []"
      using Cons.prems [of ch r] say_no_target Some p by auto
    note k = matched_known [OF this, where ch = ch and stamp = stamp]
    show ?thesis
    proof (cases "matched_entry ch (whispers ch) cs")
      case None
      with k(1) Some p show ?thesis by simp
    next
      case (Some e)
      with k(2) \<open>re_match r body = Some cs\<close> p show ?thesis by simp
    qed
  qed
qed simp

text \<open>
  C24.  The chat logger that replaced this one recognises the same chat.  For a trimmed line of the log without
  escape sequences: if the new one classifies it, the old one records the same channel, sender, message and
  target, unless the sender looks like a row of the score table, which only the old one rejects; if the new one
  does not, the old one records nothing when the line has one of the known verbs, and otherwise at most a public
  message (of an unknown verb).
\<close>

theorem xchat_agrees:
  assumes "strip raw = raw" "CHR 0x0A \<notin> set raw" "CHR 0x1B \<notin> set raw"
  shows "case classify_raw_line raw of
      Some e \<Rightarrow> \<exists>stamp. parse_chat_line now tz (raw @ [CHR 0x0A]) =
         (if slot_score (e_sender e) then None else Some (old_form stamp e))
    | None \<Rightarrow> \<forall>e. parse_chat_line now tz (raw @ [CHR 0x0A]) = Some e \<longrightarrow>
         (\<forall>(ch, r) \<in> set xchat_patterns. re_match r (split_log_prefix raw) = None) \<and>
         le_channel e = PUBLIC \<and> le_target e = None"
proof -
  let ?l = "raw @ [CHR 0x0A]" and ?z = "if tz = [] then ''LOCAL'' else tz"
  obtain stamp body where sb: "xchat_split_log_prefix now ?l = (stamp, body)" by (rule prod.exhaust)
  have body: "body = split_log_prefix raw" using same_body [of raw now] assms sb by (simp add: single_line_def)
  have a: "xchat_strip_ansi ?l = ?l"
    using strip_ansi_id [of ?l] assms(3) by (simp add: xchat_strip_ansi_def strip_ansi_def)
  have "parse_chat_line now tz ?l = (if body = [] then None else parse_body (stamp @ '' '' @ ?z) body)"
  proof (cases "raw = []")
    case True
    have "split_log_prefix [] = []" by code_simp
    with True body have "body = []" by simp
    moreover have "strip ?l = []" using True strip_snoc_space [OF newline_space, of "[]"] by simp
    ultimately show ?thesis by (simp add: parse_chat_line_def)
  next
    case False
    then have "strip ?l \<noteq> []" using assms(1) by (simp add: strip_snoc_space newline_space)
    then show ?thesis by (simp add: parse_chat_line_def a sb)
  qed
  then obtain st where parse: "parse_chat_line now tz ?l = (if body = [] then None else parse_body st body)" by (rule that)
  have new: "classify_raw_line raw = (if body = [] then None else classify_body (map (\<lambda>(ch, r). (ch, whispers ch, r)) xchat_patterns) body)"
    by (simp add: classify_raw_line_def body both_patterns)
  have says: "\<exists>verbs. r = say_re verbs" if "(ch, r) \<in> set xchat_patterns" "\<not> whispers ch" for ch r
    using that by (auto simp: xchat_patterns_def whispers_def)
  have gen: "le_channel e = PUBLIC \<and> le_target e = None" if "generic_entry t cs = Some e" for t cs e
    using that by (auto simp: generic_entry_def Let_def split: if_splits)
  show ?thesis
  proof (cases "body = []")
    case True
    then show ?thesis by (simp add: parse new)
  next
    case False
    let ?f = "first_some (\<lambda>(ch, r). map_option (\<lambda>cs. known_entry st ch cs) (re_match r body)) xchat_patterns"
    let ?c = "classify_body (map (\<lambda>(ch, r). (ch, whispers ch, r)) xchat_patterns) body"
    have "?f = None \<and> ?c = None \<or> ?f = Some (case ?c of None \<Rightarrow> None
        | Some e \<Rightarrow> if slot_score (e_sender e) then None else Some (old_form st e))"
      by (rule classify_known) (rule says)
    then show ?thesis
    proof (elim disjE conjE)
      assume none: "?f = None" "?c = None"
      then have "\<forall>(ch, r) \<in> set xchat_patterns. re_match r (split_log_prefix raw) = None"
        unfolding body [symmetric] first_some_None by auto
      with none show ?thesis using False gen by (auto simp: parse new parse_body_def split: option.splits)
    next
      assume "?f = Some (case ?c of None \<Rightarrow> None
        | Some e \<Rightarrow> if slot_score (e_sender e) then None else Some (old_form st e))"
      then show ?thesis using False
        by (cases ?c) (auto simp: parse new parse_body_def)
    qed
  qed
qed

theorem xchat_agrees_witness:
  "\<exists>stamp e. parse_chat_line (at_noon (Date 2024 1 8)) ''UTC'' (''12:34 tell: ^1Bob -> Al: hi there'' @ [CHR 0x0A]) =
     Some (old_form stamp e) \<and> e_target e = Some ''Al''"
proof -
  let ?l = "''12:34 tell: ^1Bob -> Al: hi there''"
  have s: "strip ?l = ?l" by code_simp
  have c: "classify_raw_line ?l = Some \<lparr>e_channel = WHISPER, e_sender = ''Bob'', e_message = ''hi there'',
      e_target = Some ''Al''\<rparr>" by code_simp
  have n: "slot_score ''Bob'' = False" by code_simp
  have "CHR 0x0A \<notin> set ?l" "CHR 0x1B \<notin> set ?l" by simp_all
  from xchat_agrees [OF s this, of "at_noon (Date 2024 1 8)" "''UTC''"] c n obtain stamp where
    "parse_chat_line (at_noon (Date 2024 1 8)) ''UTC'' (?l @ [CHR 0x0A]) = Some (old_form stamp
       \<lparr>e_channel = WHISPER, e_sender = ''Bob'', e_message = ''hi there'', e_target = Some ''Al''\<rparr>)"
    by (auto simp del: append.simps)
  moreover have "e_target \<lparr>e_channel = WHISPER, e_sender = ''Bob'', e_message = ''hi there'', e_target = Some ''Al''\<rparr> = Some ''Al''"
    by simp
  ultimately show ?thesis by blast
qed

end
