(* ===== verification/Legacy_Chat_Files.thy ===== *)
theory Legacy_Chat_Files
  imports Chat_Writer Announcer_Rcon "HOL-Library.List_Lexorder"
begin

section \<open>\<open>40-chatlogger.py\<close>: settings, log source and the directory of logs\<close>

text \<open>
  The settings from the environment, the file to follow, and the removal of old logs: after a week a daily file
  is compressed, after two months it is deleted.  The directory is a dict from names to contents; a
  compressed file remembers what it was made from.  \<open>clean_env\<close> says which system calls fail, among them
  a compression that fails half-way and leaves a truncated file.
\<close>

subsection \<open>Settings\<close>

definition xchat_env_int :: "os_env \<Rightarrow> string \<Rightarrow> int \<Rightarrow> int \<Rightarrow> int res" where
  "xchat_env_int os name dflt minimum =
     (let raw = strip (getenv os name [])
      in if raw = [] then Inr dflt
         else (case py_int_text raw of
                 Inl e \<Rightarrow> if is_value_error e then Inr dflt else Inl e
               | Inr v \<Rightarrow> Inr (if v < minimum then minimum else v)))"

record xchat_settings =
  keep_plain_days :: int
  keep_total_days :: int
  heartbeat_seconds :: int
  backoff_max :: int

definition load_xchat_settings :: "os_env \<Rightarrow> xchat_settings res" where
  "load_xchat_settings os =
     bindR (xchat_env_int os ''CHATLOGGER_KEEP_PLAIN_DAYS'' 7 1) (\<lambda>plain.
     bindR (xchat_env_int os ''CHATLOGGER_KEEP_TOTAL_DAYS'' 60 1) (\<lambda>total.
     bindR (xchat_env_int os ''CHATLOGGER_HEARTBEAT_SECONDS'' 300 10) (\<lambda>beat.
     bindR (xchat_env_int os ''CHATLOGGER_TAIL_RESTART_BACKOFF_MAX'' 30 1) (\<lambda>backoff.
       Inr \<lparr>keep_plain_days = plain, keep_total_days = total, heartbeat_seconds = beat, backoff_max = backoff\<rparr>))))"

subsection \<open>The file to follow\<close>

definition xchat_tracked_keys :: "string list" where
  "xchat_tracked_keys =
     [''TAYSTJK_ACTIVE_MOD_DIR'', ''TAYSTJK_ACTIVE_SERVER_LOG_PATH'', ''TAYSTJK_LIVE_OUTPUT_ENABLED'',
      ''TAYSTJK_LIVE_OUTPUT_PATH'']"

definition xchat_env_line :: "string \<Rightarrow> (string, string) pydict \<Rightarrow> (string, string) pydict" where
  "xchat_env_line raw_line state =
     (let line = strip raw_line
      in if line = [] \<or> CHR ''='' \<notin> set line then state
         else let (k, raw_value) = split_once (CHR ''='') line;
                  key = strip k
              in if key \<notin> set xchat_tracked_keys then state
                 else dict_setdefault key (strip_chars [CHR 0x22, CHR 0x27] (strip raw_value)) state)"

definition xchat_load_runtime_env :: "os_env \<Rightarrow> (string, string) pydict res" where
  "xchat_load_runtime_env os =
     (let state = runtime_from_environ os xchat_tracked_keys
      in if \<not> is_file os runtime_env_path then Inr state
         else catchR (bindR (read_text os runtime_env_path) (\<lambda>t. Inr (fold xchat_env_line (splitlines t) state)))
                (\<lambda>e. e = OSError) (\<lambda>_. Inr state))"

definition active_mod_dir :: "os_env \<Rightarrow> string res" where
  "active_mod_dir os =
     bindR (xchat_load_runtime_env os) (\<lambda>runtime.
       let d = strip (case dict_get runtime ''TAYSTJK_ACTIVE_MOD_DIR'' of Some v \<Rightarrow> v | None \<Rightarrow> ''taystjk'')
       in Inr (if d = [] then ''taystjk'' else d))"

definition active_server_log_path :: "os_env \<Rightarrow> string res" where
  "active_server_log_path os =
     bindR (xchat_load_runtime_env os) (\<lambda>runtime.
       let p = strip (dict_get_str runtime ''TAYSTJK_ACTIVE_SERVER_LOG_PATH'')
       in if p \<noteq> [] then Inr p
          else bindR (active_mod_dir os) (\<lambda>d. Inr (path_join (path_join home_container d) ''server.log'')))"

definition live_output_path :: "os_env \<Rightarrow> string option res" where
  "live_output_path os =
     bindR (xchat_load_runtime_env os) (\<lambda>runtime.
       let enabled = lower (strip (dict_get_str runtime ''TAYSTJK_LIVE_OUTPUT_ENABLED''));
           raw_path = strip (dict_get_str runtime ''TAYSTJK_LIVE_OUTPUT_PATH'')
       in Inr (if enabled \<noteq> ''true'' then None else if raw_path = [] then None else Some raw_path))"

definition xchat_preferred_tail_source :: "os_env \<Rightarrow> (string \<times> string) res" where
  "xchat_preferred_tail_source os =
     bindR (live_output_path os) (\<lambda>live.
       case live of
         Some p \<Rightarrow> Inr (p, ''live-output'')
       | None \<Rightarrow> bindR (active_server_log_path os) (\<lambda>p. Inr (p, ''server-log'')))"

subsection \<open>The directory\<close>

datatype blob = Raw string | Gz blob | GzCut blob

type_synonym directory = "(string, blob) pydict"

datatype gz_outcome = GzWritten | GzFails | GzFailsHalfway

record clean_env =
  can_unlink :: "string \<Rightarrow> bool"
  gzip_result :: "string \<Rightarrow> gz_outcome"

definition try_unlink :: "clean_env \<Rightarrow> string \<Rightarrow> directory \<Rightarrow> directory" where
  "try_unlink env n files = (if can_unlink env n then AList.delete n files else files)"

definition gz_of :: "string \<Rightarrow> string" where
  "gz_of n = n @ ''.gz''"

text \<open>\<open>glob("chat-*.log.gz")\<close>, and the stamp of such a name.\<close>

definition is_gz_log :: "string \<Rightarrow> bool" where
  "is_gz_log n \<longleftrightarrow> 12 \<le> length n \<and> startswith n ''chat-'' \<and> drop (length n - 7) n = ''.log.gz''"

definition gz_stamp :: "string \<Rightarrow> string" where
  "gz_stamp n = drop 5 (take (length n - 7) n)"

text \<open>The two loop bodies.\<close>

definition clean_plain :: "clean_env \<Rightarrow> int \<Rightarrow> int \<Rightarrow> string \<Rightarrow> directory \<Rightarrow> directory" where
  "clean_plain env plain_cutoff delete_cutoff n files =
     (case strptime_date (log_stamp n) of
        None \<Rightarrow> files
      | Some file_date \<Rightarrow>
          if ordinal file_date < delete_cutoff then try_unlink env n files
          else if plain_cutoff \<le> ordinal file_date then files
          else if dict_get files (gz_of n) \<noteq> None then try_unlink env n files
          else (case dict_get files n of
                  None \<Rightarrow> files
                | Some source \<Rightarrow>
                    (case gzip_result env n of
                       GzFails \<Rightarrow> files
                     | GzFailsHalfway \<Rightarrow> dict_set (gz_of n) (GzCut source) files
                     | GzWritten \<Rightarrow> try_unlink env n (dict_set (gz_of n) (Gz source) files))))"

definition clean_gz :: "clean_env \<Rightarrow> int \<Rightarrow> string \<Rightarrow> directory \<Rightarrow> directory" where
  "clean_gz env delete_cutoff n files =
     (case strptime_date (gz_stamp n) of
        None \<Rightarrow> files
      | Some file_date \<Rightarrow> if ordinal file_date < delete_cutoff then try_unlink env n files else files)"

definition xchat_cleanup_old_logs :: "xchat_settings \<Rightarrow> clean_env \<Rightarrow> datetime \<Rightarrow> directory \<Rightarrow> directory res" where
  "xchat_cleanup_old_logs cfg env now files =
     bindR (cutoff_ordinal (keep_plain_days cfg) now) (\<lambda>plain_cutoff.
     bindR (cutoff_ordinal (keep_total_days cfg) now) (\<lambda>delete_cutoff.
       let files = fold (clean_plain env plain_cutoff delete_cutoff) (sort (filter is_chat_log (map fst files))) files
       in Inr (fold (clean_gz env delete_cutoff) (sort (filter is_gz_log (map fst files))) files)))"

subsection \<open>Facts: settings and source\<close>

lemma xchat_env_int_min: "minimum \<le> dflt \<Longrightarrow> \<exists>v. xchat_env_int os name dflt minimum = Inr v \<and> minimum \<le> v"
  by (auto simp: xchat_env_int_def py_int_text_def Let_def is_value_error_def split: sum.splits)

lemma xchat_settings_ok:
  "\<exists>cfg. load_xchat_settings os = Inr cfg \<and> 1 \<le> keep_plain_days cfg \<and> 1 \<le> keep_total_days cfg \<and>
     10 \<le> heartbeat_seconds cfg \<and> 1 \<le> backoff_max cfg"
proof -
  from xchat_env_int_min [of 1 7 os "''CHATLOGGER_KEEP_PLAIN_DAYS''"] obtain a where
    a: "xchat_env_int os ''CHATLOGGER_KEEP_PLAIN_DAYS'' 7 1 = Inr a" "1 \<le> a" by auto
  from xchat_env_int_min [of 1 60 os "''CHATLOGGER_KEEP_TOTAL_DAYS''"] obtain b where
    b: "xchat_env_int os ''CHATLOGGER_KEEP_TOTAL_DAYS'' 60 1 = Inr b" "1 \<le> b" by auto
  from xchat_env_int_min [of 10 300 os "''CHATLOGGER_HEARTBEAT_SECONDS''"] obtain c where
    c: "xchat_env_int os ''CHATLOGGER_HEARTBEAT_SECONDS'' 300 10 = Inr c" "10 \<le> c" by auto
  from xchat_env_int_min [of 1 30 os "''CHATLOGGER_TAIL_RESTART_BACKOFF_MAX''"] obtain d where
    d: "xchat_env_int os ''CHATLOGGER_TAIL_RESTART_BACKOFF_MAX'' 30 1 = Inr d" "1 \<le> d" by auto
  note a b c d
  then show ?thesis by (simp add: load_xchat_settings_def)
qed

text \<open>The runtime environment is readable unless its file is not UTF-8; then every function that needs it raises.\<close>

definition env_readable :: "os_env \<Rightarrow> bool" where
  "env_readable os \<longleftrightarrow> (\<forall>t. file_at os runtime_env_path \<noteq> Undecodable t)"

lemma xchat_runtime_readable: "env_readable os \<Longrightarrow> \<exists>st. xchat_load_runtime_env os = Inr st"
  by (cases "file_at os runtime_env_path")
     (auto simp: env_readable_def xchat_load_runtime_env_def is_file_def read_text_def Let_def)

lemma xchat_source_readable:
  assumes "env_readable os"
  shows "\<exists>p l. xchat_preferred_tail_source os = Inr (p, l)" and "\<exists>p. active_server_log_path os = Inr p"
proof -
  from xchat_runtime_readable [OF assms] obtain st where st: "xchat_load_runtime_env os = Inr st" ..
  then obtain d where "active_mod_dir os = Inr d" by (simp add: active_mod_dir_def Let_def)
  with st show p: "\<exists>p. active_server_log_path os = Inr p" by (simp add: active_server_log_path_def Let_def)
  from st obtain l where "live_output_path os = Inr l" by (simp add: live_output_path_def Let_def)
  with p show "\<exists>p l. xchat_preferred_tail_source os = Inr (p, l)"
    by (cases l) (auto simp: xchat_preferred_tail_source_def)
qed

lemma xchat_runtime_unreadable:
  "\<not> env_readable os \<Longrightarrow> xchat_preferred_tail_source os = Inl UnicodeDecodeError"
  by (auto simp: env_readable_def xchat_preferred_tail_source_def live_output_path_def xchat_load_runtime_env_def
      is_file_def read_text_def Let_def)

end
