(* ===== verification/Legacy_Chat_Cleanup.thy ===== *)
theory Legacy_Chat_Cleanup
  imports Legacy_Chat_Files
begin

section \<open>What the clean-up of \<open>40-chatlogger.py\<close> does to a day\<close>

text \<open>
  Both loops of the clean-up work on one name at a time and look at nothing else, so the outcome for one day
  can be read off a single step.  The locale states this for any such loop over a directory; it is
  interpreted on both loop bodies.
\<close>

subsection \<open>Loops over the names of a directory\<close>

locale local_update =
  fixes step :: "'n \<Rightarrow> ('k, 'v) pydict \<Rightarrow> ('k, 'v) pydict"
    and touched :: "'n \<Rightarrow> 'k set"
    and proper :: "'n \<Rightarrow> bool"
  assumes frame: "k \<notin> touched n \<Longrightarrow> dict_get (step n d) k = dict_get d k"
    and local: "(\<And>k. k \<in> touched n \<Longrightarrow> dict_get d k = dict_get e k) \<Longrightarrow> k \<in> touched n \<Longrightarrow>
      dict_get (step n d) k = dict_get (step n e) k"
    and apart: "proper m \<Longrightarrow> proper n \<Longrightarrow> m \<noteq> n \<Longrightarrow> touched m \<inter> touched n = {}"
begin

lemma fold_frame: "(\<And>n. n \<in> set ns \<Longrightarrow> k \<notin> touched n) \<Longrightarrow> dict_get (fold step ns d) k = dict_get d k"
  by (induction ns arbitrary: d) (simp_all add: frame)

lemma fold_at:
  assumes "distinct ns" "list_all proper ns" "n \<in> set ns" "k \<in> touched n"
  shows "dict_get (fold step ns d) k = dict_get (step n d) k"
  using assms
proof (induction ns arbitrary: d)
  case (Cons m ns)
  show ?case
  proof (cases "m = n")
    case True
    have "k \<notin> touched l" if "l \<in> set ns" for l
      using apart [of l n] that Cons.prems True by (auto simp: list_all_iff)
    then show ?thesis using True by (simp add: fold_frame)
  next
    case False
    then have n: "n \<in> set ns" using Cons.prems(3) by simp
    with False Cons.prems have "touched m \<inter> touched n = {}" by (intro apart) (auto simp: list_all_iff)
    then have "dict_get (step m d) l = dict_get d l" if "l \<in> touched n" for l using that by (intro frame) auto
    from local [OF this Cons.prems(4)] Cons n show ?thesis by simp
  qed
qed simp

end

subsection \<open>Names\<close>

lemma is_chat_log_last: "is_chat_log n \<Longrightarrow> last n = CHR ''g''"
  by (metis append_take_drop_id is_chat_log_def last.simps last_append list.distinct(1))

lemma gz_of_last: "last (gz_of n) = CHR ''z''"
  by (simp add: gz_of_def)

lemma chat_log_not_gz: "is_chat_log n \<Longrightarrow> n \<noteq> gz_of m"
  using is_chat_log_last gz_of_last by fastforce

lemma gz_log_not_chat: "is_gz_log n \<Longrightarrow> \<not> is_chat_log n"
proof
  assume "is_gz_log n" "is_chat_log n"
  then have "last n = CHR ''z''"
    by (metis append_take_drop_id is_gz_log_def last.simps last_append list.distinct(1))
  with is_chat_log_last [OF \<open>is_chat_log n\<close>] show False by simp
qed

lemma gz_log_name: "is_gz_log (gz_of (log_name d)) \<and> gz_stamp (gz_of (log_name d)) = date_key d"
  by (simp add: is_gz_log_def gz_of_def log_name_def gz_stamp_def)

lemma gz_log_of: "is_chat_log m \<Longrightarrow> is_gz_log (gz_of m)"
  by (auto simp: is_chat_log_def is_gz_log_def gz_of_def startswith_iff)

subsection \<open>The two loops\<close>

lemma dict_get_unlink: "dict_get (try_unlink env n files) k = (if k = n \<and> can_unlink env n then None else dict_get files k)"
  by (simp add: try_unlink_def delete_conv)

text \<open>One step on a name, as the contents of the daily file and of its compressed form.\<close>

definition plain_after :: "clean_env \<Rightarrow> int \<Rightarrow> int \<Rightarrow> string \<Rightarrow> directory \<Rightarrow> blob option \<times> blob option" where
  "plain_after env plain_cutoff delete_cutoff n files =
     (let l = dict_get files n; g = dict_get files (gz_of n); gone = (if can_unlink env n then None else l)
      in case strptime_date (log_stamp n) of
           None \<Rightarrow> (l, g)
         | Some d \<Rightarrow>
             if ordinal d < delete_cutoff then (gone, g)
             else if plain_cutoff \<le> ordinal d then (l, g)
             else if g \<noteq> None then (gone, g)
             else (case l of
                     None \<Rightarrow> (l, g)
                   | Some b \<Rightarrow>
                       (case gzip_result env n of
                          GzFails \<Rightarrow> (l, g) | GzFailsHalfway \<Rightarrow> (l, Some (GzCut b)) | GzWritten \<Rightarrow> (gone, Some (Gz b)))))"

lemma gz_of_neq [simp]: "gz_of n \<noteq> n" "n \<noteq> gz_of n"
  by (simp_all add: gz_of_def)

lemma clean_plain_after:
  "(dict_get (clean_plain env p d n files) n, dict_get (clean_plain env p d n files) (gz_of n)) =
     plain_after env p d n files"
  by (simp add: clean_plain_def plain_after_def Let_def dict_get_unlink split: option.splits gz_outcome.splits)

lemma clean_plain_frame:
  "k \<noteq> n \<Longrightarrow> k \<noteq> gz_of n \<Longrightarrow> dict_get (clean_plain env p d n files) k = dict_get files k"
  by (simp add: clean_plain_def dict_get_unlink split: option.splits gz_outcome.splits)

lemma clean_plain_absent:
  "dict_get files n = None \<Longrightarrow> k \<in> {n, gz_of n} \<Longrightarrow> dict_get (clean_plain env p d n files) k = dict_get files k"
  by (auto simp: clean_plain_def dict_get_unlink split: option.splits)

interpretation plain_loop: local_update "clean_plain env p d" "\<lambda>n. {n, gz_of n}" is_chat_log for env p d
proof unfold_locales
  fix k n files
  assume "k \<notin> {n, gz_of n}"
  then show "dict_get (clean_plain env p d n files) k = dict_get files k" by (simp add: clean_plain_frame)
next
  fix n k and files files' :: directory
  assume "\<And>k. k \<in> {n, gz_of n} \<Longrightarrow> dict_get files k = dict_get files' k"
  then have "plain_after env p d n files = plain_after env p d n files'" by (simp add: plain_after_def)
  then have "(dict_get (clean_plain env p d n files) n, dict_get (clean_plain env p d n files) (gz_of n)) =
      (dict_get (clean_plain env p d n files') n, dict_get (clean_plain env p d n files') (gz_of n))"
    by (simp only: clean_plain_after)
  moreover assume "k \<in> {n, gz_of n}"
  ultimately show "dict_get (clean_plain env p d n files) k = dict_get (clean_plain env p d n files') k" by auto
next
  fix m n
  assume "is_chat_log m" "is_chat_log n" "m \<noteq> n"
  then show "{m, gz_of m} \<inter> {n, gz_of n} = {}"
    using chat_log_not_gz [of m n] chat_log_not_gz [of n m] by (auto simp: gz_of_def)
qed

interpretation gz_loop: local_update "clean_gz env d" "\<lambda>n. {n}" is_gz_log for env d
  by unfold_locales (auto simp: clean_gz_def dict_get_unlink split: option.splits)

subsection \<open>The clean-up\<close>

lemma distinct_fold:
  "(\<And>n files. distinct (map fst files) \<Longrightarrow> distinct (map fst (f n files))) \<Longrightarrow> distinct (map fst files) \<Longrightarrow>
   distinct (map fst (fold f ns files))"
  by (induction ns arbitrary: files) simp_all

lemma distinct_unlink: "distinct (map fst files) \<Longrightarrow> distinct (map fst (try_unlink env n files))"
  by (simp add: try_unlink_def distinct_delete)

lemma distinct_dict_set: "distinct (map fst files) \<Longrightarrow> distinct (map fst (dict_set k v files))"
  by (simp add: dict_set_def distinct_update)

lemma distinct_clean_plain: "distinct (map fst files) \<Longrightarrow> distinct (map fst (clean_plain env p d n files))"
  by (simp add: clean_plain_def distinct_unlink distinct_dict_set split: option.splits gz_outcome.splits)

lemma distinct_clean_gz: "distinct (map fst files) \<Longrightarrow> distinct (map fst (clean_gz env d n files))"
  by (simp add: clean_gz_def distinct_unlink split: option.splits)

lemma cleanup_distinct:
  "xchat_cleanup_old_logs cfg env now files = Inr files' \<Longrightarrow> distinct (map fst files) \<Longrightarrow> distinct (map fst files')"
  by (auto simp: xchat_cleanup_old_logs_def bindR_eq_Inr Let_def intro!: distinct_fold distinct_clean_plain distinct_clean_gz)

lemma listed: "dict_get files n \<noteq> None \<longleftrightarrow> n \<in> set (map fst files)"
  by (metis list.set_map map_of_eq_None_iff)

lemma plain_loop_at:
  assumes "distinct (map fst files)" "is_chat_log n" "k \<in> {n, gz_of n}"
  shows "dict_get (fold (clean_plain env p d) (sort (filter is_chat_log (map fst files))) files) k =
    dict_get (clean_plain env p d n files) k"
proof (cases "n \<in> set (map fst files)")
  case True
  then show ?thesis
    by (intro plain_loop.fold_at) (use assms in \<open>auto simp: list_all_iff\<close>)
next
  case False
  then have "dict_get files n = None" using listed by metis
  have "k \<notin> {m, gz_of m}" if "m \<in> set (sort (filter is_chat_log (map fst files)))" for m
    using that False assms(2,3) plain_loop.apart [of m n] by auto
  then have "dict_get (fold (clean_plain env p d) (sort (filter is_chat_log (map fst files))) files) k = dict_get files k"
    by (rule plain_loop.fold_frame)
  with clean_plain_absent [OF \<open>dict_get files n = None\<close> assms(3)] show ?thesis by simp
qed

lemma gz_loop_at:
  assumes "distinct (map fst files)" "is_gz_log n"
  shows "dict_get (fold (clean_gz env d) (sort (filter is_gz_log (map fst files))) files) n =
    dict_get (clean_gz env d n files) n"
proof (cases "n \<in> set (map fst files)")
  case True
  then show ?thesis by (intro gz_loop.fold_at) (use assms in \<open>auto simp: list_all_iff\<close>)
next
  case False
  then have "dict_get files n = None" using listed by metis
  moreover from this have "dict_get (clean_gz env d n files) n = None"
    by (simp add: clean_gz_def dict_get_unlink split: option.splits)
  ultimately show ?thesis using False by (subst gz_loop.fold_frame) auto
qed

text \<open>A chat log and its compressed form after the whole clean-up; their names have the same stamp.\<close>

lemma gz_stamp_of: "is_chat_log n \<Longrightarrow> gz_stamp (gz_of n) = log_stamp n"
  by (simp add: is_chat_log_def gz_stamp_def gz_of_def log_stamp_def)

lemma cleanup_name:
  assumes "xchat_cleanup_old_logs cfg env now files = Inr files'" "distinct (map fst files)" "is_chat_log n"
    and "plain_after env (ordinal (dt_date now) - keep_plain_days cfg) (ordinal (dt_date now) - keep_total_days cfg) n files = (l, g)"
  shows "dict_get files' n = l"
    and "dict_get files' (gz_of n) =
      (case strptime_date (log_stamp n) of
         None \<Rightarrow> g
       | Some d \<Rightarrow> if ordinal d < ordinal (dt_date now) - keep_total_days cfg \<and> can_unlink env (gz_of n) then None else g)"
proof -
  let ?p = "ordinal (dt_date now) - keep_plain_days cfg" and ?d = "ordinal (dt_date now) - keep_total_days cfg"
  let ?f = "fold (clean_plain env ?p ?d) (sort (filter is_chat_log (map fst files))) files"
  have files': "files' = fold (clean_gz env ?d) (sort (filter is_gz_log (map fst ?f))) ?f"
    using assms(1) by (auto simp: xchat_cleanup_old_logs_def cutoff_ordinal_def bindR_eq_Inr Let_def split: if_splits)
  note n = assms(3)
  have f: "dict_get ?f n = l" "dict_get ?f (gz_of n) = g"
    using plain_loop_at [OF assms(2) n, of n env ?p ?d] plain_loop_at [OF assms(2) n, of "gz_of n" env ?p ?d]
      clean_plain_after [of env ?p ?d n files] assms(4) by simp_all
  have dist: "distinct (map fst ?f)" by (intro distinct_fold distinct_clean_plain assms(2))
  have "dict_get files' n = dict_get ?f n"
    unfolding files' by (rule gz_loop.fold_frame) (use n gz_log_not_chat in auto)
  with f show "dict_get files' n = l" by simp
  show "dict_get files' (gz_of n) = (case strptime_date (log_stamp n) of
      None \<Rightarrow> g | Some d \<Rightarrow> if ordinal d < ?d \<and> can_unlink env (gz_of n) then None else g)"
    unfolding files' using gz_loop_at [OF dist gz_log_of [OF n], of env ?d] gz_stamp_of [OF n] f(2)
    by (simp add: clean_gz_def dict_get_unlink split: option.split)
qed

lemma cleanup_day:
  assumes "xchat_cleanup_old_logs cfg env now files = Inr files'" "distinct (map fst files)" "good_date d"
    and "plain_after env (ordinal (dt_date now) - keep_plain_days cfg) (ordinal (dt_date now) - keep_total_days cfg)
      (log_name d) files = (l, g)"
  shows "dict_get files' (log_name d) = l"
    and "dict_get files' (gz_of (log_name d)) =
      (if ordinal d < ordinal (dt_date now) - keep_total_days cfg \<and> can_unlink env (gz_of (log_name d)) then None else g)"
proof -
  have "is_chat_log (log_name d)" using log_stamp_name by blast
  from cleanup_name [OF assms(1,2) this assms(4)] strptime_log_name [OF assms(3)]
  show "dict_get files' (log_name d) = l"
    and "dict_get files' (gz_of (log_name d)) =
      (if ordinal d < ordinal (dt_date now) - keep_total_days cfg \<and> can_unlink env (gz_of (log_name d)) then None else g)"
    by simp_all
qed

text \<open>Every name of a compressed log is that of a chat log with the ending behind it.\<close>

lemma gz_log_cases:
  assumes "is_gz_log n"
  obtains m where "is_chat_log m" "n = gz_of m"
proof
  let ?m = "take (length n - 3) n"
  have n: "12 \<le> length n" "startswith n ''chat-''" "drop (length n - 7) n = ''.log.gz''"
    using assms by (simp_all add: is_gz_log_def)
  have "drop (length n - 3) n = drop 4 (drop (length n - 7) n)" using n(1) by simp
  then have "drop (length n - 3) n = ''.gz''" by (simp add: n(3))
  then show "n = gz_of ?m" by (metis append_take_drop_id gz_of_def)
  have "drop (length ?m - 4) ?m = take 4 (drop (length n - 7) n)" using n(1) by (simp add: drop_take)
  then have "drop (length ?m - 4) ?m = ''.log''" by (simp add: n(3))
  moreover have "startswith ?m ''chat-''" using n(1,2) by (simp add: startswith_iff flip: take_take) (auto simp: take_Cons')
  ultimately show "is_chat_log ?m" using n(1) by (simp add: is_chat_log_def)
qed

text \<open>
  C26.  The life of the files of the chat directory.  Where no system call fails, the clean-up deletes a dated chat log
  and its compressed form when the day lies before the total retention period, turns a log before the plain period
  into its compressed form, keeping an existing one, and leaves younger days alone; a chat log whose name shows no date
  is kept, and so is its compressed form, and a name that is neither kind of log is never touched.  The file the
  logger writes for a day is such a log of that day.
\<close>

theorem xchat_cleanup_spec:
  assumes "xchat_cleanup_old_logs cfg env now files = Inr files'" "distinct (map fst files)"
    and "\<And>n. can_unlink env n \<and> gzip_result env n = GzWritten"
  shows "(\<forall>n. is_chat_log n \<longrightarrow>
      (case strptime_date (log_stamp n) of
         None \<Rightarrow> dict_get files' n = dict_get files n \<and> dict_get files' (gz_of n) = dict_get files (gz_of n)
       | Some d \<Rightarrow>
           (let g = gz_of n; age = ordinal (dt_date now) - ordinal d
            in if keep_total_days cfg < age then dict_get files' n = None \<and> dict_get files' g = None
               else if age \<le> keep_plain_days cfg then dict_get files' n = dict_get files n \<and> dict_get files' g = dict_get files g
               else dict_get files' n = None \<and> dict_get files' g =
                 (if dict_get files g \<noteq> None then dict_get files g else map_option Gz (dict_get files n))))) \<and>
    (\<forall>d. valid_date d \<and> 1000 \<le> d_year d \<longrightarrow>
      is_chat_log (log_name d) \<and> strptime_date (log_stamp (log_name d)) = Some d) \<and>
    (\<forall>n. \<not> is_chat_log n \<and> (\<forall>m. is_chat_log m \<longrightarrow> n \<noteq> gz_of m) \<longrightarrow> dict_get files' n = dict_get files n)"
proof (intro conjI allI impI)
  fix n assume n: "is_chat_log n"
  obtain l g where lg: "plain_after env (ordinal (dt_date now) - keep_plain_days cfg)
      (ordinal (dt_date now) - keep_total_days cfg) n files = (l, g)" by (rule prod.exhaust)
  note after = cleanup_name [OF assms(1,2) n lg]
  show "case strptime_date (log_stamp n) of
         None \<Rightarrow> dict_get files' n = dict_get files n \<and> dict_get files' (gz_of n) = dict_get files (gz_of n)
       | Some d \<Rightarrow>
           (let g = gz_of n; age = ordinal (dt_date now) - ordinal d
            in if keep_total_days cfg < age then dict_get files' n = None \<and> dict_get files' g = None
               else if age \<le> keep_plain_days cfg then dict_get files' n = dict_get files n \<and> dict_get files' g = dict_get files g
               else dict_get files' n = None \<and> dict_get files' g =
                 (if dict_get files g \<noteq> None then dict_get files g else map_option Gz (dict_get files n)))"
  proof (cases "strptime_date (log_stamp n)")
    case None
    with after lg show ?thesis by (simp add: plain_after_def)
  next
    case (Some d)
    with after lg assms(3) show ?thesis
      by (auto simp: plain_after_def Let_def split: option.splits if_splits) metis
  qed
next
  fix d assume "valid_date d \<and> 1000 \<le> d_year d"
  then have "good_date d" by (simp add: good_date_def)
  from strptime_log_name [OF this] show "strptime_date (log_stamp (log_name d)) = Some d" .
  show "is_chat_log (log_name d)" using log_stamp_name [of d] by simp
next
  fix n assume "\<not> is_chat_log n \<and> (\<forall>m. is_chat_log m \<longrightarrow> n \<noteq> gz_of m)"
  then have n: "\<not> is_chat_log n" "\<not> is_gz_log n" "\<And>m. is_chat_log m \<Longrightarrow> n \<noteq> gz_of m" using gz_log_cases by blast+
  have "dict_get files' n = dict_get files n"
    if "files' = fold (clean_gz env q) (sort (filter is_gz_log (map fst f))) f"
      "f = fold (clean_plain env p q) (sort (filter is_chat_log (map fst files))) files" for p q f
  proof -
    have "dict_get files' n = dict_get f n" unfolding that(1) by (rule gz_loop.fold_frame) (use n in auto)
    moreover have "dict_get f n = dict_get files n"
      unfolding that(2) by (rule plain_loop.fold_frame) (use n in auto)
    ultimately show ?thesis by simp
  qed
  then show "dict_get files' n = dict_get files n"
    using assms(1) by (auto simp: xchat_cleanup_old_logs_def bindR_eq_Inr Let_def)
qed

text \<open>Two daily files of January, cleaned up in February with the shipped periods.\<close>

definition shipped_settings :: xchat_settings where
  "shipped_settings = \<lparr>keep_plain_days = 7, keep_total_days = 60, heartbeat_seconds = 300, backoff_max = 30\<rparr>"

definition clean_ok :: clean_env where
  "clean_ok = \<lparr>can_unlink = (\<lambda>n. True), gzip_result = (\<lambda>n. GzWritten)\<rparr>"

definition january :: directory where
  "january = [(log_name (Date 2024 1 8), Raw ''a''), (log_name (Date 2024 1 31), Raw ''b'')]"

theorem xchat_cleanup_spec_witness:
  "\<exists>files'. xchat_cleanup_old_logs shipped_settings clean_ok (at_noon (Date 2024 2 1)) january = Inr files' \<and>
     dict_get files' (log_name (Date 2024 1 8)) = None \<and>
     dict_get files' (gz_of (log_name (Date 2024 1 8))) = Some (Gz (Raw ''a'')) \<and>
     dict_get files' (log_name (Date 2024 1 31)) = Some (Raw ''b'')"
proof -
  have o: "ordinal (Date 2024 2 1) = 738917" "ordinal (Date 2024 1 8) = 738893" "ordinal (Date 2024 1 31) = 738916"
    by code_simp+
  obtain files' where c: "xchat_cleanup_old_logs shipped_settings clean_ok (at_noon (Date 2024 2 1)) january = Inr files'"
    using o by (simp add: xchat_cleanup_old_logs_def cutoff_ordinal_def at_noon_def shipped_settings_def Let_def
        del: ordinal.simps)
  have n: "log_name (Date 2024 1 8) = ''chat-2024-01-08.log''" "log_name (Date 2024 1 31) = ''chat-2024-01-31.log''"
    by code_simp+
  have d: "distinct (map fst january)" by (simp add: january_def n)
  have ok: "can_unlink clean_ok n \<and> gzip_result clean_ok n = GzWritten" for n by (simp add: clean_ok_def)
  note life = xchat_cleanup_spec [OF c d ok]
  have stamps: "is_chat_log ''chat-2024-01-08.log''" "strptime_date (log_stamp ''chat-2024-01-08.log'') = Some (Date 2024 1 8)"
    "is_chat_log ''chat-2024-01-31.log''" "strptime_date (log_stamp ''chat-2024-01-31.log'') = Some (Date 2024 1 31)"
    by code_simp+
  from life [THEN conjunct1, THEN spec, of "log_name (Date 2024 1 8)"] life [THEN conjunct1, THEN spec, of "log_name (Date 2024 1 31)"]
  have "dict_get files' (log_name (Date 2024 1 8)) = None \<and>
     dict_get files' (gz_of (log_name (Date 2024 1 8))) = Some (Gz (Raw ''a'')) \<and>
     dict_get files' (log_name (Date 2024 1 31)) = Some (Raw ''b'')"
    by (simp add: o january_def n gz_of_def at_noon_def shipped_settings_def stamps Let_def del: ordinal.simps)
  with c show ?thesis by blast
qed

text \<open>
  Compression loses a day if it fails half-way.  The truncated file stays, the next clean-up takes its presence
  for a finished compression and deletes the only complete copy.
\<close>

theorem xchat_truncated_loss:
  assumes "xchat_cleanup_old_logs cfg env now files = Inr files1" "xchat_cleanup_old_logs cfg env' now files1 = Inr files2"
    and "distinct (map fst files)" "valid_date d" "1000 \<le> d_year d"
    and "keep_plain_days cfg < ordinal (dt_date now) - ordinal d" "ordinal (dt_date now) - ordinal d \<le> keep_total_days cfg"
    and "dict_get files (log_name d) = Some b" "dict_get files (gz_of (log_name d)) = None"
    and "gzip_result env (log_name d) = GzFailsHalfway" "can_unlink env' (log_name d)"
  shows "dict_get files1 (log_name d) = Some b \<and> dict_get files2 (log_name d) = None \<and>
    dict_get files2 (gz_of (log_name d)) = Some (GzCut b)"
proof -
  have good: "good_date d" using assms by (simp add: good_date_def)
  let ?p = "ordinal (dt_date now) - keep_plain_days cfg" and ?d = "ordinal (dt_date now) - keep_total_days cfg"
  have a: "plain_after env ?p ?d (log_name d) files = (Some b, Some (GzCut b))"
    using assms strptime_log_name [OF good] by (simp add: plain_after_def)
  note f1 = cleanup_day [OF assms(1,3) good a]
  have b: "plain_after env' ?p ?d (log_name d) files1 = (None, Some (GzCut b))"
    using f1 assms strptime_log_name [OF good] by (simp add: plain_after_def)
  from cleanup_day [OF assms(2) cleanup_distinct [OF assms(1,3)] good b] f1 assms(7) show ?thesis by simp
qed

definition clean_halfway :: clean_env where
  "clean_halfway = \<lparr>can_unlink = (\<lambda>n. True), gzip_result = (\<lambda>n. GzFailsHalfway)\<rparr>"

theorem xchat_truncated_loss_witness:
  "\<exists>files1 files2.
     xchat_cleanup_old_logs shipped_settings clean_halfway (at_noon (Date 2024 2 1)) january = Inr files1 \<and>
     xchat_cleanup_old_logs shipped_settings clean_ok (at_noon (Date 2024 2 1)) files1 = Inr files2 \<and>
     dict_get files2 (log_name (Date 2024 1 8)) = None"
proof -
  have o: "ordinal (Date 2024 2 1) = 738917" "ordinal (Date 2024 1 8) = 738893" by code_simp+
  have total: "\<exists>fs'. xchat_cleanup_old_logs shipped_settings env (at_noon (Date 2024 2 1)) fs = Inr fs'" for env fs
    using o by (simp add: xchat_cleanup_old_logs_def cutoff_ordinal_def at_noon_def shipped_settings_def Let_def
        del: ordinal.simps)
  obtain f1 where f1: "xchat_cleanup_old_logs shipped_settings clean_halfway (at_noon (Date 2024 2 1)) january = Inr f1"
    using total by blast
  obtain f2 where f2: "xchat_cleanup_old_logs shipped_settings clean_ok (at_noon (Date 2024 2 1)) f1 = Inr f2"
    using total by blast
  have n: "log_name (Date 2024 1 8) = ''chat-2024-01-08.log''" "log_name (Date 2024 1 31) = ''chat-2024-01-31.log''"
    by code_simp+
  have d: "distinct (map fst january)" by (simp add: january_def n)
  from xchat_truncated_loss [OF f1 f2 d, of "Date 2024 1 8" "Raw ''a''"] have "dict_get f2 (log_name (Date 2024 1 8)) = None"
    by (simp add: o january_def n gz_of_def at_noon_def shipped_settings_def days_in_month_def clean_ok_def
        clean_halfway_def del: ordinal.simps)
  with f1 f2 show ?thesis by blast
qed

end
