(* ===== verification/Tail_Process.thy ===== *)
theory Tail_Process
  imports Prelude
begin

section \<open>Ending a \<open>tail\<close> process\<close>

text \<open>
  The deprecated daemons read a child \<open>tail\<close>.  When the loop over its lines ends, in whatever way, they end the
  child: \<open>_stop_tail\<close> of \<open>40-chatlogger.py\<close> and the \<open>finally\<close> block of the other two.  The child may have been
  seen to end already (\<open>poll\<close>), each signal may fail with \<open>OSError\<close>, each wait may time out.
\<close>

datatype tail_signal = TailTerm | TailKill

record tail_env =
  te_ended :: bool
  te_terminate :: bool
  te_first_wait :: bool
  te_kill :: bool

text \<open>The signals delivered, and whether the pipes of the child were closed.\<close>

definition stop_tail :: "tail_env \<Rightarrow> tail_signal list \<times> bool" where
  "stop_tail e =
     (if te_ended e then ([], False)
      else if \<not> te_terminate e then ([], True)
      else if te_first_wait e then ([TailTerm], True)
      else if \<not> te_kill e then ([TailTerm], True)
      else ([TailTerm, TailKill], True))"

text \<open>The other two daemons try to kill the child after any failure, and leave the pipes alone.\<close>

definition end_tail :: "tail_env \<Rightarrow> tail_signal list" where
  "end_tail e =
     (if te_ended e then []
      else if te_terminate e \<and> te_first_wait e then [TailTerm]
      else (if te_terminate e then [TailTerm] else []) @ (if te_kill e then [TailKill] else []))"

text \<open>
  What is left of the child is asked for its diagnostics; a pipe that has been closed raises
  \<open>ValueError\<close>, which is not the \<open>OSError\<close> that is caught.
\<close>

definition read_stderr :: "bool \<Rightarrow> unit res" where
  "read_stderr closed = (if closed then Inl ValueError else Inr ())"

lemma stop_tail_ended: "te_ended e \<Longrightarrow> stop_tail e = ([], False)"
  by (simp add: stop_tail_def)

lemma stop_tail_closed: "snd (stop_tail e) = (\<not> te_ended e)"
  by (simp add: stop_tail_def)

text \<open>
  A child that has ended is sent nothing; a running one is killed by \<open>_stop_tail\<close> only after it was told to
  terminate and given its time, and both functions deliver the same signals to a child that can be signalled.
\<close>

theorem stop_tail_signals:
  "(te_ended e \<longrightarrow> fst (stop_tail e) = [] \<and> end_tail e = []) \<and>
   (TailKill \<in> set (fst (stop_tail e)) \<longrightarrow> hd (fst (stop_tail e)) = TailTerm \<and> \<not> te_first_wait e) \<and>
   (te_terminate e \<longrightarrow> end_tail e = fst (stop_tail e))"
  by (auto simp: stop_tail_def end_tail_def)

end
