(* ===== verification/Legacy_Chat_Worker.thy ===== *)
theory Legacy_Chat_Worker
  imports Legacy_Chat_Parse Legacy_Chat_Cleanup Tail_Process
begin

section \<open>\<open>40-chatlogger.py\<close>: the worker\<close>

text \<open>
  \<open>WorkerRuntime\<close> and \<open>worker_loop\<close>.  A call that raises keeps the changes it made before, so an action maps a
  state to the exception it raised, if any, and the new state.  Every clock reading, every answer of the
  system and the shutdown flag are inputs; the worker's own log is not modelled.
\<close>

subsection \<open>Actions\<close>

type_synonym 's act = "'s \<Rightarrow> exn option \<times> 's"

definition act_seq :: "'s act \<Rightarrow> 's act \<Rightarrow> 's act" where
  "act_seq f g s = (case f s of (Some e, s') \<Rightarrow> (Some e, s') | (None, s') \<Rightarrow> g s')"

text \<open>\<open>try: f() except Exception: ...\<close>: the exception is logged, the changes made before it stay.\<close>

definition act_try :: "'s act \<Rightarrow> 's act" where
  "act_try f s = (None, snd (f s))"

subsection \<open>\<open>json.dumps\<close>\<close>

definition json_char :: "char \<Rightarrow> string" where
  "json_char c =
     (if c = CHR 0x22 \<or> c = CHR 0x5C then [CHR 0x5C, c]
      else if c = CHR 0x0A then [CHR 0x5C, CHR ''n'']
      else if c = CHR 0x0D then [CHR 0x5C, CHR ''r'']
      else if c = CHR 0x09 then [CHR 0x5C, CHR ''t'']
      else if code c = 8 then [CHR 0x5C, CHR ''b'']
      else if code c = 12 then [CHR 0x5C, CHR ''f'']
      else if in_range 32 126 c then [c]
      else [CHR 0x5C, CHR ''u'', CHR ''0'', CHR ''0'', hex_digit (code c div 16), hex_digit (code c mod 16)])"

definition json_str :: "string \<Rightarrow> string" where
  "json_str s = [CHR 0x22] @ concat (map json_char s) @ [CHR 0x22]"

fun json_float :: "num_float \<Rightarrow> string" where
  "json_float (FNum _ r) = r"
| "json_float (FInf neg) = (if neg then ''-Infinity'' else ''Infinity'')"
| "json_float FNaN = ''NaN''"

fun json_dumps :: "json \<Rightarrow> string" where
  "json_dumps JNull = ''null''"
| "json_dumps (JBool b) = (if b then ''true'' else ''false'')"
| "json_dumps (JInt i) = str_of_int i"
| "json_dumps (JFloat f) = json_float f"
| "json_dumps (JStr s) = json_str s"
| "json_dumps (JList xs) = ''['' @ join '', '' (map json_dumps xs) @ '']''"
| "json_dumps (JObj d) =
     CHR 0x7B # join '', '' (map (\<lambda>kv. json_str (fst kv) @ '': '' @ json_dumps (snd kv)) d) @ [CHR 0x7D]"

subsection \<open>State\<close>

record xchat_state =
  st_lines :: int
  st_chats :: int
  st_last_at :: "string option"
  st_last :: "string option"
  st_heartbeat :: rat
  st_cleanup :: rat
  st_date :: date
  st_file :: "string option"
  st_files :: directory
  st_latest :: "string option"
  st_saved :: "string option"

text \<open>What one write, one heartbeat, one line and one poll of a waiting loop find.\<close>

record write_input =
  wi_now :: datetime
  wi_tz :: string
  wi_mono :: rat
  wi_clean :: clean_env
  wi_opens :: bool
  wi_link :: link_outcome
  wi_writes :: bool

record beat_input =
  bi_mono :: rat
  bi_now :: datetime
  bi_tz :: string
  bi_os :: os_env
  bi_saves :: bool

record line_input =
  li_stop :: bool
  li_raw :: string
  li_now :: datetime
  li_tz :: string
  li_write :: write_input
  li_beat :: beat_input
  li_check :: rat
  li_clean_now :: datetime
  li_clean :: clean_env
  li_clean_done :: rat
  li_after :: rat

record poll =
  po_stop :: bool
  po_mono :: rat
  po_exists :: bool
  po_beat :: beat_input

subsection \<open>Output\<close>

definition xchat_init :: "rat \<Rightarrow> date \<Rightarrow> directory \<Rightarrow> xchat_state" where
  "xchat_init clock today files = \<lparr>st_lines = 0, st_chats = 0, st_last_at = None, st_last = None, st_heartbeat = 0,
     st_cleanup = clock, st_date = today, st_file = None, st_files = files, st_latest = None, st_saved = None\<rparr>"

definition close_output :: "xchat_state \<Rightarrow> xchat_state" where
  "close_output st = st\<lparr>st_file := None\<rparr>"

definition xchat_update_latest_symlink :: "link_outcome \<Rightarrow> string \<Rightarrow> xchat_state \<Rightarrow> xchat_state" where
  "xchat_update_latest_symlink out target st =
     (case out of LinkOk \<Rightarrow> st\<lparr>st_latest := Some target\<rparr>
      | UnlinkFails \<Rightarrow> st
      | SymlinkFails \<Rightarrow> st\<lparr>st_latest := None\<rparr>)"

text \<open>Opening for appending creates the file.\<close>

definition open_today :: "write_input \<Rightarrow> xchat_state act" where
  "open_today inp st =
     (let path = log_name (dt_date (wi_now inp))
      in if st_file st = Some path then (None, st)
         else let st = close_output st
              in if \<not> wi_opens inp then (Some OSError, st)
                 else (None, xchat_update_latest_symlink (wi_link inp) path
                        (st\<lparr>st_files := dict_setdefault path (Raw []) (st_files st), st_file := Some path\<rparr>)))"

definition clean_files :: "xchat_settings \<Rightarrow> clean_env \<Rightarrow> datetime \<Rightarrow> xchat_state act" where
  "clean_files cfg env now st =
     (case xchat_cleanup_old_logs cfg env now (st_files st) of
        Inl e \<Rightarrow> (Some e, st)
      | Inr files \<Rightarrow> (None, st\<lparr>st_files := files\<rparr>))"

definition maybe_roll_date :: "xchat_settings \<Rightarrow> write_input \<Rightarrow> xchat_state act" where
  "maybe_roll_date cfg inp st =
     (if dt_date (wi_now inp) \<noteq> st_date st
      then act_seq (clean_files cfg (wi_clean inp) (wi_now inp)) (\<lambda>st. (None, st\<lparr>st_cleanup := wi_mono inp\<rparr>))
             (close_output (st\<lparr>st_date := dt_date (wi_now inp)\<rparr>))
      else (None, st))"

text \<open>A write reaches the directory while the open file has not been unlinked; daily files hold text.\<close>

definition append_blob :: "string \<Rightarrow> string \<Rightarrow> directory \<Rightarrow> directory" where
  "append_blob n t files = (case dict_get files n of Some (Raw c) \<Rightarrow> dict_set n (Raw (c @ t)) files | _ \<Rightarrow> files)"

definition write_line :: "write_input \<Rightarrow> string \<Rightarrow> xchat_state act" where
  "write_line inp line st =
     (case st_file st of
        None \<Rightarrow> (Some AssertionError, st)
      | Some n \<Rightarrow>
          if \<not> wi_writes inp then (Some OSError, st)
          else (None, st\<lparr>st_files := append_blob n (line @ [CHR 0x0A]) (st_files st), st_chats := st_chats st + 1,
                         st_last_at := Some (stamp_text (wi_now inp) @ '' '' @ wi_tz inp), st_last := Some line\<rparr>))"

definition write_chat :: "xchat_settings \<Rightarrow> write_input \<Rightarrow> xchat_entry \<Rightarrow> xchat_state act" where
  "write_chat cfg inp e =
     act_seq (maybe_roll_date cfg inp) (act_seq (open_today inp) (write_line inp (format_chat_entry e)))"

subsection \<open>Bookkeeping\<close>

definition opt_json :: "string option \<Rightarrow> json" where
  "opt_json v = (case v of Some s \<Rightarrow> JStr s | None \<Rightarrow> JNull)"

text \<open>The saved state, its keys sorted.\<close>

definition saved_state :: "int \<Rightarrow> beat_input \<Rightarrow> string \<Rightarrow> string \<Rightarrow> string \<Rightarrow> xchat_state \<Rightarrow> dict" where
  "saved_state pid b tail_path tail_source server_log st =
     [(''chats_logged'', JInt (st_chats st)), (''last_chat'', opt_json (st_last st)),
      (''last_chat_at'', opt_json (st_last_at st)), (''lines_seen'', JInt (st_lines st)), (''pid'', JInt pid),
      (''server_log_path'', JStr server_log), (''tail_path'', JStr tail_path), (''tail_source'', JStr tail_source),
      (''updated_at'', JStr (stamp_text (bi_now b) @ '' '' @ bi_tz b))]"

definition write_state :: "bool \<Rightarrow> dict \<Rightarrow> xchat_state \<Rightarrow> xchat_state" where
  "write_state saves d st = (if saves then st\<lparr>st_saved := Some (json_dumps (JObj d) @ [CHR 0x0A])\<rparr> else st)"

definition heartbeat :: "xchat_settings \<Rightarrow> int \<Rightarrow> bool \<Rightarrow> beat_input \<Rightarrow> xchat_state act" where
  "heartbeat cfg pid force b st =
     (if \<not> force \<and> bi_mono b - st_heartbeat st < of_int (heartbeat_seconds cfg) then (None, st)
      else let st = st\<lparr>st_heartbeat := bi_mono b\<rparr>
           in case xchat_preferred_tail_source (bi_os b) of
                Inl e \<Rightarrow> (Some e, st)
              | Inr (tail_path, tail_source) \<Rightarrow>
                  (case active_server_log_path (bi_os b) of
                     Inl e \<Rightarrow> (Some e, st)
                   | Inr server_log \<Rightarrow>
                       (None, write_state (bi_saves b) (saved_state pid b tail_path tail_source server_log st) st)))"

definition cleanup_interval_seconds :: rat where
  "cleanup_interval_seconds = 3600"

definition maybe_periodic_cleanup :: "xchat_settings \<Rightarrow> line_input \<Rightarrow> xchat_state act" where
  "maybe_periodic_cleanup cfg inp st =
     (if li_check inp - st_cleanup st < cleanup_interval_seconds then (None, st)
      else act_seq (clean_files cfg (li_clean inp) (li_clean_now inp))
             (\<lambda>st. (None, st\<lparr>st_cleanup := li_clean_done inp\<rparr>)) st)"

subsection \<open>Lines\<close>

text \<open>Handling a line may raise; that is logged and the loop goes on.\<close>

definition handle_line :: "xchat_settings \<Rightarrow> line_input \<Rightarrow> xchat_state act" where
  "handle_line cfg inp =
     act_try (\<lambda>st. case parse_chat_line (li_now inp) (li_tz inp) (li_raw inp) of
                     None \<Rightarrow> (None, st)
                   | Some e \<Rightarrow> write_chat cfg (li_write inp) e st)"

definition xchat_line :: "xchat_settings \<Rightarrow> int \<Rightarrow> rat \<Rightarrow> line_input \<Rightarrow> int \<times> xchat_state \<Rightarrow> exn option \<times> int \<times> xchat_state" where
  "xchat_line cfg pid spawn_time inp bs =
     (let (backoff, st) = bs;
          (r, st) = act_seq (handle_line cfg inp) (act_seq (heartbeat cfg pid False (li_beat inp)) (maybe_periodic_cleanup cfg inp))
                      (st\<lparr>st_lines := st_lines st + 1\<rparr>)
      in (r, if r = None \<and> 5 < li_after inp - spawn_time then 1 else backoff, st))"

text \<open>
  The loop over the lines of one \<open>tail\<close>: it ends with them, with the shutdown flag, or with an exception, which is
  logged outside the loop.
\<close>

fun xchat_lines :: "xchat_settings \<Rightarrow> int \<Rightarrow> rat \<Rightarrow> line_input list \<Rightarrow> int \<times> xchat_state \<Rightarrow> exn option \<times> int \<times> xchat_state" where
  "xchat_lines cfg pid spawn_time [] bs = (None, bs)"
| "xchat_lines cfg pid spawn_time (inp # inps) bs =
     (if li_stop inp then (None, bs)
      else case xchat_line cfg pid spawn_time inp bs of
             (Some e, bs) \<Rightarrow> (Some e, bs)
           | (None, bs) \<Rightarrow> xchat_lines cfg pid spawn_time inps bs)"

subsection \<open>Waiting\<close>

text \<open>
  \<open>_sleep_with_heartbeat\<close>, and (with \<open>watch\<close>) the wait for the file to appear: polls until the flag, the deadline
  or the file.
\<close>

fun wait_polls :: "xchat_settings \<Rightarrow> int \<Rightarrow> bool \<Rightarrow> rat \<Rightarrow> poll list \<Rightarrow> xchat_state act" where
  "wait_polls cfg pid watch deadline [] st = (None, st)"
| "wait_polls cfg pid watch deadline (p # ps) st =
     (if po_stop p \<or> deadline \<le> po_mono p then (None, st)
      else if watch \<and> po_exists p then (None, st)
      else act_seq (heartbeat cfg pid False (po_beat p)) (wait_polls cfg pid watch deadline ps) st)"

definition sleep_with_heartbeat :: "xchat_settings \<Rightarrow> int \<Rightarrow> rat \<Rightarrow> int \<Rightarrow> poll list \<Rightarrow> xchat_state act" where
  "sleep_with_heartbeat cfg pid start seconds ps = wait_polls cfg pid False (start + of_int (max 0 seconds)) ps"

subsection \<open>The loop\<close>

text \<open>
  How \<open>_stop_tail\<close> finds the child depends on how the loop over its lines ended: with the end of its output, or with
  an exception that left the loop.
\<close>

record xchat_pass_input =
  pi_stop :: bool
  pi_os :: os_env
  pi_exists :: bool
  pi_start :: rat  \<comment> \<open>the clock when a wait begins\<close>
  pi_polls :: "poll list"
  pi_starts :: bool
  pi_spawn :: rat
  pi_lines :: "line_input list"
  pi_tail :: "bool \<Rightarrow> tail_env"  \<comment> \<open>given whether an exception left the loop\<close>
  pi_stopped :: bool  \<comment> \<open>the flag after the wait or the lines\<close>

datatype flow = Continue | Break | Raise exn

definition flow_of :: "exn option \<Rightarrow> flow \<Rightarrow> flow" where
  "flow_of r f = (case r of Some e \<Rightarrow> Raise e | None \<Rightarrow> f)"

definition xchat_pass :: "xchat_settings \<Rightarrow> int \<Rightarrow> xchat_pass_input \<Rightarrow> int \<times> xchat_state \<Rightarrow> flow \<times> int \<times> xchat_state" where
  "xchat_pass cfg pid p bs =
     (let (backoff, st) = bs
      in if pi_stop p then (Break, backoff, st)
         else case xchat_preferred_tail_source (pi_os p) of
                Inl e \<Rightarrow> (Raise e, backoff, st)
              | Inr _ \<Rightarrow>
                  if \<not> pi_exists p
                  then let (r, st) = wait_polls cfg pid True (pi_start p + 5) (pi_polls p) st
                       in (flow_of r (if pi_stopped p then Break else Continue), backoff, st)
                  else if \<not> pi_starts p
                  then let (r, st) = sleep_with_heartbeat cfg pid (pi_start p) backoff (pi_polls p) st
                       in (flow_of r Continue, min (backoff * 2) (backoff_max cfg), st)
                  else let (left, backoff, st) = xchat_lines cfg pid (pi_spawn p) (pi_lines p) (backoff, st)
                       in if pi_stopped p then (Break, backoff, st)
                          else case read_stderr (snd (stop_tail (pi_tail p (left \<noteq> None)))) of
                                 Inl e \<Rightarrow> (Raise e, backoff, st)
                               | Inr _ \<Rightarrow>
                                   let (r, st) = sleep_with_heartbeat cfg pid (pi_start p) backoff (pi_polls p) st
                                   in (flow_of r Continue, min (backoff * 2) (backoff_max cfg), st))"

fun xchat_passes :: "xchat_settings \<Rightarrow> int \<Rightarrow> xchat_pass_input list \<Rightarrow> int \<times> xchat_state \<Rightarrow> flow \<times> int \<times> xchat_state" where
  "xchat_passes cfg pid [] bs = (Continue, bs)"
| "xchat_passes cfg pid (p # ps) bs =
     (case xchat_pass cfg pid p bs of
        (Continue, bs) \<Rightarrow> xchat_passes cfg pid ps bs
      | r \<Rightarrow> r)"

text \<open>
  \<open>worker_loop\<close>: a run that has left the loop has closed its file and ends with \<open>Break\<close>; \<open>Continue\<close> is a run still
  in its loop after the given passes.
\<close>

definition worker_loop ::
  "xchat_settings \<Rightarrow> int \<Rightarrow> clean_env \<Rightarrow> datetime \<Rightarrow> beat_input \<Rightarrow> xchat_pass_input list \<Rightarrow> beat_input \<Rightarrow>
   xchat_state \<Rightarrow> flow \<times> xchat_state" where
  "worker_loop cfg pid env now first passes final st =
     (case act_seq (clean_files cfg env now) (heartbeat cfg pid True first) st of
        (Some e, st) \<Rightarrow> (Raise e, st)
      | (None, st) \<Rightarrow>
          (case xchat_passes cfg pid passes (1, st) of
             (Break, _, st) \<Rightarrow>
               (let (r, st) = heartbeat cfg pid True final (close_output st) in (flow_of r Break, st))
           | (f, _, st) \<Rightarrow> (f, st)))"

end
