(* ===== verification/Legacy_Chat_Outcome.thy ===== *)
theory Legacy_Chat_Outcome
  imports Legacy_Chat_Worker
begin

section \<open>What the worker of \<open>40-chatlogger.py\<close> guarantees\<close>

text \<open>
  No line ends the worker, and within the retention period every chat line stays in the file of its day, in
  order, whether that file is compressed or not.
\<close>

subsection \<open>The worker survives\<close>

lemma act_seq_None: "fst (f s) = None \<Longrightarrow> act_seq f g s = g (snd (f s))"
  by (cases "f s") (simp add: act_seq_def)

lemma heartbeat_ok: "env_readable (bi_os b) \<Longrightarrow> fst (heartbeat cfg pid force b st) = None"
  using xchat_source_readable [of "bi_os b"] by (auto simp: heartbeat_def Let_def)

lemma wait_polls_ok:
  "list_all (\<lambda>p. env_readable (bi_os (po_beat p))) ps \<Longrightarrow> fst (wait_polls cfg pid watch deadline ps st) = None"
proof (induction ps arbitrary: st)
  case (Cons p ps)
  from Cons.prems have "fst (heartbeat cfg pid False (po_beat p) st') = None" for st' by (simp add: heartbeat_ok)
  with Cons show ?case by (simp add: act_seq_None)
qed simp

text \<open>A retention period that reaches back to a date of the calendar.\<close>

definition in_calendar :: "xchat_settings \<Rightarrow> datetime \<Rightarrow> bool" where
  "in_calendar cfg now \<longleftrightarrow>
     (\<exists>a. cutoff_ordinal (keep_plain_days cfg) now = Inr a) \<and> (\<exists>a. cutoff_ordinal (keep_total_days cfg) now = Inr a)"

lemma clean_files_ok: "in_calendar cfg now \<Longrightarrow> fst (clean_files cfg env now st) = None"
  by (auto simp: in_calendar_def clean_files_def xchat_cleanup_old_logs_def Let_def)

text \<open>What is asked of a line: nothing of its text, and nothing of the files it is written to.\<close>

definition line_readable :: "xchat_settings \<Rightarrow> line_input \<Rightarrow> bool" where
  "line_readable cfg i \<longleftrightarrow> env_readable (bi_os (li_beat i)) \<and> in_calendar cfg (li_clean_now i)"

lemma handle_line_ok: "fst (handle_line cfg i st) = None"
  by (simp add: handle_line_def act_try_def)

lemma xchat_line_ok:
  assumes "line_readable cfg i"
  shows "fst (xchat_line cfg pid t i bs) = None"
proof -
  have "fst (maybe_periodic_cleanup cfg i st) = None" for st
    using assms clean_files_ok [of cfg "li_clean_now i"]
    by (simp add: maybe_periodic_cleanup_def line_readable_def act_seq_None)
  with assms show ?thesis
    by (simp add: xchat_line_def case_prod_beta Let_def act_seq_None handle_line_ok heartbeat_ok line_readable_def)
qed

lemma xchat_lines_ok: "list_all (line_readable cfg) is \<Longrightarrow> fst (xchat_lines cfg pid t is bs) = None"
proof (induction "is" arbitrary: bs)
  case (Cons i "is")
  then have "fst (xchat_line cfg pid t i bs) = None" by (simp add: xchat_line_ok)
  then obtain bs' where "xchat_line cfg pid t i bs = (None, bs')" by (metis prod.collapse)
  with Cons show ?case by simp
qed simp

text \<open>
  Of a pass: readable runtime environments, lines as above, and a \<open>tail\<close> whose output has ended has ended itself.
  Nothing is said of a \<open>tail\<close> whose loop was left by an exception.
\<close>

definition pass_readable :: "xchat_settings \<Rightarrow> xchat_pass_input \<Rightarrow> bool" where
  "pass_readable cfg p \<longleftrightarrow> env_readable (pi_os p) \<and> list_all (\<lambda>q. env_readable (bi_os (po_beat q))) (pi_polls p) \<and>
     list_all (line_readable cfg) (pi_lines p) \<and> (te_ended (pi_tail p False) \<or> pi_stopped p)"

lemma xchat_pass_ok:
  assumes "pass_readable cfg p"
  shows "fst (xchat_pass cfg pid p bs) \<in> {Continue, Break}"
proof -
  from assms have polls: "fst (wait_polls cfg pid w dl (pi_polls p) st) = None" for w dl st
    by (simp add: pass_readable_def wait_polls_ok)
  then have sleep: "fst (sleep_with_heartbeat cfg pid t n (pi_polls p) st) = None" for t n st
    by (simp add: sleep_with_heartbeat_def)
  from assms obtain src where "xchat_preferred_tail_source (pi_os p) = Inr src"
    using xchat_source_readable(1) [of "pi_os p"] by (auto simp: pass_readable_def)
  moreover have "fst (xchat_lines cfg pid (pi_spawn p) (pi_lines p) bs) = None"
    using assms by (simp add: pass_readable_def xchat_lines_ok)
  ultimately show ?thesis
    using assms by (cases bs)
      (auto simp: pass_readable_def xchat_pass_def case_prod_beta Let_def flow_of_def polls sleep stop_tail_closed
        read_stderr_def)
qed

lemma xchat_passes_ok:
  "list_all (pass_readable cfg) ps \<Longrightarrow> fst (xchat_passes cfg pid ps bs) \<in> {Continue, Break}"
proof (induction ps arbitrary: bs)
  case (Cons p ps)
  obtain f bs' where p: "xchat_pass cfg pid p bs = (f, bs')" by (rule prod.exhaust)
  with xchat_pass_ok [of cfg p pid bs] Cons.prems have "f = Continue \<or> f = Break" by auto
  with p Cons.IH [of bs'] Cons.prems show ?case by auto
qed simp

text \<open>
  C27.  Nothing that a line does ends the worker: not its text, not a file that cannot be opened or written, not a
  roll to a new day that fails.  Such an exception stays in the handler of its line.  One that left the loop over the lines
  would end the worker when the \<open>tail\<close> is still alive (\<open>xchat_stopped_tail_raises\<close>), and nothing is assumed to exclude
  that.  What is assumed: the runtime environment files are UTF-8, the retention periods reach back to dates of the
  calendar at the start and at the hourly clean-ups, and a \<open>tail\<close> whose output has ended is seen to have ended, unless
  the worker is to stop.
\<close>

theorem xchat_worker_survives:
  assumes "in_calendar cfg now" "env_readable (bi_os first)" "env_readable (bi_os final)"
    and "list_all (pass_readable cfg) passes"
  shows "fst (worker_loop cfg pid env now first passes final st) \<in> {Continue, Break}"
proof -
  have "fst (act_seq (clean_files cfg env now) (heartbeat cfg pid True first) st) = None"
    using assms(1,2) by (simp add: act_seq_None clean_files_ok heartbeat_ok)
  then obtain st1 where st1: "act_seq (clean_files cfg env now) (heartbeat cfg pid True first) st = (None, st1)"
    by (metis prod.collapse)
  obtain f n st2 where l: "xchat_passes cfg pid passes (1, st1) = (f, n, st2)" by (metis prod.collapse)
  with xchat_passes_ok [OF assms(4), of pid "(1, st1)"] have "f = Continue \<or> f = Break" by auto
  moreover obtain st3 where "heartbeat cfg pid True final (close_output st2) = (None, st3)"
    using heartbeat_ok [OF assms(3)] by (metis prod.collapse)
  ultimately show ?thesis using st1 l by (auto simp: worker_loop_def flow_of_def)
qed

text \<open>
  A \<open>tail\<close> that is still alive when its lines end, or that has not been reaped yet, is stopped by \<open>_stop_tail\<close>, which closes
  its pipes; the worker then reads the closed pipe and ends with \<open>ValueError\<close>, whatever the lines were.
\<close>

theorem xchat_stopped_tail_raises:
  assumes "\<not> pi_stop p" "xchat_preferred_tail_source (pi_os p) = Inr src" "pi_exists p" "pi_starts p"
    and "\<not> te_ended (pi_tail p (fst (xchat_lines cfg pid (pi_spawn p) (pi_lines p) bs) \<noteq> None))" "\<not> pi_stopped p"
  shows "fst (xchat_pass cfg pid p bs) = Raise ValueError"
  using assms by (cases bs) (simp add: xchat_pass_def case_prod_beta Let_def stop_tail_closed read_stderr_def)

subsection \<open>The file of a day\<close>

definition text_of :: "blob option \<Rightarrow> blob option \<Rightarrow> string" where
  "text_of l g =
     (case l of
        Some (Raw c) \<Rightarrow> c
      | Some _ \<Rightarrow> []
      | None \<Rightarrow> (case g of Some (Gz (Raw c)) \<Rightarrow> c | _ \<Rightarrow> []))"

definition day_text :: "directory \<Rightarrow> date \<Rightarrow> string" where
  "day_text files d = text_of (dict_get files (log_name d)) (dict_get files (gz_of (log_name d)))"

text \<open>
  The state as seen for one day while the clock has reached the day with ordinal number \<open>c\<close>: daily files hold text,
  only past days have a compressed form, which on the day in question agrees with the daily file if that is
  still there, and the open file is the one of the remembered date.
\<close>

definition files_inv :: "date \<Rightarrow> int \<Rightarrow> directory \<Rightarrow> bool" where
  "files_inv d c files \<longleftrightarrow> distinct (map fst files) \<and>
     (\<forall>e. good_date e \<longrightarrow> (\<forall>b. dict_get files (log_name e) = Some b \<longrightarrow> (\<exists>t. b = Raw t)) \<and>
        (dict_get files (gz_of (log_name e)) \<noteq> None \<longrightarrow> ordinal e < c)) \<and>
     (\<forall>b x. dict_get files (log_name d) = Some b \<and> dict_get files (gz_of (log_name d)) = Some x \<longrightarrow> x = Gz b)"

definition output_inv :: "int \<Rightarrow> xchat_state \<Rightarrow> bool" where
  "output_inv c st \<longleftrightarrow> (\<forall>n. st_file st = Some n \<longrightarrow> n = log_name (st_date st) \<and> good_date (st_date st) \<and>
     (c \<le> ordinal (st_date st) \<longrightarrow> dict_get (st_files st) n \<noteq> None))"

definition log_inv :: "date \<Rightarrow> int \<Rightarrow> xchat_state \<Rightarrow> bool" where
  "log_inv d c st \<longleftrightarrow> files_inv d c (st_files st) \<and> output_inv c st"

text \<open>A clean-up that can run at this time, and loses nothing.\<close>

definition cleanable :: "xchat_settings \<Rightarrow> clean_env \<Rightarrow> datetime \<Rightarrow> bool" where
  "cleanable cfg env now \<longleftrightarrow> good_date (dt_date now) \<and>
     (\<exists>a. cutoff_ordinal (keep_plain_days cfg) now = Inr a) \<and> (\<exists>a. cutoff_ordinal (keep_total_days cfg) now = Inr a) \<and>
     (\<forall>n. gzip_result env n \<noteq> GzFailsHalfway)"

lemma plain_after_cases:
  assumes "plain_after env p q n files = (l, g)" "gzip_result env n \<noteq> GzFailsHalfway" "strptime_date (log_stamp n) = Some d"
  obtains "l = dict_get files n" "g = dict_get files (gz_of n)"
  | "l = None" "g = dict_get files (gz_of n)" "ordinal d < q \<or> ordinal d < p \<and> g \<noteq> None"
  | b where "dict_get files n = Some b" "dict_get files (gz_of n) = None" "l = None \<or> l = Some b" "g = Some (Gz b)"
      "ordinal d < p"
  using assms by (auto simp: plain_after_def Let_def split: if_splits option.splits gz_outcome.splits)

lemma cleanup_files_inv:
  assumes "xchat_cleanup_old_logs cfg env now files = Inr files'" "cleanable cfg env now"
    and "files_inv d c files" "c \<le> ordinal (dt_date now)" "1 \<le> keep_plain_days cfg" "1 \<le> keep_total_days cfg"
    and "good_date d" "ordinal (dt_date now) - keep_total_days cfg \<le> ordinal d"
  shows "files_inv d (ordinal (dt_date now)) files' \<and> day_text files' d = day_text files d \<and>
    (\<forall>e. good_date e \<and> ordinal (dt_date now) \<le> ordinal e \<longrightarrow> dict_get files' (log_name e) = dict_get files (log_name e))"
proof -
  let ?t = "ordinal (dt_date now)"
  let ?p = "?t - keep_plain_days cfg" and ?q = "?t - keep_total_days cfg"
  have dist: "distinct (map fst files)" using assms(3) by (simp add: files_inv_def)
  have gz: "gzip_result env n \<noteq> GzFailsHalfway" for n using assms(2) by (simp add: cleanable_def)
  have day: "(\<forall>b. dict_get files' (log_name e) = Some b \<longrightarrow> dict_get files (log_name e) = Some b) \<and>
      (dict_get files' (gz_of (log_name e)) \<noteq> None \<longrightarrow> ordinal e < ?t) \<and>
      (?t \<le> ordinal e \<longrightarrow> dict_get files' (log_name e) = dict_get files (log_name e))" if e: "good_date e" for e
  proof -
    obtain l g where lg: "plain_after env ?p ?q (log_name e) files = (l, g)" by (rule prod.exhaust)
    note day = cleanup_day [OF assms(1) dist e lg]
    have old: "dict_get files (gz_of (log_name e)) \<noteq> None \<longrightarrow> ordinal e < ?t"
      using assms(3,4) e by (force simp: files_inv_def)
    from lg gz strptime_log_name [OF e] show ?thesis
      by (rule plain_after_cases) (use day old assms(5,6) in auto)
  qed
  obtain l g where lg: "plain_after env ?p ?q (log_name d) files = (l, g)" by (rule prod.exhaust)
  have f': "dict_get files' (log_name d) = l" "dict_get files' (gz_of (log_name d)) = g"
    using cleanup_day [OF assms(1) dist assms(7) lg] assms(8) by auto
  have ok: "\<And>b x. dict_get files (log_name d) = Some b \<Longrightarrow> dict_get files (gz_of (log_name d)) = Some x \<Longrightarrow> x = Gz b"
    and raw: "\<And>b. dict_get files (log_name d) = Some b \<Longrightarrow> \<exists>t. b = Raw t"
    using assms(3,7) by (simp_all add: files_inv_def)
  have d: "(\<forall>b x. l = Some b \<and> g = Some x \<longrightarrow> x = Gz b) \<and> day_text files' d = day_text files d"
    using lg gz strptime_log_name [OF assms(7)]
  proof (rule plain_after_cases)
    assume "l = dict_get files (log_name d)" "g = dict_get files (gz_of (log_name d))"
    then show ?thesis using ok f' by (auto simp: day_text_def)
  next
    assume l: "l = None" "g = dict_get files (gz_of (log_name d))" "ordinal d < ?q \<or> ordinal d < ?p \<and> g \<noteq> None"
    then obtain x where x: "dict_get files (gz_of (log_name d)) = Some x" using assms(8) by auto
    with l f' ok raw show ?thesis by (cases "dict_get files (log_name d)") (force simp: day_text_def text_of_def)+
  next
    fix b assume b: "dict_get files (log_name d) = Some b" "dict_get files (gz_of (log_name d)) = None"
      "l = None \<or> l = Some b" "g = Some (Gz b)"
    with raw obtain t where "b = Raw t" by blast
    with b f' show ?thesis by (auto simp: day_text_def text_of_def)
  qed
  have "files_inv d ?t files'"
    unfolding files_inv_def using cleanup_distinct [OF assms(1) dist] day d f' assms(3) by (simp add: files_inv_def)
  with d day show ?thesis by blast
qed

lemma clean_files_inv:
  assumes "cleanable cfg env now" "log_inv d c st" "c \<le> ordinal (dt_date now)" "1 \<le> keep_plain_days cfg" "1 \<le> keep_total_days cfg"
    and "good_date d" "ordinal (dt_date now) - keep_total_days cfg \<le> ordinal d"
  obtains files' where "clean_files cfg env now st = (None, st\<lparr>st_files := files'\<rparr>)"
    "log_inv d (ordinal (dt_date now)) (st\<lparr>st_files := files'\<rparr>)" "day_text files' d = day_text (st_files st) d"
proof -
  from assms(1) obtain files' where f: "xchat_cleanup_old_logs cfg env now (st_files st) = Inr files'"
    by (auto simp: cleanable_def xchat_cleanup_old_logs_def Let_def)
  have i: "files_inv d c (st_files st)" using assms(2) by (simp add: log_inv_def)
  note g = cleanup_files_inv [OF f assms(1) i assms(3-7)]
  have "output_inv (ordinal (dt_date now)) (st\<lparr>st_files := files'\<rparr>)"
    using assms(2,3) g by (force simp: log_inv_def output_inv_def)
  with g that [of files'] f show thesis by (simp add: clean_files_def log_inv_def)
qed

subsection \<open>Writing\<close>

lemma log_name_not_gz [simp]: "log_name d \<noteq> gz_of (log_name e)" "gz_of (log_name e) \<noteq> log_name d"
  using chat_log_not_gz [of "log_name d" "log_name e"] log_stamp_name [of d] by auto

lemma files_inv_later: "files_inv d c files \<Longrightarrow> c \<le> t \<Longrightarrow> files_inv d t files"
  unfolding files_inv_def by (meson less_le_trans)

text \<open>Changing the daily file of the current day keeps the invariant; it has no compressed form.\<close>

lemma files_inv_today:
  assumes "files_inv d c files" "c \<le> ordinal today" "good_date today" "good_date d"
    and "distinct (map fst files')" "\<And>n. n \<noteq> log_name today \<Longrightarrow> dict_get files' n = dict_get files n"
    and "dict_get files' (log_name today) = Some (Raw t)"
  shows "files_inv d (ordinal today) files'" and "day_text files' d = (if d = today then t else day_text files d)"
proof -
  have g: "dict_get files' (gz_of (log_name e)) = dict_get files (gz_of (log_name e))" for e
    using assms(6) by simp
  have none: "dict_get files (gz_of (log_name today)) = None"
    using assms(1-3) by (force simp: files_inv_def)
  have l: "dict_get files' (log_name e) = (if e = today then Some (Raw t) else dict_get files (log_name e))"
    if "good_date e" for e
    using assms(6,7) log_name_inject [OF that assms(3)] by auto
  show "files_inv d (ordinal today) files'"
    using files_inv_later [OF assms(1,2)] assms(5) none l [OF assms(4)] by (auto simp: files_inv_def g l)
  show "day_text files' d = (if d = today then t else day_text files d)"
    using l [OF assms(4)] none by (auto simp: day_text_def g text_of_def)
qed

lemma today_raw:
  "files_inv d c files \<Longrightarrow> good_date e \<Longrightarrow> dict_get files (log_name e) \<noteq> None \<Longrightarrow>
   \<exists>t. dict_get files (log_name e) = Some (Raw t)"
  unfolding files_inv_def by (metis option.exhaust)

lemma today_text:
  assumes "files_inv d c files" "c \<le> ordinal today" "good_date today"
  shows "day_text files today = (case dict_get files (log_name today) of Some (Raw t) \<Rightarrow> t | _ \<Rightarrow> [])"
proof -
  have "dict_get files (gz_of (log_name today)) = None" using assms by (force simp: files_inv_def)
  then show ?thesis by (cases "dict_get files (log_name today)") (simp_all add: day_text_def text_of_def)
qed

lemma open_today_inv:
  assumes "wi_opens inp" "log_inv d c st" "st_date st = dt_date (wi_now inp)"
    and "c \<le> ordinal (dt_date (wi_now inp))" "good_date (dt_date (wi_now inp))" "good_date d"
  obtains st' where "open_today inp st = (None, st')" "log_inv d (ordinal (dt_date (wi_now inp))) st'"
    "st_file st' = Some (log_name (dt_date (wi_now inp)))" "st_date st' = st_date st"
    "\<exists>t. dict_get (st_files st') (log_name (dt_date (wi_now inp))) = Some (Raw t)"
    "day_text (st_files st') d = day_text (st_files st) d"
proof -
  let ?d = "dt_date (wi_now inp)"
  let ?n = "log_name ?d" and ?t = "ordinal ?d"
  have i: "files_inv d c (st_files st)" "output_inv c st" using assms(2) by (simp_all add: log_inv_def)
  show thesis
  proof (cases "st_file st = Some ?n")
    case True
    with i(2) assms(3,4) have ex: "dict_get (st_files st) ?n \<noteq> None" by (auto simp: output_inv_def)
    have "output_inv ?t st" using i(2) ex True assms(3,4) by (auto simp: output_inv_def)
    with files_inv_later [OF i(1) assms(4)] have "log_inv d ?t st" by (simp add: log_inv_def)
    moreover have "open_today inp st = (None, st)" using True by (simp add: open_today_def)
    ultimately show thesis using that [of st] True today_raw [OF i(1) assms(5) ex] by simp
  next
    case False
    let ?files = "dict_setdefault ?n (Raw []) (st_files st)"
    let ?st = "xchat_update_latest_symlink (wi_link inp) ?n ((close_output st)\<lparr>st_files := ?files, st_file := Some ?n\<rparr>)"
    have o: "open_today inp st = (None, ?st)"
      using False assms(1) by (simp add: open_today_def Let_def close_output_def)
    have fields: "st_files ?st = ?files" "st_file ?st = Some ?n" "st_date ?st = st_date st"
      by (simp_all add: xchat_update_latest_symlink_def close_output_def split: link_outcome.splits)
    obtain t where t: "dict_get ?files ?n = Some (Raw t)"
      using today_raw [OF i(1) assms(5)] by (cases "dict_get (st_files st) ?n") auto
    have dist: "distinct (map fst ?files)"
      using i(1) by (simp add: dict_setdefault_def distinct_dict_set files_inv_def split: option.splits)
    have other: "dict_get ?files n = dict_get (st_files st) n" if "n \<noteq> ?n" for n using that by simp
    note new = files_inv_today [OF i(1) assms(4-6) dist other t]
    have "day_text (st_files st) ?d = t"
      using today_text [OF i(1) assms(4,5)] t by (cases "dict_get (st_files st) ?n") simp_all
    then have same: "day_text (st_files ?st) d = day_text (st_files st) d" unfolding fields(1) using new(2) by simp
    have "output_inv ?t ?st" unfolding output_inv_def fields using t assms(3,5) by simp
    then have inv: "log_inv d ?t ?st" unfolding log_inv_def using new(1) by (simp only: fields simp_thms)
    have "\<exists>t. dict_get (st_files ?st) ?n = Some (Raw t)" unfolding fields(1) using t by blast
    then show thesis by (rule that [OF o inv fields(2,3) _ same])
  qed
qed

definition write_ok :: "xchat_settings \<Rightarrow> write_input \<Rightarrow> bool" where
  "write_ok cfg inp \<longleftrightarrow> wi_opens inp \<and> wi_writes inp \<and> cleanable cfg (wi_clean inp) (wi_now inp)"

lemma roll_inv:
  assumes "cleanable cfg (wi_clean inp) (wi_now inp)" "log_inv d c st" "c \<le> ordinal (dt_date (wi_now inp))"
    and "1 \<le> keep_plain_days cfg" "1 \<le> keep_total_days cfg" "good_date d"
    and "ordinal (dt_date (wi_now inp)) - keep_total_days cfg \<le> ordinal d"
  obtains st' c' where "maybe_roll_date cfg inp st = (None, st')" "log_inv d c' st'" "st_date st' = dt_date (wi_now inp)"
    "c' \<le> ordinal (dt_date (wi_now inp))" "day_text (st_files st') d = day_text (st_files st) d"
proof (cases "dt_date (wi_now inp) = st_date st")
  case True
  then have "maybe_roll_date cfg inp st = (None, st)" by (simp add: maybe_roll_date_def)
  then show thesis by (rule that [OF _ assms(2) True [symmetric] assms(3) refl])
next
  case False
  let ?st = "close_output (st\<lparr>st_date := dt_date (wi_now inp)\<rparr>)"
  have "log_inv d c ?st" using assms(2) by (simp add: log_inv_def output_inv_def close_output_def)
  from clean_files_inv [OF assms(1) this assms(3-7)] obtain files' where
    f: "clean_files cfg (wi_clean inp) (wi_now inp) ?st = (None, ?st\<lparr>st_files := files'\<rparr>)"
    "log_inv d (ordinal (dt_date (wi_now inp))) (?st\<lparr>st_files := files'\<rparr>)"
    "day_text files' d = day_text (st_files ?st) d" by blast
  have r: "maybe_roll_date cfg inp st = (None, ?st\<lparr>st_files := files', st_cleanup := wi_mono inp\<rparr>)"
    using False f(1) by (simp add: maybe_roll_date_def act_seq_def)
  show thesis
    by (rule that [OF r]) (use f(2,3) in \<open>auto simp: log_inv_def output_inv_def close_output_def\<close>)
qed

lemma write_chat_inv:
  assumes "write_ok cfg inp" "log_inv d c st" "c \<le> ordinal (dt_date (wi_now inp))"
    and "1 \<le> keep_plain_days cfg" "1 \<le> keep_total_days cfg" "good_date d"
    and "ordinal (dt_date (wi_now inp)) - keep_total_days cfg \<le> ordinal d"
  obtains st' where "write_chat cfg inp e st = (None, st')" "log_inv d (ordinal (dt_date (wi_now inp))) st'"
    "day_text (st_files st') d =
      day_text (st_files st) d @ (if d = dt_date (wi_now inp) then format_chat_entry e @ [CHR 0x0A] else [])"
proof -
  let ?d = "dt_date (wi_now inp)"
  let ?n = "log_name ?d" and ?line = "format_chat_entry e @ [CHR 0x0A]"
  have ok: "wi_opens inp" "wi_writes inp" "cleanable cfg (wi_clean inp) (wi_now inp)" using assms(1) by (simp_all add: write_ok_def)
  then have good: "good_date ?d" by (simp add: cleanable_def)
  obtain st1 c1 where s1: "maybe_roll_date cfg inp st = (None, st1)" "log_inv d c1 st1" "st_date st1 = ?d"
    "c1 \<le> ordinal ?d" "day_text (st_files st1) d = day_text (st_files st) d"
    by (rule roll_inv [OF ok(3) assms(2-7)])
  obtain st2 where s2: "open_today inp st1 = (None, st2)" "log_inv d (ordinal ?d) st2" "st_file st2 = Some ?n"
    "st_date st2 = st_date st1" "\<exists>t. dict_get (st_files st2) ?n = Some (Raw t)"
    "day_text (st_files st2) d = day_text (st_files st1) d"
    by (rule open_today_inv [OF ok(1) s1(2-4) good assms(6)])
  from s2(5) obtain t where t: "dict_get (st_files st2) ?n = Some (Raw t)" by blast
  let ?files = "dict_set ?n (Raw (t @ ?line)) (st_files st2)"
  have a: "append_blob ?n ?line (st_files st2) = ?files" by (simp add: append_blob_def t)
  define st3 where "st3 = st2\<lparr>st_files := ?files, st_chats := st_chats st2 + 1,
      st_last_at := Some (stamp_text (wi_now inp) @ '' '' @ wi_tz inp), st_last := Some (format_chat_entry e)\<rparr>"
  have w: "write_line inp (format_chat_entry e) st2 = (None, st3)"
    using s2(3) ok(2) a by (simp add: write_line_def st3_def)
  have i: "files_inv d (ordinal ?d) (st_files st2)" using s2(2) by (simp add: log_inv_def)
  have dist: "distinct (map fst ?files)" using i by (simp add: distinct_dict_set files_inv_def)
  have other: "dict_get ?files n = dict_get (st_files st2) n" if "n \<noteq> ?n" for n using that by simp
  have this_file: "dict_get ?files ?n = Some (Raw (t @ ?line))" by simp
  note new = files_inv_today [OF i order_refl good assms(6) dist other this_file]
  have "log_inv d (ordinal ?d) st3"
    using new(1) s1(3) s2(3,4) good by (simp add: log_inv_def output_inv_def st3_def)
  moreover have "day_text (st_files st3) d = day_text (st_files st) d @ (if d = ?d then ?line else [])"
    using new(2) today_text [OF i order_refl good] t s1(5) s2(6) by (auto simp: st3_def)
  moreover have "write_chat cfg inp e st = (None, st3)" using s1(1) s2(1) w by (simp add: write_chat_def act_seq_def)
  ultimately show thesis by (rule that [rotated])
qed

subsection \<open>Lines\<close>

definition line_ok :: "xchat_settings \<Rightarrow> line_input \<Rightarrow> bool" where
  "line_ok cfg i \<longleftrightarrow> \<not> li_stop i \<and> env_readable (bi_os (li_beat i)) \<and> write_ok cfg (li_write i) \<and>
     cleanable cfg (li_clean i) (li_clean_now i)"

definition write_day :: "line_input \<Rightarrow> date" where
  "write_day i = dt_date (wi_now (li_write i))"

definition clean_day :: "line_input \<Rightarrow> date" where
  "clean_day i = dt_date (li_clean_now i)"

text \<open>The clock does not go back to an earlier day.\<close>

fun in_order :: "int \<Rightarrow> line_input list \<Rightarrow> bool" where
  "in_order c [] \<longleftrightarrow> True"
| "in_order c (i # is) \<longleftrightarrow> c \<le> ordinal (write_day i) \<and> ordinal (write_day i) \<le> ordinal (clean_day i) \<and>
     in_order (ordinal (clean_day i)) is"

text \<open>What the lines add to the file of a day.\<close>

definition day_line :: "date \<Rightarrow> line_input \<Rightarrow> string" where
  "day_line d i =
     (case parse_chat_line (li_now i) (li_tz i) (li_raw i) of
        Some e \<Rightarrow> if d = write_day i then format_chat_entry e @ [CHR 0x0A] else []
      | None \<Rightarrow> [])"

lemma log_inv_fields:
  "log_inv d c st \<Longrightarrow> st_files st' = st_files st \<Longrightarrow> st_file st' = st_file st \<Longrightarrow> st_date st' = st_date st \<Longrightarrow> log_inv d c st'"
  by (simp add: log_inv_def output_inv_def)

lemma log_inv_later: "log_inv d c st \<Longrightarrow> c \<le> t \<Longrightarrow> log_inv d t st"
  by (auto simp: log_inv_def output_inv_def files_inv_later)

lemma heartbeat_fields:
  "st_files (snd (heartbeat cfg pid force b st)) = st_files st"
  "st_file (snd (heartbeat cfg pid force b st)) = st_file st"
  "st_date (snd (heartbeat cfg pid force b st)) = st_date st"
  by (simp_all add: heartbeat_def Let_def write_state_def split: sum.splits prod.splits)

lemma handle_line_inv:
  assumes "write_ok cfg (li_write i)" "log_inv d c st" "c \<le> ordinal (write_day i)"
    and "1 \<le> keep_plain_days cfg" "1 \<le> keep_total_days cfg" "good_date d"
    and "ordinal (write_day i) - keep_total_days cfg \<le> ordinal d"
  shows "log_inv d (ordinal (write_day i)) (snd (handle_line cfg i st)) \<and>
    day_text (st_files (snd (handle_line cfg i st))) d = day_text (st_files st) d @ day_line d i"
proof (cases "parse_chat_line (li_now i) (li_tz i) (li_raw i)")
  case None
  with log_inv_later [OF assms(2,3)] show ?thesis by (simp add: handle_line_def act_try_def day_line_def)
next
  case (Some e)
  obtain st' where "write_chat cfg (li_write i) e st = (None, st')"
    "log_inv d (ordinal (write_day i)) st'"
    "day_text (st_files st') d = day_text (st_files st) d @ (if d = write_day i then format_chat_entry e @ [CHR 0x0A] else [])"
    by (rule write_chat_inv [OF assms(1,2) assms(3) [unfolded write_day_def] assms(4-6) assms(7) [unfolded write_day_def],
          of e, folded write_day_def])
  with Some show ?thesis by (simp add: handle_line_def act_try_def day_line_def)
qed

lemma periodic_inv:
  assumes "cleanable cfg (li_clean i) (li_clean_now i)" "log_inv d c st" "c \<le> ordinal (clean_day i)"
    and "1 \<le> keep_plain_days cfg" "1 \<le> keep_total_days cfg" "good_date d"
    and "ordinal (clean_day i) - keep_total_days cfg \<le> ordinal d"
  shows "\<exists>st'. maybe_periodic_cleanup cfg i st = (None, st') \<and> log_inv d (ordinal (clean_day i)) st' \<and>
    day_text (st_files st') d = day_text (st_files st) d"
proof (cases "li_check i - st_cleanup st < cleanup_interval_seconds")
  case True
  with log_inv_later [OF assms(2,3)] show ?thesis by (simp add: maybe_periodic_cleanup_def)
next
  case False
  obtain files' where f: "clean_files cfg (li_clean i) (li_clean_now i) st = (None, st\<lparr>st_files := files'\<rparr>)"
    "log_inv d (ordinal (clean_day i)) (st\<lparr>st_files := files'\<rparr>)" "day_text files' d = day_text (st_files st) d"
    by (rule clean_files_inv [OF assms(1,2) assms(3) [unfolded clean_day_def] assms(4-6) assms(7) [unfolded clean_day_def],
          folded clean_day_def])
  have "maybe_periodic_cleanup cfg i st = (None, st\<lparr>st_files := files', st_cleanup := li_clean_done i\<rparr>)"
    using False f(1) by (simp add: maybe_periodic_cleanup_def act_seq_def)
  moreover have "log_inv d (ordinal (clean_day i)) (st\<lparr>st_files := files', st_cleanup := li_clean_done i\<rparr>)"
    using f(2) by (rule log_inv_fields) simp_all
  ultimately show ?thesis using f(3) by simp
qed

lemma xchat_line_inv:
  assumes "line_ok cfg i" "log_inv d c st" "c \<le> ordinal (write_day i)" "ordinal (write_day i) \<le> ordinal (clean_day i)"
    and "1 \<le> keep_plain_days cfg" "1 \<le> keep_total_days cfg" "good_date d"
    and "ordinal (clean_day i) - keep_total_days cfg \<le> ordinal d"
  obtains b' st' where "xchat_line cfg pid spawn_time i (b, st) = (None, b', st')" "log_inv d (ordinal (clean_day i)) st'"
    "day_text (st_files st') d = day_text (st_files st) d @ day_line d i"
proof -
  have ok: "write_ok cfg (li_write i)" "env_readable (bi_os (li_beat i))" "cleanable cfg (li_clean i) (li_clean_now i)"
    using assms(1) by (simp_all add: line_ok_def)
  have i0: "log_inv d c (st\<lparr>st_lines := st_lines st + 1\<rparr>)" using assms(2) by (rule log_inv_fields) simp_all
  have r: "ordinal (write_day i) - keep_total_days cfg \<le> ordinal d" using assms(4,8) by simp
  define st1 where "st1 = snd (handle_line cfg i (st\<lparr>st_lines := st_lines st + 1\<rparr>))"
  have i1: "log_inv d (ordinal (write_day i)) st1" "day_text (st_files st1) d = day_text (st_files st) d @ day_line d i"
    using handle_line_inv [OF ok(1) i0 assms(3,5-7) r] by (simp_all add: st1_def)
  define st2 where "st2 = snd (heartbeat cfg pid False (li_beat i) st1)"
  have i2: "log_inv d (ordinal (write_day i)) st2"
    by (rule log_inv_fields [OF i1(1)]) (simp_all add: st2_def heartbeat_fields)
  obtain st3 where st3: "maybe_periodic_cleanup cfg i st2 = (None, st3)" "log_inv d (ordinal (clean_day i)) st3"
    "day_text (st_files st3) d = day_text (st_files st2) d"
    using periodic_inv [OF ok(3) i2 assms(4-8)] by blast
  have "act_seq (heartbeat cfg pid False (li_beat i)) (maybe_periodic_cleanup cfg i) st1 = (None, st3)"
    using heartbeat_ok [OF ok(2)] st3(1) by (simp add: act_seq_None st2_def)
  then have "xchat_line cfg pid spawn_time i (b, st) = (None, if 5 < li_after i - spawn_time then 1 else b, st3)"
    by (simp add: xchat_line_def act_seq_None [of "handle_line cfg i", OF handle_line_ok] st1_def)
  moreover have "day_text (st_files st3) d = day_text (st_files st) d @ day_line d i"
    using st3(3) i1(2) by (simp add: st2_def heartbeat_fields)
  ultimately show thesis using that st3(2) by blast
qed

text \<open>
  C23.  No chat is lost within the retention period.  While the clock does not go back and no system call fails
  (except for the removal and compression of old files, which may fail without leaving a truncated one), the
  text kept for a day, in the daily file or in its compressed form, is what it was followed by exactly the
  entries of the chat lines of that day, in order, however many clean-ups run in between.
\<close>

theorem xchat_keeps_days:
  assumes "list_all (line_ok cfg) is" "in_order c is" "log_inv d c st"
    and "1 \<le> keep_plain_days cfg" "1 \<le> keep_total_days cfg" "valid_date d" "1000 \<le> d_year d"
    and "\<forall>i \<in> set is. ordinal (clean_day i) - keep_total_days cfg \<le> ordinal d"
  shows "day_text (st_files (snd (snd (xchat_lines cfg pid spawn_time is (b, st))))) d =
    day_text (st_files st) d @ concat (map (day_line d) is)"
  using assms(1-3,8)
proof (induction "is" arbitrary: c b st)
  case (Cons i "is")
  have good: "good_date d" using assms(6,7) by (simp add: good_date_def)
  have i: "line_ok cfg i" "c \<le> ordinal (write_day i)" "ordinal (write_day i) \<le> ordinal (clean_day i)"
    "ordinal (clean_day i) - keep_total_days cfg \<le> ordinal d" using Cons.prems by simp_all
  obtain b' st' where s: "xchat_line cfg pid spawn_time i (b, st) = (None, b', st')" "log_inv d (ordinal (clean_day i)) st'"
    "day_text (st_files st') d = day_text (st_files st) d @ day_line d i"
    by (rule xchat_line_inv [OF i(1) Cons.prems(3) i(2,3) assms(4,5) good i(4)])
  moreover have "\<not> li_stop i" using i(1) by (simp add: line_ok_def)
  ultimately show ?case using Cons.IH [OF _ _ s(2), of b'] Cons.prems by simp
qed simp

subsection \<open>Sample runs\<close>

definition bare_os :: os_env where
  "bare_os = \<lparr>environ = (\<lambda>_. None), file_at = (\<lambda>_. Missing), json_loads = (\<lambda>_. Inl JSONDecodeError)\<rparr>"

definition sample_beat :: "date \<Rightarrow> beat_input" where
  "sample_beat d = \<lparr>bi_mono = 1000, bi_now = at_noon d, bi_tz = ''UTC'', bi_os = bare_os, bi_saves = True\<rparr>"

text \<open>A line read at noon of a day, an hour or more after the last clean-up.\<close>

definition sample_chat_line :: "string \<Rightarrow> date \<Rightarrow> line_input" where
  "sample_chat_line raw d =
     \<lparr>li_stop = False, li_raw = raw, li_now = at_noon d, li_tz = ''UTC'',
      li_write = \<lparr>wi_now = at_noon d, wi_tz = ''UTC'', wi_mono = 0, wi_clean = clean_ok, wi_opens = True,
                  wi_link = LinkOk, wi_writes = True\<rparr>,
      li_beat = sample_beat d, li_check = 5000, li_clean_now = at_noon d, li_clean = clean_ok, li_clean_done = 0,
      li_after = 0\<rparr>"

lemma february: "ordinal (Date 2024 2 1) = 738917" "ordinal (Date 2024 1 8) = 738893"
  by code_simp+

lemma sample_chat_line_ok:
  "d = Date 2024 1 8 \<or> d = Date 2024 2 1 \<Longrightarrow> line_ok shipped_settings (sample_chat_line raw d)"
  by (auto simp: line_ok_def sample_chat_line_def sample_beat_def bare_os_def env_readable_def write_ok_def
      cleanable_def at_noon_def clean_ok_def good_date_def days_in_month_def cutoff_ordinal_def february
      shipped_settings_def simp del: ordinal.simps)

theorem xchat_keeps_days_witness:
  "day_text (st_files (snd (snd (xchat_lines shipped_settings 1 0
       [sample_chat_line ''say: Bob: hi'' (Date 2024 1 8), sample_chat_line ''say: Al: yo'' (Date 2024 2 1)]
       (1, xchat_init 0 (Date 2024 1 8) []))))) (Date 2024 1 8) =
     ''[2024-01-08 12:00:00 UTC] [PUBLIC] Bob: hi'' @ [CHR 0x0A]"
proof -
  let ?is = "[sample_chat_line ''say: Bob: hi'' (Date 2024 1 8), sample_chat_line ''say: Al: yo'' (Date 2024 2 1)]"
  have i: "log_inv (Date 2024 1 8) (ordinal (Date 2024 1 8)) (xchat_init 0 (Date 2024 1 8) [])"
    by (simp add: log_inv_def files_inv_def output_inv_def xchat_init_def)
  have ok: "list_all (line_ok shipped_settings) ?is" by (simp add: sample_chat_line_ok)
  have days: "write_day (sample_chat_line raw d) = d" "clean_day (sample_chat_line raw d) = d" for raw d
    by (simp_all add: write_day_def clean_day_def sample_chat_line_def at_noon_def)
  have p: "concat (map (day_line (Date 2024 1 8)) ?is) = ''[2024-01-08 12:00:00 UTC] [PUBLIC] Bob: hi'' @ [CHR 0x0A]"
    by code_simp
  have e: "day_text (st_files (xchat_init 0 (Date 2024 1 8) [])) (Date 2024 1 8) = []"
    by (simp add: day_text_def text_of_def xchat_init_def)
  have o: "in_order (ordinal (Date 2024 1 8)) ?is" by (simp add: days february del: ordinal.simps)
  have r: "\<forall>i \<in> set ?is. ordinal (clean_day i) - keep_total_days shipped_settings \<le> ordinal (Date 2024 1 8)"
    by (simp add: days february shipped_settings_def del: ordinal.simps)
  from xchat_keeps_days [OF ok o i _ _ _ _ r, of 1 0 1] show ?thesis
    unfolding p e by (simp add: shipped_settings_def days_in_month_def)
qed

definition ended_tail :: tail_env where
  "ended_tail = \<lparr>te_ended = True, te_terminate = True, te_first_wait = True, te_kill = True\<rparr>"

text \<open>A \<open>tail\<close> that ends with its output and is alive when an exception leaves the loop over its lines.\<close>

definition sample_tail :: "bool \<Rightarrow> tail_env" where
  "sample_tail left = ended_tail\<lparr>te_ended := \<not> left\<rparr>"

text \<open>A chat line whose file cannot be opened.\<close>

definition unopened_line :: line_input where
  "unopened_line = (let i = sample_chat_line ''say: Bob: hi'' (Date 2024 1 8) in i\<lparr>li_write := (li_write i)\<lparr>wi_opens := False\<rparr>\<rparr>)"

theorem xchat_worker_survives_witness:
  "fst (worker_loop shipped_settings 1 clean_ok (at_noon (Date 2024 1 8)) (sample_beat (Date 2024 1 8))
     [\<lparr>pi_stop = False, pi_os = bare_os, pi_exists = True, pi_start = 0, pi_polls = [], pi_starts = True, pi_spawn = 0,
       pi_lines = [unopened_line], pi_tail = sample_tail, pi_stopped = False\<rparr>]
     (sample_beat (Date 2024 1 8)) (xchat_init 0 (Date 2024 1 8) [])) \<in> {Continue, Break}"
  by (rule xchat_worker_survives)
     (simp_all add: cutoff_ordinal_def at_noon_def shipped_settings_def february sample_beat_def bare_os_def
        env_readable_def pass_readable_def line_readable_def in_calendar_def unopened_line_def sample_chat_line_def sample_tail_def ended_tail_def
        del: ordinal.simps)
end
