(* ===== verification/Legacy_Chat_Invariant.thy ===== *)
theory Legacy_Chat_Invariant
  imports Legacy_Chat_Outcome
begin

section \<open>The state of the worker of \<open>40-chatlogger.py\<close>\<close>

text \<open>
  The invariant of \<open>WorkerRuntime\<close>: every operation keeps it, also when it raises, and so does every pass of the
  loop, whatever the system answers.
\<close>

definition state_inv :: "xchat_state \<Rightarrow> bool" where
  "state_inv st \<longleftrightarrow> (\<forall>n. st_file st = Some n \<longrightarrow> n = log_name (st_date st)) \<and>
     0 \<le> st_chats st \<and> st_chats st \<le> st_lines st \<and> distinct (map fst (st_files st))"

text \<open>An action that keeps this, whether it raises or not.\<close>

definition keeps :: "xchat_state act \<Rightarrow> bool" where
  "keeps f \<longleftrightarrow> (\<forall>st. state_inv st \<longrightarrow> state_inv (snd (f st)))"

lemma keepsD: "keeps f \<Longrightarrow> f st = (r, st') \<Longrightarrow> state_inv st \<Longrightarrow> state_inv st'"
  by (metis keeps_def snd_conv)

lemma keeps_seq: "keeps f \<Longrightarrow> keeps g \<Longrightarrow> keeps (act_seq f g)"
  by (simp add: keeps_def act_seq_def split: prod.split option.split) (metis snd_conv)

lemma keeps_clean: "keeps (clean_files cfg env now)"
  by (auto simp: keeps_def clean_files_def state_inv_def split: sum.split dest: cleanup_distinct)

lemma keeps_stamp: "keeps (\<lambda>st. (None, st\<lparr>st_cleanup := t\<rparr>))"
  by (simp add: keeps_def state_inv_def)

lemma keeps_heartbeat: "keeps (heartbeat cfg pid force b)"
  by (simp add: keeps_def state_inv_def heartbeat_def write_state_def Let_def split: sum.split prod.split)

lemma keeps_periodic: "keeps (maybe_periodic_cleanup cfg i)"
proof -
  have "keeps (act_seq (clean_files cfg (li_clean i) (li_clean_now i)) (\<lambda>st. (None, st\<lparr>st_cleanup := li_clean_done i\<rparr>)))"
    by (rule keeps_seq [OF keeps_clean keeps_stamp])
  then show ?thesis by (simp add: keeps_def maybe_periodic_cleanup_def)
qed

lemma keeps_polls: "keeps (wait_polls cfg pid watch deadline ps)"
proof (induction ps)
  case (Cons p ps)
  from keeps_seq [OF keeps_heartbeat Cons.IH, of cfg pid False "po_beat p"] show ?case by (simp add: keeps_def)
qed (simp add: keeps_def)

lemma state_inv_close: "state_inv st \<Longrightarrow> state_inv (close_output (st\<lparr>st_date := d\<rparr>))"
  by (simp add: state_inv_def close_output_def)

lemma keeps_roll: "keeps (maybe_roll_date cfg inp)"
proof -
  have "keeps (act_seq (clean_files cfg (wi_clean inp) (wi_now inp)) (\<lambda>st. (None, st\<lparr>st_cleanup := wi_mono inp\<rparr>)))"
    by (rule keeps_seq [OF keeps_clean keeps_stamp])
  then show ?thesis using state_inv_close by (simp add: keeps_def maybe_roll_date_def)
qed

lemma maybe_roll_date_day: "maybe_roll_date cfg inp st = (None, st') \<Longrightarrow> st_date st' = dt_date (wi_now inp)"
  by (auto simp: maybe_roll_date_def act_seq_def clean_files_def close_output_def split: if_splits sum.splits)

lemma open_today_state:
  assumes "state_inv st" "st_date st = dt_date (wi_now inp)" "open_today inp st = (r, st')"
  shows "state_inv st' \<and> st_chats st' = st_chats st \<and> st_lines st' = st_lines st"
  using assms
  by (auto simp: open_today_def Let_def close_output_def state_inv_def xchat_update_latest_symlink_def
      dict_setdefault_def distinct_dict_set split: if_splits link_outcome.splits option.splits)

lemma clean_counts:
  "st_chats (snd (clean_files cfg env now st)) = st_chats st \<and> st_lines (snd (clean_files cfg env now st)) = st_lines st"
  by (simp add: clean_files_def split: sum.split)

lemma roll_counts:
  assumes "maybe_roll_date cfg inp st = (r, st')"
  shows "st_chats st' = st_chats st \<and> st_lines st' = st_lines st"
proof (cases "dt_date (wi_now inp) = st_date st")
  case True
  with assms show ?thesis by (simp add: maybe_roll_date_def)
next
  case False
  obtain r1 st1 where c: "clean_files cfg (wi_clean inp) (wi_now inp) (close_output (st\<lparr>st_date := dt_date (wi_now inp)\<rparr>)) = (r1, st1)"
    by (rule prod.exhaust)
  with clean_counts [of cfg "wi_clean inp" "wi_now inp" "close_output (st\<lparr>st_date := dt_date (wi_now inp)\<rparr>)"]
  have "st_chats st1 = st_chats st \<and> st_lines st1 = st_lines st" by (simp add: close_output_def)
  with assms False c show ?thesis by (cases r1) (auto simp: maybe_roll_date_def act_seq_def)
qed

lemma write_line_state:
  assumes "state_inv st" "st_chats st < st_lines st"
  shows "state_inv (snd (write_line inp line st))"
  using assms
  by (simp add: write_line_def state_inv_def append_blob_def distinct_dict_set split: option.split blob.split)

lemma write_chat_state:
  assumes "state_inv st" "st_chats st < st_lines st"
  shows "state_inv (snd (write_chat cfg inp e st))"
proof -
  obtain r1 st1 where s1: "maybe_roll_date cfg inp st = (r1, st1)" by (rule prod.exhaust)
  note i1 = keepsD [OF keeps_roll s1 assms(1)] and n1 = roll_counts [OF s1]
  show ?thesis
  proof (cases r1)
    case (Some x)
    with s1 i1 show ?thesis by (simp add: write_chat_def act_seq_def)
  next
    case None
    obtain r2 st2 where s2: "open_today inp st1 = (r2, st2)" by (rule prod.exhaust)
    note i2 = open_today_state [OF i1 maybe_roll_date_day [OF s1 [unfolded None]] s2]
    with n1 assms(2) have "state_inv (snd (write_line inp (format_chat_entry e) st2))" by (intro write_line_state) auto
    with s1 s2 None i2 show ?thesis by (cases r2) (simp_all add: write_chat_def act_seq_def)
  qed
qed

lemma handle_line_state:
  "state_inv st \<Longrightarrow> state_inv (snd (handle_line cfg i (st\<lparr>st_lines := st_lines st + 1\<rparr>)))"
  by (auto simp: handle_line_def act_try_def split: option.split intro!: write_chat_state) (simp_all add: state_inv_def)

lemma xchat_line_state:
  assumes "xchat_line cfg pid t i (b, st) = (r, b', st')" "state_inv st" "1 \<le> b" "b \<le> backoff_max cfg"
  shows "state_inv st' \<and> 1 \<le> b' \<and> b' \<le> backoff_max cfg"
proof -
  define st1 where "st1 = snd (handle_line cfg i (st\<lparr>st_lines := st_lines st + 1\<rparr>))"
  obtain r2 st2 where s: "act_seq (heartbeat cfg pid False (li_beat i)) (maybe_periodic_cleanup cfg i) st1 = (r2, st2)"
    by (rule prod.exhaust)
  have "state_inv st2"
    by (rule keepsD [OF keeps_seq [OF keeps_heartbeat keeps_periodic] s])
       (simp add: st1_def handle_line_state assms(2))
  with assms s show ?thesis
    by (auto simp: xchat_line_def act_seq_None [of "handle_line cfg i", OF handle_line_ok] st1_def [symmetric] split: if_splits)
qed

lemma xchat_lines_state:
  "xchat_lines cfg pid t is (b, st) = (left, b', st') \<Longrightarrow> state_inv st \<Longrightarrow> 1 \<le> b \<Longrightarrow> b \<le> backoff_max cfg \<Longrightarrow>
   state_inv st' \<and> 1 \<le> b' \<and> b' \<le> backoff_max cfg"
proof (induction "is" arbitrary: b st)
  case (Cons i "is")
  obtain r b1 st1 where l: "xchat_line cfg pid t i (b, st) = (r, b1, st1)" by (metis prod.collapse)
  note s = xchat_line_state [OF l Cons.prems(2-4)]
  show ?case
  proof (cases "li_stop i \<or> r \<noteq> None")
    case True
    with Cons.prems l s show ?thesis by (cases r) (auto split: if_splits)
  next
    case False
    with Cons.prems l have "xchat_lines cfg pid t is (b1, st1) = (left, b', st')" by simp
    with Cons.IH s show ?thesis by blast
  qed
qed simp

lemma backoff_doubles: "1 \<le> (b :: int) \<Longrightarrow> 1 \<le> m \<Longrightarrow> 1 \<le> min (b * 2) m \<and> min (b * 2) m \<le> m"
  by simp

lemma xchat_pass_state:
  assumes "xchat_pass cfg pid p (b, st) = (f, b', st')" "state_inv st" "1 \<le> b" "b \<le> backoff_max cfg"
  shows "state_inv st' \<and> 1 \<le> b' \<and> b' \<le> backoff_max cfg"
proof -
  have polls: "state_inv (snd (wait_polls cfg pid w d ps s))" if "state_inv s" for w d ps s
    using that keeps_polls unfolding keeps_def by blast
  obtain left b1 st1 where l: "xchat_lines cfg pid (pi_spawn p) (pi_lines p) (b, st) = (left, b1, st1)" by (metis prod.collapse)
  note lines = xchat_lines_state [OF l assms(2-4)]
  have "f' = (flow_of (fst (act s)) g, n, snd (act s))" if "f' = (let (r, st) = act s in (flow_of r g, n, st))"
    for f' g n s and act :: "xchat_state act" using that by (simp add: case_prod_beta)
  then show ?thesis
    using assms l lines polls [of st] polls [of st1] backoff_doubles [of b "backoff_max cfg"] backoff_doubles [of b1 "backoff_max cfg"]
    by (auto simp: xchat_pass_def sleep_with_heartbeat_def case_prod_beta split: sum.splits if_splits)
qed

text \<open>
  C17.  Whatever the system does, in every state of a worker the open file is the daily file of the current date, no name
  is in the directory twice, no more chats were logged than lines seen, and the pause before a restart stays
  between one second and its maximum.
\<close>

theorem xchat_worker_invariant:
  assumes "xchat_passes cfg pid passes (1, xchat_init clock today files) = (f, backoff, st)"
    and "1 \<le> backoff_max cfg" "distinct (map fst files)"
  shows "(\<forall>n. st_file st = Some n \<longrightarrow> n = log_name (st_date st)) \<and> distinct (map fst (st_files st)) \<and>
    0 \<le> st_chats st \<and> st_chats st \<le> st_lines st \<and> 1 \<le> backoff \<and> backoff \<le> backoff_max cfg"
proof -
  have "xchat_passes cfg pid ps (b, s) = (f, backoff, st) \<Longrightarrow> state_inv s \<Longrightarrow> 1 \<le> b \<Longrightarrow> b \<le> backoff_max cfg \<Longrightarrow>
      state_inv st \<and> 1 \<le> backoff \<and> backoff \<le> backoff_max cfg" for ps b s
  proof (induction ps arbitrary: b s)
    case (Cons p ps)
    obtain f1 b1 s1 where p: "xchat_pass cfg pid p (b, s) = (f1, b1, s1)" by (metis prod.collapse)
    note i = xchat_pass_state [OF p Cons.prems(2-4)]
    show ?case
    proof (cases "f1 = Continue")
      case True
      with Cons.prems p have "xchat_passes cfg pid ps (b1, s1) = (f, backoff, st)" by simp
      with Cons.IH i show ?thesis by blast
    next
      case False
      with Cons.prems p have "(f, backoff, st) = (f1, b1, s1)" by (cases f1) auto
      with i show ?thesis by simp
    qed
  qed simp
  moreover have "state_inv (xchat_init clock today files)" using assms(3) by (simp add: state_inv_def xchat_init_def)
  ultimately show ?thesis using assms(1,2) by (force simp: state_inv_def)
qed

definition sample_chat_pass :: xchat_pass_input where
  "sample_chat_pass =
     \<lparr>pi_stop = False, pi_os = bare_os, pi_exists = True, pi_start = 0, pi_polls = [], pi_starts = True, pi_spawn = 0,
      pi_lines = [sample_chat_line ''say: Bob: hi'' (Date 2024 1 8)], pi_tail = sample_tail, pi_stopped = False\<rparr>"

theorem xchat_worker_invariant_witness:
  "st_chats (snd (snd (xchat_passes shipped_settings 1 [sample_chat_pass] (1, xchat_init 0 (Date 2024 1 8) [])))) \<le>
   st_lines (snd (snd (xchat_passes shipped_settings 1 [sample_chat_pass] (1, xchat_init 0 (Date 2024 1 8) []))))"
proof -
  obtain f b st where r: "xchat_passes shipped_settings 1 [sample_chat_pass] (1, xchat_init 0 (Date 2024 1 8) []) = (f, b, st)"
    by (metis prod.collapse)
  from xchat_worker_invariant [OF r] r show ?thesis by (simp add: shipped_settings_def)
qed

end
