(* ===== verification/Legacy_Chat_Process.thy ===== *)
theory Legacy_Chat_Process
  imports Legacy_Chat_Worker Guard_Enforce
begin

section \<open>\<open>40-chatlogger.py\<close>: the PID file, starting and stopping\<close>

text \<open>
  The commands an operator gives: start, \<open>--stop\<close> and \<open>--status\<close>.  Other processes come and go, so every look at
  the process table is a \<open>moment\<close> of its own.
\<close>

subsection \<open>The PID file\<close>

definition legacy_record :: "string \<Rightarrow> dict option res" where
  "legacy_record raw =
     (case py_int_text raw of
        Inr n \<Rightarrow> Inr (Some [(''pid'', JInt n), (''legacy'', JBool True)])
      | Inl e \<Rightarrow> if is_value_error e then Inr None else Inl e)"

definition read_pid_record :: "(string \<Rightarrow> json res) \<Rightarrow> file_read \<Rightarrow> dict option res" where
  "read_pid_record loads f =
     (case f of
        Missing \<Rightarrow> Inr None
      | Unreadable \<Rightarrow> Inr None
      | Undecodable _ \<Rightarrow> Inl UnicodeDecodeError
      | Text t \<Rightarrow>
          (let raw = strip t
           in if raw = [] then Inr None
              else case loads raw of
                     Inr (JObj d) \<Rightarrow> if dict_get d ''pid'' \<noteq> None then Inr (Some d) else legacy_record raw
                   | Inr _ \<Rightarrow> legacy_record raw
                   | Inl e \<Rightarrow> if is_value_error e then legacy_record raw else Inl e))"

definition pid_record :: "int \<Rightarrow> num_float \<Rightarrow> string \<Rightarrow> dict" where
  "pid_record pid start_time script =
     [(''pid'', JInt pid), (''start_time'', JFloat start_time), (''script'', JStr script)]"

definition write_pid_record :: "int \<Rightarrow> num_float \<Rightarrow> string \<Rightarrow> file_read" where
  "write_pid_record pid start_time script = Text (json_dumps (JObj (pid_record pid start_time script)) @ [CHR 0x0A])"

definition recorded_pid :: "dict \<Rightarrow> int res" where
  "recorded_pid d = py_int (get_default d ''pid'' (JInt 0))"

subsection \<open>Processes\<close>

datatype kill_result = Delivered | NoProcess | NotPermitted | KillFails

record moment =
  kill_null :: "int \<Rightarrow> kill_result"  \<comment> \<open>signal 0\<close>
  cmdline_bytes :: "int \<Rightarrow> byte list option"

text \<open>\<open>pid_t\<close> has 32 bits; \<open>os.kill\<close> raises beyond.\<close>

definition pid_max :: int where
  "pid_max = 2147483647"

definition process_is_running :: "moment \<Rightarrow> int \<Rightarrow> bool res" where
  "process_is_running m pid =
     (if pid \<le> 0 then Inr False
      else if pid_max < pid then Inl OverflowError
      else Inr (case kill_null m pid of Delivered \<Rightarrow> True | NoProcess \<Rightarrow> False | NotPermitted \<Rightarrow> True | KillFails \<Rightarrow> False))"

fun split_nul :: "byte list \<Rightarrow> byte list list" where
  "split_nul [] = [[]]"
| "split_nul (b # bs) = (if b = 0 then [] # split_nul bs else case split_nul bs of [] \<Rightarrow> [[b]] | p # ps \<Rightarrow> (b # p) # ps)"

definition proc_cmdline :: "moment \<Rightarrow> int \<Rightarrow> string" where
  "proc_cmdline m pid =
     (case cmdline_bytes m pid of
        None \<Rightarrow> []
      | Some raw \<Rightarrow> join '' '' (map (\<lambda>piece. map narrow_char (utf8_decode piece)) (filter (\<lambda>piece. piece \<noteq> []) (split_nul raw))))"

definition worker_marker :: string where
  "worker_marker = ''40-chatlogger.py''"

definition worker_flag :: string where
  "worker_flag = ''--worker''"

definition process_is_our_worker :: "moment \<Rightarrow> int \<Rightarrow> bool res" where
  "process_is_our_worker m pid =
     bindR (process_is_running m pid) (\<lambda>running.
       if \<not> running then Inr False
       else let cmdline = proc_cmdline m pid
            in if cmdline = [] then Inr True
               else Inr (contains cmdline worker_marker \<and> contains cmdline worker_flag))"

subsection \<open>Stopping\<close>

datatype signal = SIGTERM | SIGKILL

text \<open>What \<open>--stop\<close> finds: the polls of its wait, with their times, and the moment behind it.\<close>

record stop_env =
  sv_loads :: "string \<Rightarrow> json res"
  sv_first :: moment
  sv_second :: moment
  sv_term :: bool
  sv_deadline :: rat
  sv_polls :: "(rat \<times> moment) list"
  sv_last :: moment
  sv_unlinks :: bool

definition unlink_pid :: "bool \<Rightarrow> file_read \<Rightarrow> file_read" where
  "unlink_pid unlinks f = (if unlinks then Missing else f)"

fun wait_gone :: "rat \<Rightarrow> int \<Rightarrow> (rat \<times> moment) list \<Rightarrow> unit res" where
  "wait_gone deadline pid [] = Inr ()"
| "wait_gone deadline pid ((t, m) # ps) =
     (if deadline \<le> t then Inr ()
      else bindR (process_is_running m pid) (\<lambda>alive. if alive then wait_gone deadline pid ps else Inr ()))"

text \<open>The signals sent, the PID file left, and the outcome.\<close>

definition stop_worker :: "stop_env \<Rightarrow> file_read \<Rightarrow> (int \<times> signal) list \<times> file_read \<times> unit res" where
  "stop_worker env f =
     (case read_pid_record (sv_loads env) f of
        Inl e \<Rightarrow> ([], f, Inl e)
      | Inr None \<Rightarrow> ([], f, Inr ())
      | Inr (Some d) \<Rightarrow>
          (case recorded_pid d of
             Inl e \<Rightarrow> ([], f, Inl e)
           | Inr pid \<Rightarrow>
               (case process_is_running (sv_first env) pid of
                  Inl e \<Rightarrow> ([], f, Inl e)
                | Inr False \<Rightarrow> ([], unlink_pid (sv_unlinks env) f, Inr ())
                | Inr True \<Rightarrow>
                    (case process_is_our_worker (sv_second env) pid of
                       Inl e \<Rightarrow> ([], f, Inl e)
                     | Inr False \<Rightarrow> ([], unlink_pid (sv_unlinks env) f, Inr ())
                     | Inr True \<Rightarrow>
                         if \<not> sv_term env then ([(pid, SIGTERM)], f, Inr ())
                         else case bindR (wait_gone (sv_deadline env) pid (sv_polls env))
                                     (\<lambda>_. process_is_running (sv_last env) pid) of
                                Inl e \<Rightarrow> ([(pid, SIGTERM)], f, Inl e)
                              | Inr alive \<Rightarrow>
                                  ((pid, SIGTERM) # (if alive then [(pid, SIGKILL)] else []),
                                   unlink_pid (sv_unlinks env) f, Inr ())))))"

subsection \<open>Starting\<close>

record start_env =
  sr_loads :: "string \<Rightarrow> json res"
  sr_first :: moment
  sr_second :: moment
  sr_unlinks :: bool
  sr_log_opens :: bool
  sr_child :: "int option"  \<comment> \<open>the new process, if \<open>Popen\<close> succeeds\<close>
  sr_time :: num_float
  sr_script :: string

text \<open>The worker started, the PID file left, and the outcome.\<close>

definition start_worker :: "start_env \<Rightarrow> file_read \<Rightarrow> int option \<times> file_read \<times> unit res" where
  "start_worker env f =
     (if \<not> sr_log_opens env then (None, f, Inl OSError)
      else case sr_child env of
             None \<Rightarrow> (None, f, Inl OSError)
           | Some pid \<Rightarrow> (Some pid, write_pid_record pid (sr_time env) (sr_script env), Inr ()))"

definition ensure_worker_running :: "start_env \<Rightarrow> file_read \<Rightarrow> int option \<times> file_read \<times> unit res" where
  "ensure_worker_running env f =
     (case read_pid_record (sr_loads env) f of
        Inl e \<Rightarrow> (None, f, Inl e)
      | Inr None \<Rightarrow> start_worker env f
      | Inr (Some d) \<Rightarrow>
          (case recorded_pid d of
             Inl e \<Rightarrow> (None, f, Inl e)
           | Inr pid \<Rightarrow>
               (case process_is_our_worker (sr_first env) pid of
                  Inl e \<Rightarrow> (None, f, Inl e)
                | Inr True \<Rightarrow> (None, f, Inr ())
                | Inr False \<Rightarrow>
                    (let f = unlink_pid (sr_unlinks env) f
                     in case (if 0 < pid then process_is_running (sr_second env) pid else Inr False) of
                          Inl e \<Rightarrow> (None, f, Inl e)
                        | Inr _ \<Rightarrow> start_worker env f))))"

subsection \<open>Status and dispatch\<close>

definition read_state :: "(string \<Rightarrow> json res) \<Rightarrow> file_read \<Rightarrow> json res" where
  "read_state loads f =
     (case f of
        Text t \<Rightarrow> (case loads t of Inr v \<Rightarrow> Inr v | Inl e \<Rightarrow> if is_value_error e then Inr (JObj []) else Inl e)
      | _ \<Rightarrow> Inr (JObj []))"

text \<open>The exit status; what is printed is not modelled, but a state that is no object cannot be printed.\<close>

definition show_status :: "(string \<Rightarrow> json res) \<Rightarrow> os_env \<Rightarrow> moment \<Rightarrow> file_read \<Rightarrow> file_read \<Rightarrow> int res" where
  "show_status loads os m pid_file state_file =
     bindR (read_pid_record loads pid_file) (\<lambda>r.
     bindR (read_state loads state_file) (\<lambda>state.
     bindR (xchat_preferred_tail_source os) (\<lambda>_.
     bindR (active_server_log_path os) (\<lambda>_.
       case r of
         None \<Rightarrow> Inr 0
       | Some d \<Rightarrow>
           bindR (recorded_pid d) (\<lambda>pid.
           bindR (process_is_our_worker m pid) (\<lambda>running.
             if truthy state \<and> \<not> is_dict state then Inl AttributeError
             else Inr (if running then 0 else 1)))))))"

datatype mode = RunWorker | Stop | Status | Selftest | Start

definition mode_of :: "string list \<Rightarrow> mode" where
  "mode_of args =
     (case args of
        [] \<Rightarrow> Start
      | a # _ \<Rightarrow> if a = worker_flag then RunWorker else if a = ''--stop'' then Stop
                else if a = ''--status'' then Status else if a = ''--selftest'' then Selftest else Start)"

subsection \<open>Facts: whom a signal reaches\<close>

definition worker_at :: "moment \<Rightarrow> int \<Rightarrow> bool" where
  "worker_at m pid \<longleftrightarrow> 0 < pid \<and> pid \<le> pid_max \<and> (kill_null m pid = Delivered \<or> kill_null m pid = NotPermitted) \<and>
     (proc_cmdline m pid = [] \<or> contains (proc_cmdline m pid) worker_marker \<and> contains (proc_cmdline m pid) worker_flag)"

lemma our_worker: "process_is_our_worker m pid = Inr True \<longleftrightarrow> worker_at m pid"
  by (auto simp: process_is_our_worker_def process_is_running_def worker_at_def Let_def split: kill_result.splits)

lemma wait_gone_ok: "0 < pid \<Longrightarrow> pid \<le> pid_max \<Longrightarrow> wait_gone deadline pid ps = Inr ()"
  by (induction deadline pid ps rule: wait_gone.induct) (auto simp: process_is_running_def)

lemma running_True:
  "process_is_running m pid = Inr True \<Longrightarrow> 0 < pid \<and> pid \<le> pid_max \<and> (kill_null m pid = Delivered \<or> kill_null m pid = NotPermitted)"
  by (auto simp: process_is_running_def split: if_splits kill_result.splits)

text \<open>
  C25.  \<open>--stop\<close> signals one process at most, the recorded one, with \<open>SIGTERM\<close> first; it was running and looked like the
  worker just before (or its command line could not be read), and \<open>SIGKILL\<close> follows only if a process of that number is
  still there after the wait.
\<close>

theorem xchat_stop_safe:
  assumes "stop_worker env f = (sent, f', r)" "sent \<noteq> []"
  shows "\<exists>d pid. read_pid_record (sv_loads env) f = Inr (Some d) \<and> recorded_pid d = Inr pid \<and>
    worker_at (sv_second env) pid \<and> process_is_running (sv_first env) pid = Inr True \<and>
    (sent = [(pid, SIGTERM)] \<or>
     sent = [(pid, SIGTERM), (pid, SIGKILL)] \<and> sv_term env \<and> process_is_running (sv_last env) pid = Inr True)"
proof -
  from assms obtain d where d: "read_pid_record (sv_loads env) f = Inr (Some d)"
    by (auto simp: stop_worker_def split: sum.splits option.splits)
  with assms obtain pid where pid: "recorded_pid d = Inr pid"
    by (auto simp: stop_worker_def split: sum.splits)
  with assms d have run: "process_is_running (sv_first env) pid = Inr True"
    by (auto simp: stop_worker_def split: sum.splits bool.splits)
  with assms d pid have ours: "process_is_our_worker (sv_second env) pid = Inr True"
    by (auto simp: stop_worker_def split: sum.splits bool.splits)
  with assms d pid run have "sent = [(pid, SIGTERM)] \<or>
     sent = [(pid, SIGTERM), (pid, SIGKILL)] \<and> sv_term env \<and> process_is_running (sv_last env) pid = Inr True"
    using running_True [OF run] by (auto simp: wait_gone_ok stop_worker_def split: sum.splits bool.splits if_splits)
  with d pid run ours show ?thesis using our_worker by blast
qed

definition no_process :: moment where
  "no_process = \<lparr>kill_null = (\<lambda>_. NoProcess), cmdline_bytes = (\<lambda>_. None)\<rparr>"

text \<open>A moment with one process, whose command line is known.\<close>

definition only_process :: "int \<Rightarrow> string \<Rightarrow> moment" where
  "only_process pid cmd = \<lparr>kill_null = (\<lambda>p. if p = pid then Delivered else NoProcess),
     cmdline_bytes = (\<lambda>p. if p = pid then Some (map of_char cmd) else None)\<rparr>"

definition sample_stop :: "moment \<Rightarrow> stop_env" where
  "sample_stop m = \<lparr>sv_loads = (\<lambda>_. Inl JSONDecodeError), sv_first = only_process 42 ''python3 40-chatlogger.py --worker'',
     sv_second = only_process 42 ''python3 40-chatlogger.py --worker'', sv_term = True, sv_deadline = 5,
     sv_polls = [(0, no_process)], sv_last = m, sv_unlinks = True\<rparr>"

lemma sample_worker: "worker_at (only_process 42 ''python3 40-chatlogger.py --worker'') 42"
  by code_simp

lemma sample_stop_run:
  "stop_worker (sample_stop no_process) (Text ''42'') = ([(42, SIGTERM)], Missing, Inr ())"
  by code_simp

theorem xchat_stop_safe_witness: "worker_at (sv_second (sample_stop no_process)) 42"
  using xchat_stop_safe [OF sample_stop_run] by auto

text \<open>
  The final check of \<open>--stop\<close> asks only whether some process has the number: if the worker has left and the number went
  to another program, that program is killed, whatever its command line says.
\<close>

theorem xchat_stop_kills_recycled:
  assumes "read_pid_record (sv_loads env) f = Inr (Some d)" "recorded_pid d = Inr pid"
    and "process_is_running (sv_first env) pid = Inr True" "worker_at (sv_second env) pid" "sv_term env"
    and "kill_null (sv_last env) pid = Delivered"
  shows "(pid, SIGKILL) \<in> set (fst (stop_worker env f))"
proof -
  have "process_is_running (sv_last env) pid = Inr True"
    using running_True [OF assms(3)] assms(6) by (simp add: process_is_running_def)
  moreover have "wait_gone (sv_deadline env) pid (sv_polls env) = Inr ()"
    using running_True [OF assms(3)] by (simp add: wait_gone_ok)
  ultimately show ?thesis using assms(1-3,5) assms(4) [folded our_worker] by (simp add: stop_worker_def)
qed

theorem xchat_stop_kills_recycled_witness:
  "(42, SIGKILL) \<in> set (fst (stop_worker (sample_stop (only_process 42 ''backup.sh'')) (Text ''42'')))"
proof -
  let ?e = "sample_stop (only_process 42 ''backup.sh'')"
  have "read_pid_record (sv_loads ?e) (Text ''42'') = Inr (Some [(''pid'', JInt 42), (''legacy'', JBool True)])"
    "recorded_pid [(''pid'', JInt 42), (''legacy'', JBool True)] = Inr 42"
    "process_is_running (sv_first ?e) 42 = Inr True"
    by code_simp+
  moreover have "worker_at (sv_second ?e) 42" by (simp add: sample_stop_def sample_worker)
  ultimately show ?thesis
    by (rule xchat_stop_kills_recycled) (simp_all add: sample_stop_def only_process_def)
qed

subsection \<open>Facts: starting\<close>

text \<open>A second worker is only started if the recorded process is not a worker.\<close>

lemma start_recorded:
  assumes "ensure_worker_running env f = (Some pid, f', r)"
  shows "f' = write_pid_record pid (sr_time env) (sr_script env) \<and> r = Inr ()"
  using assms by (auto simp: ensure_worker_running_def start_worker_def Let_def
      split: sum.splits option.splits bool.splits if_splits)

lemma strip_dumped: "strip (json_dumps (JObj d) @ [CHR 0x0A]) = json_dumps (JObj d)"
proof -
  have "\<not> is_space (CHR 0x7B)" "\<not> is_space (CHR 0x7D)" by (simp_all add: is_space_def in_range_def code_def)
  then have "strip (json_dumps (JObj d)) = json_dumps (JObj d)" by (intro strip_id) simp
  then show ?thesis by (simp only: strip_snoc_space newline_space)
qed

text \<open>
  C28.  The PID file is read back.  Where \<open>json.loads\<close> reads what \<open>json.dumps\<close> writes, the record of a started worker names that
  worker; another start leaves it alone for as long as a process of that number looks like the worker.
\<close>

theorem xchat_pid_roundtrip:
  assumes "ensure_worker_running env f = (Some pid, f', r)"
    and "sr_loads env' (json_dumps (JObj (pid_record pid (sr_time env) (sr_script env)))) =
      Inr (JObj (pid_record pid (sr_time env) (sr_script env)))"
  shows "read_pid_record (sr_loads env') f' = Inr (Some (pid_record pid (sr_time env) (sr_script env))) \<and>
    recorded_pid (pid_record pid (sr_time env) (sr_script env)) = Inr pid \<and>
    (worker_at (sr_first env') pid \<longrightarrow> ensure_worker_running env' f' = (None, f', Inr ()))"
proof -
  let ?d = "pid_record pid (sr_time env) (sr_script env)"
  have f': "f' = Text (json_dumps (JObj ?d) @ [CHR 0x0A])"
    using start_recorded [OF assms(1)] by (simp add: write_pid_record_def)
  have "dict_get ?d ''pid'' \<noteq> None" by (simp add: pid_record_def)
  with assms(2) have r: "read_pid_record (sr_loads env') f' = Inr (Some ?d)"
    unfolding f' read_pid_record_def by (simp add: strip_dumped Let_def del: json_dumps.simps) simp
  moreover have p: "recorded_pid ?d = Inr pid" by (simp add: recorded_pid_def pid_record_def get_default_def)
  moreover have "worker_at (sr_first env') pid \<longrightarrow> ensure_worker_running env' f' = (None, f', Inr ())"
    using r p by (auto simp: ensure_worker_running_def our_worker [symmetric])
  ultimately show ?thesis by blast
qed

definition sample_start :: "moment \<Rightarrow> start_env" where
  "sample_start m = \<lparr>sr_loads = (\<lambda>_. Inr (JObj (pid_record 42 (FNum 1 ''1.0'') ''40-chatlogger.py''))), sr_first = m,
     sr_second = m, sr_unlinks = True, sr_log_opens = True, sr_child = Some 42, sr_time = FNum 1 ''1.0'',
     sr_script = ''40-chatlogger.py''\<rparr>"

theorem xchat_pid_roundtrip_witness:
  "\<exists>f'. ensure_worker_running (sample_start no_process) Missing = (Some 42, f', Inr ()) \<and>
     ensure_worker_running (sample_start (only_process 42 ''python3 40-chatlogger.py --worker'')) f' = (None, f', Inr ())"
proof -
  let ?e = "sample_start no_process" and ?m = "only_process 42 ''python3 40-chatlogger.py --worker''"
  obtain f' where s: "ensure_worker_running ?e Missing = (Some 42, f', Inr ())"
    by (simp add: ensure_worker_running_def read_pid_record_def start_worker_def sample_start_def)
  note sample_worker
  with xchat_pid_roundtrip [OF s, of "sample_start ?m"] s show ?thesis by (auto simp: sample_start_def)
qed

text \<open>
  A PID file the script cannot use is never repaired.  If the recorded number is beyond the range of process numbers,
  both start and stop raise, start no worker, send no signal and leave the file as it is.
\<close>

theorem xchat_bad_pid_file:
  assumes "read_pid_record loads f = Inr (Some d)" "recorded_pid d = Inr pid" "pid_max < pid"
  shows "(\<forall>stop. sv_loads stop = loads \<longrightarrow> stop_worker stop f = ([], f, Inl OverflowError)) \<and>
    (\<forall>start. sr_loads start = loads \<longrightarrow> ensure_worker_running start f = (None, f, Inl OverflowError))"
proof -
  have "process_is_running m pid = Inl OverflowError" for m
    using assms(3) by (simp add: process_is_running_def pid_max_def)
  with assms(1,2) show ?thesis
    by (simp add: stop_worker_def ensure_worker_running_def process_is_our_worker_def)
qed

theorem xchat_bad_pid_file_witness:
  "stop_worker (sample_stop no_process) (Text ''99999999999'') = ([], Text ''99999999999'', Inl OverflowError)"
proof -
  have "read_pid_record (\<lambda>_. Inl JSONDecodeError) (Text ''99999999999'') =
      Inr (Some [(''pid'', JInt 99999999999), (''legacy'', JBool True)])"
    "recorded_pid [(''pid'', JInt 99999999999), (''legacy'', JBool True)] = Inr 99999999999"
    by code_simp+
  from xchat_bad_pid_file [OF this, THEN conjunct1, THEN spec, of "sample_stop no_process"] show ?thesis
    by (simp add: pid_max_def sample_stop_def)
qed

end
