(* ===== verification/Spec2Isabelle.thy ===== *)
theory Spec2Isabelle
  imports Live_Team Match_Stdin Match_Clock Chat_Writer Announcer_Outcome Announcer_Lock Worker_Process Guard_Claims Guard_Status Legacy_Live_Facts
    Legacy_Chat_Agree Legacy_Chat_Invariant Legacy_Chat_Process
begin

text \<open>
  \<^bold>\<open>The bundled addons of a Jedi Academy game server.\<close>
  The repository packages a dedicated server with a supervisor (Go) and small Python programs, the addons.
  This library models the Python programs, all of \<open>src/bundled-addons\<close>.

  \<^bold>\<open>The parts.\<close>
  Four addons are in use (\<open>defaults\<close>).  The supervisor owns the output of the server, parses it and hands
  events, one JSON object per line, to the standard input of three of them: \<open>live-team-announcer.py\<close> (announces team
  changes), \<open>match-announcer.py\<close> (announces start and result of a match) and \<open>chatlogger.py\<close> (keeps daily chat
  logs).  \<open>announcer.py\<close> is a background worker that announces messages by interval or schedule.  Three older
  daemons (\<open>examples/deprecated\<close>) follow the output with \<open>tail\<close> themselves: \<open>20-live-team-announcer.py\<close>,
  \<open>40-chatlogger.py\<close> and \<open>50-rcon-live-guard.py\<close> (kicks or reports players that guess the RCON password).
  All announcements leave as RCON datagrams to the server; password and port come from process
  variables, the file \<open>.runtime/taystjk-effective.env\<close>, a JSON state file and the server configuration.  Workers
  exclude each other by a lock file and leave a PID file.

  \<^bold>\<open>What the programs use of Python.\<close>
  \<open>Prelude\<close> has results (\<open>exn + 'a\<close>: a raised exception or a value), loops whose body may raise, and dicts.
  \<open>Py_Text\<close>, \<open>Py_Json\<close>, \<open>Py_Regex\<close> (a backtracking matcher in the order of CPython), \<open>Py_Shlex\<close>, \<open>Py_Format\<close>,
  \<open>Py_Date\<close> and \<open>Py_Utf8\<close> model the library calls, \<open>Rcon_Wire\<close> the datagrams and the socket.
  \<open>Event_Machine\<close> has the locales that lift a fact about one event to a run (\<open>event_machine\<close>, \<open>emitting_machine\<close>,
  \<open>surviving_machine\<close>) and the one of cooldown tables (\<open>cooldown\<close>); each addon interprets them on its own step.

  \<^bold>\<open>Theories and sources.\<close>
  \<^item> \<open>Addon_Runtime\<close>, \<open>Runtime_Env_File\<close>, \<open>Live_Team\<close>: \<open>live-team-announcer.py\<close>.  \<open>live_line\<close> is one pass of the
    loop of \<open>main\<close>, its state the cooldown table and the datagrams sent.  Shown: the datagrams are exactly those of an
    abstract announcer (\<open>live_announced\<close>, with a history instead of the table), announcements are spaced, the environment
    file is read back as bash's \<open>printf %q\<close> writes it (\<open>bash_quote\<close>), what ends the addon.
  \<^item> \<open>Match_Config\<close>, \<open>Match_State\<close>, \<open>Match_Loop\<close>: \<open>match-announcer.py\<close>.  \<open>match_state\<close> holds the attributes of
    \<open>MatchAnnouncer\<close>, every method is a definition over an abstract clock and sender, \<open>match_step\<close> is one line or
    tick, \<open>match_main\<close> the program over its polls; \<open>Match_Stdin\<close> has the buffered
    standard input that the polls come from.  \<open>Match_Spec\<close> is an abstract match machine without flags and \<open>Match_Refine\<close> the simulation
    between them; \<open>Match_Claims\<close>, \<open>Match_Flush\<close>, \<open>Match_Outcome\<close> have the guarantees, \<open>Match_Demo\<close> one match;
    \<open>Match_Clock\<close> runs the same code in a world that logs the readings of the clock, and has the guarantees on times.
  \<^item> \<open>Chat_Classify\<close>, \<open>Chat_Writer\<close>: \<open>chatlogger.py\<close>.  \<open>event_to_entry\<close> and the class \<open>ChatWriter\<close> over a directory of
    files.  Shown: what an entry can be, that the whole program (\<open>chat_main\<close>) appends to each daily file exactly the
    entries of its day, what the clean-up removes.
  \<^item> \<open>Announcer_Config\<close>, \<open>Announcer_Rcon\<close>, \<open>Announcer_Schedule\<close>: \<open>announcer.py\<close>.  \<open>ann_pass\<close> is one pass of either
    loop, its input all that the pass reads.  \<open>Announcer_Slots\<close>, \<open>Announcer_Facts\<close>, \<open>Announcer_Outcome\<close> have the
    guarantees (each daily slot once per day, periodic entries spaced, rotation, sleeps), \<open>Announcer_Demo\<close> sample runs.
    \<open>Announcer_Lock\<close> models launchers and workers as interleaved processes (\<open>lock_step\<close>): one worker at most.
    \<open>Worker_Process\<close> has the launchers and workers of all three daemons from the first to the last statement; each
    is a run of those steps.
  \<^item> \<open>Guard_Detect\<close>, \<open>Guard_Config\<close>, \<open>Guard_Enforce\<close>, \<open>Guard_Worker\<close>: \<open>50-rcon-live-guard.py\<close>.  \<open>guard_line\<close> is one
    line, \<open>guard_pass\<close> one life of \<open>tail\<close>.  \<open>Guard_Patterns\<close>, \<open>Guard_Status\<close>, \<open>Guard_Outcome\<close>, \<open>Guard_Claims\<close>: an attempt
    line is read exactly, a status listing is read back (names with blanks included, names that imitate columns not), only
    players with the address of an attempt are kicked, what can end the worker.
  \<^item> \<open>Legacy_Live\<close>, \<open>Legacy_Live_Facts\<close>: \<open>20-live-team-announcer.py\<close>, on the helpers of the guard.
  \<^item> \<open>Legacy_Chat_Parse\<close>, \<open>Legacy_Chat_Files\<close>, \<open>Legacy_Chat_Worker\<close>, \<open>Legacy_Chat_Process\<close>: \<open>40-chatlogger.py\<close>.
    \<open>Legacy_Chat_Facts\<close>: what is recorded; \<open>Legacy_Chat_Agree\<close>: the new chat logger recognises the same chat;
    \<open>Legacy_Chat_Cleanup\<close> (locale \<open>local_update\<close>): the life of a daily file; \<open>Legacy_Chat_Outcome\<close>, \<open>Legacy_Chat_Invariant\<close>: no chat is lost
    within the retention period, and the state of the worker; \<open>Legacy_Chat_Process\<close> also has whom a signal reaches.

  \<^item> \<open>Tail_Process\<close>: how the three daemons end their \<open>tail\<close>.

  Functions that several scripts carry as identical text are modelled once; the other scripts name them
  (\<open>guard_safe_int\<close>, \<open>xlive_acquire_worker_lock\<close> and so on).

  \<^bold>\<open>Bounds and loops.\<close>
  The event loops consume their input and are recursions over it.  Waiting loops take the clock readings they make as
  input.  The flush loop of \<open>match-announcer.py\<close> has 52 passes of fuel (\<open>flush_fuel\<close>): each sleeps 50 ms
  and the loop ends after 2.5 s, and \<open>match_flush_returns\<close> shows that the fuel is enough for every clock that advances with the
  sleeps.  The switches between the two loops of \<open>announcer.py\<close> are passes of the same run; the recursion depth they
  cost in CPython is not modelled.

  \<^bold>\<open>Idealisations.\<close>
  Text is Latin-1 (replies of the server are lists of code points where their header matters, and characters beyond
  Latin-1 are narrowed to a question mark where they do not).  Monotonic clocks are rationals.  \<open>json.loads\<close>,
  \<open>datetime.fromisoformat\<close>, time zones, \<open>re.compile\<close> of a pattern from the operator and format specifications other than
  the plain ones are parameters; a theorem that needs one of them says what of its documented behaviour it uses.
  The directories \<open>40-chatlogger.py\<close> needs can be created.
  A failing write changes nothing; a file is missing, unreadable, text, or not UTF-8.

  \<^bold>\<open>Not modelled.\<close>
  Log lines and printed diagnostics, signal handlers (the shutdown flag is an input), file descriptors
  handed to a child.  Outside \<open>src/bundled-addons\<close>: the supervisor (\<open>internal\<close>, \<open>cmd\<close>, Go), the
  shell scripts, images and eggs, and the tests under \<open>scripts/test\<close>.
\<close>

end
